(* ===== verification/Prelude.thy ===== *)
theory Prelude
  imports Main "HOL-Library.List_Lexorder" "HOL-Library.Char_ord" "HOL-Library.Sublist"
begin

text \<open>
  Vocabulary shared by every theory of the development: Go strings as byte lists, the error-or-value
  results of fallible Go functions, and generic lemmas on lists and association lists.

  A Go \<open>string\<close> is a sequence of bytes; Isabelle's \<^typ>\<open>string\<close> is a list of 8-bit
  characters, so the two correspond byte for byte and \<open>len(s)\<close> is \<^const>\<open>length\<close>.
  Go's \<open><\<close> on strings is the bytewise lexicographic order, which is the order that
  \<^theory_text>\<open>List_Lexorder\<close> and \<^theory_text>\<open>Char_ord\<close> give to \<^typ>\<open>string\<close>.
\<close>

section \<open>Collections\<close>

text \<open>
  \<open>go_eval\<close> holds the equations that evaluate the model on concrete inputs with \<open>simp\<close>;
  \<open>frame\<close> the facts that an operation leaves a part of the state alone.
\<close>

named_theorems go_eval
named_theorems frame

section \<open>Bytes and strings\<close>

abbreviation byte :: "char \<Rightarrow> nat" where
  "byte c \<equiv> of_char c"

abbreviation NL :: char where
  "NL \<equiv> CHR 0x0A"

abbreviation DQ :: char where
  "DQ \<equiv> CHR 0x22"

abbreviation SQ :: char where
  "SQ \<equiv> CHR 0x27"

abbreviation BSL :: char where
  "BSL \<equiv> CHR 0x5C"

section \<open>List lemmas\<close>

lemma takeWhile_all_conv: "takeWhile P xs = xs \<longleftrightarrow> (\<forall>x \<in> set xs. P x)"
  by (induction xs) auto

lemma dropWhile_hd: "dropWhile P xs = y # ys \<Longrightarrow> \<not> P y"
  by (induction xs) (auto split: if_splits)

lemma drop_take_append: "m \<le> n \<Longrightarrow> drop m (take n xs) @ drop n xs = drop m xs"
  by (metis append_take_drop_id drop_drop drop_take le_add_diff_inverse2)

end
