(* ===== verification/Go_Strings.thy ===== *)
theory Go_Strings
  imports Prelude
begin

text \<open>
  The parts of Go's \<open>strings\<close>, \<open>unicode\<close> and \<open>unicode/utf8\<close> packages that the
  program calls. Strings are byte lists; \<open>decode_rune\<close> is \<open>utf8.DecodeRuneInString\<close> and
  \<open>runes\<close> is the sequence a \<open>for \<dots> range\<close> loop over a string visits, each rune with the
  bytes it was decoded from, so that invalid bytes are kept. The character tables of package
  \<open>unicode\<close> above ASCII are a parameter of type \<open>unicode\<close>; below 128 the definitions
  are the tables. White space is a short list and is written out in full.
\<close>

section \<open>UTF-8\<close>

definition rune_error :: nat where
  "rune_error = 0xFFFD"

text \<open>The number of bytes a leading byte announces, and the range of the second byte.\<close>

definition accept_range :: "nat \<Rightarrow> (nat \<times> nat \<times> nat) option" where
  "accept_range n =
     (if 0xC2 \<le> n \<and> n \<le> 0xDF then Some (2, 0x80, 0xBF)
      else if n = 0xE0 then Some (3, 0xA0, 0xBF)
      else if n = 0xED then Some (3, 0x80, 0x9F)
      else if 0xE1 \<le> n \<and> n \<le> 0xEF then Some (3, 0x80, 0xBF)
      else if n = 0xF0 then Some (4, 0x90, 0xBF)
      else if n = 0xF4 then Some (4, 0x80, 0x8F)
      else if 0xF1 \<le> n \<and> n \<le> 0xF3 then Some (4, 0x80, 0xBF)
      else None)"

definition cont_byte :: "char \<Rightarrow> bool" where
  "cont_byte c \<longleftrightarrow> 0x80 \<le> byte c \<and> byte c \<le> 0xBF"

fun decode_rune :: "string \<Rightarrow> nat \<times> nat" where
  "decode_rune [] = (rune_error, 0)"
| "decode_rune (b0 # bs) =
     (if byte b0 < 0x80 then (byte b0, 1)
      else case accept_range (byte b0) of
        None \<Rightarrow> (rune_error, 1)
      | Some (sz, lo, hi) \<Rightarrow>
          (case bs of
             [] \<Rightarrow> (rune_error, 1)
           | b1 # bs1 \<Rightarrow>
               if \<not> (lo \<le> byte b1 \<and> byte b1 \<le> hi) then (rune_error, 1)
               else if sz = 2 then ((byte b0 mod 32) * 64 + byte b1 mod 64, 2)
               else (case bs1 of
                       [] \<Rightarrow> (rune_error, 1)
                     | b2 # bs2 \<Rightarrow>
                         if \<not> cont_byte b2 then (rune_error, 1)
                         else if sz = 3
                           then ((byte b0 mod 16) * 4096 + (byte b1 mod 64) * 64 + byte b2 mod 64, 3)
                         else (case bs2 of
                                 [] \<Rightarrow> (rune_error, 1)
                               | b3 # _ \<Rightarrow>
                                   if \<not> cont_byte b3 then (rune_error, 1)
                                   else ((byte b0 mod 8) * 262144 + (byte b1 mod 64) * 4096
                                         + (byte b2 mod 64) * 64 + byte b3 mod 64, 4)))))"

lemma decode_rune_size:
  "s \<noteq> [] \<Longrightarrow> 0 < snd (decode_rune s)"
  "snd (decode_rune s) \<le> length s"
  by (cases s; simp add: Let_def split: option.splits prod.splits list.splits)+

lemma decode_rune_ascii [simp]: "byte c < 0x80 \<Longrightarrow> decode_rune (c # s) = (byte c, 1)"
  by simp

text \<open>What \<open>for i, r := range s\<close> visits: each rune with its own bytes.\<close>

function runes :: "string \<Rightarrow> (nat \<times> string) list" where
  "runes s = (if s = [] then []
     else (fst (decode_rune s), take (snd (decode_rune s)) s) # runes (drop (snd (decode_rune s)) s))"
  by pat_completeness auto
termination
  by (relation "measure length") (auto simp: decode_rune_size(1))

declare runes.simps [simp del]

lemma runes_Nil [simp]: "runes [] = []"
  by (subst runes.simps) simp

lemma runes_ascii [simp]: "byte c < 0x80 \<Longrightarrow> runes (c # s) = (byte c, [c]) # runes s"
  by (subst runes.simps) simp

lemma concat_runes [simp]: "concat (map snd (runes s)) = s"
proof (induction s rule: runes.induct)
  case (1 s)
  then show ?case by (subst runes.simps) (auto simp del: decode_rune.simps)
qed

lemma runes_step:
  "s \<noteq> [] \<Longrightarrow> runes s =
     (fst (decode_rune s), take (snd (decode_rune s)) s) # runes (drop (snd (decode_rune s)) s)"
  by (subst runes.simps) simp

lemma runes_eq_Nil [simp]: "runes s = [] \<longleftrightarrow> s = []"
  by (subst runes.simps) simp

lemma decode_rune_take:
  "snd (decode_rune s) \<le> m \<Longrightarrow> 0 < m \<Longrightarrow> decode_rune (take m s) = decode_rune s"
  by (cases s; cases m) (auto simp: take_Cons' split: option.splits list.splits if_splits)

text \<open>
  Decoding is stable under cutting at rune boundaries: a block of consecutive runes, taken out of
  a string, decodes to the same runes.
\<close>

lemma runes_append:
  assumes "runes s = xs @ ys"
  shows "runes (concat (map snd xs)) = xs \<and> runes (concat (map snd ys)) = ys"
  using assms
proof (induction xs arbitrary: s)
  case Nil
  then show ?case by (metis append_Nil concat.simps(1) concat_runes list.simps(8) runes_Nil)
next
  case (Cons x xs)
  let ?n = "snd (decode_rune s)"
  from Cons.prems have ne: "s \<noteq> []" by auto
  from Cons.prems runes_step [OF ne] have x: "x = (fst (decode_rune s), take ?n s)"
    and rest: "runes (drop ?n s) = xs @ ys" by auto
  from Cons.IH [OF rest] have IH: "runes (concat (map snd xs)) = xs" "runes (concat (map snd ys)) = ys"
    by auto
  have n: "0 < ?n" "?n \<le> length s" using decode_rune_size ne by auto
  have "drop ?n s = concat (map snd xs) @ concat (map snd ys)"
    using arg_cong [OF rest, of "\<lambda>r. concat (map snd r)"] by simp
  then have s: "s = take ?n s @ concat (map snd xs) @ concat (map snd ys)"
    by (metis append_take_drop_id)
  let ?t = "take ?n s @ concat (map snd xs)"
  from s have "s = ?t @ concat (map snd ys)" by simp
  then have t: "take (length ?t) s = ?t" by (metis append_eq_conv_conj)
  have "decode_rune (take (length ?t) s) = decode_rune s"
    by (rule decode_rune_take) (use n in auto)
  then have dec: "decode_rune ?t = decode_rune s" unfolding t .
  have "?t \<noteq> []" using n ne by auto
  from runes_step [OF this] have "runes ?t = x # xs"
    unfolding dec using n IH x by simp
  then show ?case using x IH by simp
qed

definition ascii :: "string \<Rightarrow> bool" where
  "ascii s \<longleftrightarrow> (\<forall>c \<in> set s. byte c < 0x80)"

lemma ascii_simps [simp]:
  "ascii []" "ascii (c # s) \<longleftrightarrow> byte c < 0x80 \<and> ascii s" "ascii (s @ t) \<longleftrightarrow> ascii s \<and> ascii t"
  by (auto simp: ascii_def)

lemma runes_of_ascii: "ascii s \<Longrightarrow> runes s = map (\<lambda>c. (byte c, [c])) s"
  by (induction s) auto

text \<open>\<open>utf8.AppendRune\<close>, used by \<open>strings.Builder.WriteRune\<close> and \<open>strings.Map\<close>.\<close>

definition encode_rune :: "nat \<Rightarrow> string" where
  "encode_rune r =
     (let r = (if 0x10FFFF < r \<or> (0xD800 \<le> r \<and> r \<le> 0xDFFF) then rune_error else r)
      in if r < 0x80 then [char_of r]
         else if r < 0x800 then [char_of (0xC0 + r div 64), char_of (0x80 + r mod 64)]
         else if r < 0x10000
           then [char_of (0xE0 + r div 4096), char_of (0x80 + r div 64 mod 64), char_of (0x80 + r mod 64)]
         else [char_of (0xF0 + r div 262144), char_of (0x80 + r div 4096 mod 64),
               char_of (0x80 + r div 64 mod 64), char_of (0x80 + r mod 64)])"

section \<open>Character classes\<close>

text \<open>The letter, digit and lower-case tables of package \<open>unicode\<close> for runes from 128 on.\<close>

record unicode =
  uni_letter :: "nat \<Rightarrow> bool"
  uni_digit :: "nat \<Rightarrow> bool"
  uni_lower :: "nat \<Rightarrow> nat"

definition is_letter :: "unicode \<Rightarrow> nat \<Rightarrow> bool" where
  "is_letter U r \<longleftrightarrow>
     (if r < 0x80 then (65 \<le> r \<and> r \<le> 90) \<or> (97 \<le> r \<and> r \<le> 122) else uni_letter U r)"

definition is_digit :: "unicode \<Rightarrow> nat \<Rightarrow> bool" where
  "is_digit U r \<longleftrightarrow> (if r < 0x80 then 48 \<le> r \<and> r \<le> 57 else uni_digit U r)"

definition to_lower_rune :: "unicode \<Rightarrow> nat \<Rightarrow> nat" where
  "to_lower_rune U r = (if r < 0x80 then (if 65 \<le> r \<and> r \<le> 90 then r + 32 else r) else uni_lower U r)"

text \<open>\<open>unicode.IsSpace\<close>, the White\_Space property in full.\<close>

definition is_space :: "nat \<Rightarrow> bool" where
  "is_space r \<longleftrightarrow> (9 \<le> r \<and> r \<le> 13) \<or> r = 32 \<or> r = 0x85 \<or> r = 0xA0 \<or> r = 0x1680
     \<or> (0x2000 \<le> r \<and> r \<le> 0x200A) \<or> r = 0x2028 \<or> r = 0x2029 \<or> r = 0x202F \<or> r = 0x205F \<or> r = 0x3000"

text \<open>\<open>strings.ToLower\<close>; an invalid byte becomes U+FFFD, as in \<open>strings.Map\<close>.\<close>

definition to_lower :: "unicode \<Rightarrow> string \<Rightarrow> string" where
  "to_lower U s = concat (map (\<lambda>(r, b). encode_rune (to_lower_rune U r)) (runes s))"

section \<open>The strings package\<close>

text \<open>
  \<open>strings.TrimSpace\<close>. Go trims the right end with a backward decoder; UTF-8 is
  self-synchronising, so it removes the same trailing white-space runes as the forward one.
\<close>

definition space_rune :: "nat \<times> string \<Rightarrow> bool" where
  "space_rune rb \<longleftrightarrow> is_space (fst rb)"

definition trim_space :: "string \<Rightarrow> string" where
  "trim_space s =
     concat (map snd (rev (dropWhile space_rune (rev (dropWhile space_rune (runes s))))))"

lemma trim_space_runes:
  "runes (trim_space s) = rev (dropWhile space_rune (rev (dropWhile space_rune (runes s))))"
proof -
  let ?l = "dropWhile space_rune (runes s)"
  have "runes s = takeWhile space_rune (runes s) @ ?l" by simp
  then have l: "runes (concat (map snd ?l)) = ?l" by (rule runes_append [THEN conjunct2])
  let ?r = "rev (dropWhile space_rune (rev ?l))"
  have "?l = ?r @ rev (takeWhile space_rune (rev ?l))"
    by (metis rev_append rev_rev_ident takeWhile_dropWhile_id)
  with l have "runes (concat (map snd ?l)) = ?r @ rev (takeWhile space_rune (rev ?l))" by metis
  then show ?thesis unfolding trim_space_def by (rule runes_append [THEN conjunct1])
qed

lemma dropWhile_rev_dropWhile:
  "dropWhile P (rev (dropWhile P (rev (dropWhile P xs)))) = rev (dropWhile P (rev (dropWhile P xs)))"
proof -
  let ?l = "dropWhile P xs"
  let ?r = "rev (dropWhile P (rev ?l))"
  have "?l = ?r @ rev (takeWhile P (rev ?l))"
    by (metis rev_append rev_rev_ident takeWhile_dropWhile_id)
  then show ?thesis
    by (cases ?r) (auto dest: dropWhile_hd simp del: dropWhile_eq_Nil_conv)
qed

lemma trim_space_idem [simp]: "trim_space (trim_space s) = trim_space s"
  unfolding trim_space_def [of "trim_space s"] trim_space_runes
  by (simp add: dropWhile_rev_dropWhile dropWhile_idem trim_space_def)

lemma trim_space_Nil [simp]: "trim_space [] = []"
  by (simp add: trim_space_def)

text \<open>Trimming removes white space at the two ends and nothing else.\<close>

definition all_space :: "string \<Rightarrow> bool" where
  "all_space s \<longleftrightarrow> (\<forall>rb \<in> set (runes s). space_rune rb)"

lemma trim_space_split:
  obtains p q where "s = p @ trim_space s @ q" "all_space p" "all_space q"
proof -
  let ?l = "dropWhile space_rune (runes s)"
  let ?r = "rev (dropWhile space_rune (rev ?l))"
  let ?p = "takeWhile space_rune (runes s)" and ?q = "rev (takeWhile space_rune (rev ?l))"
  have l: "?l = ?r @ ?q" by (metis rev_append rev_rev_ident takeWhile_dropWhile_id)
  then have e: "runes s = ?p @ ?r @ ?q" by (metis takeWhile_dropWhile_id)
  then have "s = concat (map snd ?p) @ trim_space s @ concat (map snd ?q)"
    unfolding trim_space_def by (metis concat_append concat_runes map_append)
  moreover have "runes (concat (map snd ?p)) = ?p" using e by (blast dest: runes_append)
  moreover have "runes (concat (map snd ?q)) = ?q"
    using e [unfolded append_assoc [symmetric]] by (blast dest: runes_append)
  ultimately show ?thesis
    by (intro that [of "concat (map snd ?p)" "concat (map snd ?q)"])
      (auto simp: all_space_def dest: set_takeWhileD)
qed

lemma dropWhile_all_dropWhile: "(\<forall>x \<in> set (dropWhile P xs). P x) \<longleftrightarrow> (\<forall>x \<in> set xs. P x)"
  by (induction xs) auto

lemma trim_space_eq_Nil: "trim_space s = [] \<longleftrightarrow> all_space s"
proof -
  have "trim_space s = [] \<longleftrightarrow> runes (trim_space s) = []" by simp
  also have "\<dots> \<longleftrightarrow> (\<forall>rb \<in> set (runes s). space_rune rb)"
    unfolding trim_space_runes
    by (simp add: dropWhile_all_dropWhile del: runes_eq_Nil)
  finally show ?thesis by (simp add: all_space_def)
qed

text \<open>\<open>strings.Trim\<close> with an ASCII cutset.\<close>

definition trim_set :: "string \<Rightarrow> string \<Rightarrow> string" where
  "trim_set cs s =
     rev (dropWhile (\<lambda>c. c \<in> set cs) (rev (dropWhile (\<lambda>c. c \<in> set cs) s)))"

fun fields_go :: "string \<Rightarrow> (nat \<times> string) list \<Rightarrow> string list" where
  "fields_go acc [] = (if acc = [] then [] else [acc])"
| "fields_go acc ((r, b) # rs) =
     (if is_space r then (if acc = [] then fields_go [] rs else acc # fields_go [] rs)
      else fields_go (acc @ b) rs)"

text \<open>\<open>strings.Fields\<close>.\<close>

definition fields :: "string \<Rightarrow> string list" where
  "fields s = fields_go [] (runes s)"

text \<open>\<open>strings.Split\<close> and \<open>strings.Cut\<close> with a one-byte separator.\<close>

fun split_on :: "char \<Rightarrow> string \<Rightarrow> string list" where
  "split_on c [] = [[]]"
| "split_on c (x # xs) =
     (if x = c then [] # split_on c xs
      else (case split_on c xs of [] \<Rightarrow> [[x]] | y # ys \<Rightarrow> (x # y) # ys))"

definition cut_before :: "char \<Rightarrow> string \<Rightarrow> string" where
  "cut_before c s = takeWhile (\<lambda>x. x \<noteq> c) s"

definition cut_after :: "char \<Rightarrow> string \<Rightarrow> string" where
  "cut_after c s = drop 1 (dropWhile (\<lambda>x. x \<noteq> c) s)"

fun join :: "string \<Rightarrow> string list \<Rightarrow> string" where
  "join sep [] = []"
| "join sep [x] = x"
| "join sep (x # y # xs) = x @ sep @ join sep (y # xs)"

definition trim_suffix :: "string \<Rightarrow> string \<Rightarrow> string" where
  "trim_suffix s suf = (if suffix suf s then take (length s - length suf) s else s)"

text \<open>\<open>strings.ReplaceAll\<close> of one byte.\<close>

definition replace_all :: "char \<Rightarrow> string \<Rightarrow> string \<Rightarrow> string" where
  "replace_all c new s = concat (map (\<lambda>x. if x = c then new else [x]) s)"

text \<open>Decimal rendering, as \<open>%d\<close> and \<open>strconv.FormatInt\<close> print it.\<close>

definition digit_char :: "nat \<Rightarrow> char" where
  "digit_char d = char_of (48 + d)"

fun show_nat :: "nat \<Rightarrow> string" where
  "show_nat n = (if n < 10 then [digit_char n] else show_nat (n div 10) @ [digit_char (n mod 10)])"

declare show_nat.simps [simp del]

definition show_int :: "int \<Rightarrow> string" where
  "show_int i = (if i < 0 then ''-'' @ show_nat (nat (- i)) else show_nat (nat i))"

declare rune_error_def [go_eval] accept_range_def [go_eval] cont_byte_def [go_eval]
declare is_letter_def [go_eval] is_digit_def [go_eval] to_lower_rune_def [go_eval]
declare is_space_def [go_eval] space_rune_def [go_eval] trim_space_def [go_eval]
declare fields_def [go_eval] trim_set_def [go_eval] to_lower_def [go_eval] encode_rune_def [go_eval]
declare cut_before_def [go_eval] cut_after_def [go_eval] trim_suffix_def [go_eval]
declare replace_all_def [go_eval] digit_char_def [go_eval] show_nat.simps [go_eval] show_int_def [go_eval]

end
