(* ===== verification/Go_Errors.thy ===== *)
theory Go_Errors
  imports Go_Strings
begin

text \<open>
  Go error values. A sentinel is a package-level \<open>errors.New\<close>; \<open>Extern\<close> is an error that
  arrives from code outside the repository (the driver, the file system) with its text;
  \<open>Errorf\<close> is \<open>fmt.Errorf\<close>, its format string cut into literal text, formatted arguments and
  wrapped (\<open>%w\<close>) errors; \<open>Joined\<close> is \<open>errors.Join\<close>. \<open>error_is\<close> is \<open>errors.Is\<close> against
  a sentinel and \<open>error_string\<close> the \<open>Error\<close> method.
\<close>

section \<open>Sentinels of internal/migrator/errors.go and internal/db/errors.go\<close>

datatype sentinel =
    ErrDivergence | ErrInterleaved | ErrFailedMigrations | ErrEmptySource | ErrUnrecorded
  | ErrIrreversible | ErrAlreadyRecorded | ErrBaselineNotFound | ErrNoPinnedConn
  | ErrPoolTooSmall | ErrLockAlreadyAcquired | ErrLockNotAcquired | ErrLockTimeout | ErrLockNotHeld

fun sentinel_text :: "sentinel \<Rightarrow> string" where
  "sentinel_text ErrDivergence =
     ''divergence detected: database has migrations applied that are not present in files''"
| "sentinel_text ErrInterleaved =
     ''interleaved migrations detected: files contain migrations lexicographically smaller than the latest applied migration''"
| "sentinel_text ErrFailedMigrations = ''database contains failed migrations''"
| "sentinel_text ErrEmptySource = ''migration source is empty''"
| "sentinel_text ErrUnrecorded =
     ''schema was changed but the bookkeeping row could not be updated to match''"
| "sentinel_text ErrIrreversible = ''migration is marked irreversible and cannot be rolled back''"
| "sentinel_text ErrAlreadyRecorded = ''the bookkeeping table already records migrations''"
| "sentinel_text ErrBaselineNotFound = ''no migration with that ID exists in the source''"
| "sentinel_text ErrNoPinnedConn = ''no dedicated connection''"
| "sentinel_text ErrPoolTooSmall =
     ''sql.DB allows only 1 open connection: the advisory lock pins a dedicated connection for the whole migration run, so at least 2 concurrent connections are required (call SetMaxOpenConns(0) or >= 2)''"
| "sentinel_text ErrLockAlreadyAcquired = ''lock already acquired''"
| "sentinel_text ErrLockNotAcquired = ''lock not acquired''"
| "sentinel_text ErrLockTimeout = ''timed out waiting for the migration advisory lock''"
| "sentinel_text ErrLockNotHeld = ''advisory lock was not held at release time''"

section \<open>Error values\<close>

datatype goerr =
    Sent sentinel
  | Extern string
  | Errorf "piece list"
  | Joined "goerr list"
and piece =
    Lit string      \<comment> \<open>literal text and \<open>%s\<close> arguments\<close>
  | Num int         \<comment> \<open>a \<open>%d\<close> argument\<close>
  | Quo string      \<comment> \<open>a \<open>%q\<close> argument\<close>
  | Wrap goerr      \<comment> \<open>a \<open>%w\<close> argument\<close>

type_synonym 'a result = "goerr + 'a"

fun error_is :: "goerr \<Rightarrow> sentinel \<Rightarrow> bool"
  and pieces_are :: "piece list \<Rightarrow> sentinel \<Rightarrow> bool"
  and errors_are :: "goerr list \<Rightarrow> sentinel \<Rightarrow> bool" where
  "error_is (Sent t) s = (t = s)"
| "error_is (Extern m) s = False"
| "error_is (Errorf ps) s = pieces_are ps s"
| "error_is (Joined es) s = errors_are es s"
| "pieces_are [] s = False"
| "pieces_are (Wrap e # ps) s = (error_is e s \<or> pieces_are ps s)"
| "pieces_are (_ # ps) s = pieces_are ps s"
| "errors_are [] s = False"
| "errors_are (e # es) s = (error_is e s \<or> errors_are es s)"

text \<open>
  \<open>%q\<close>: \<open>strconv.Quote\<close> for text that is printable outside ASCII; the control characters are
  escaped as Go escapes them.
\<close>

definition hex_digit :: "nat \<Rightarrow> char" where
  "hex_digit d = (if d < 10 then char_of (48 + d) else char_of (87 + d))"

definition quote_char :: "char \<Rightarrow> string" where
  "quote_char c =
     (if c = DQ then [BSL, DQ] else if c = BSL then [BSL, BSL]
      else if byte c = 7 then [BSL, CHR ''a''] else if byte c = 8 then [BSL, CHR ''b'']
      else if byte c = 12 then [BSL, CHR ''f''] else if byte c = 10 then [BSL, CHR ''n'']
      else if byte c = 13 then [BSL, CHR ''r''] else if byte c = 9 then [BSL, CHR ''t'']
      else if byte c = 11 then [BSL, CHR ''v'']
      else if byte c < 32 \<or> byte c = 127
        then [BSL, CHR ''x'', hex_digit (byte c div 16), hex_digit (byte c mod 16)]
      else [c])"

definition go_quote :: "string \<Rightarrow> string" where
  "go_quote s = [DQ] @ concat (map quote_char s) @ [DQ]"

fun error_string :: "goerr \<Rightarrow> string"
  and piece_strings :: "piece list \<Rightarrow> string"
  and error_strings :: "goerr list \<Rightarrow> string list" where
  "error_string (Sent t) = sentinel_text t"
| "error_string (Extern m) = m"
| "error_string (Errorf ps) = piece_strings ps"
| "error_string (Joined es) = join [NL] (error_strings es)"
| "piece_strings [] = []"
| "piece_strings (Lit s # ps) = s @ piece_strings ps"
| "piece_strings (Num i # ps) = show_int i @ piece_strings ps"
| "piece_strings (Quo s # ps) = go_quote s @ piece_strings ps"
| "piece_strings (Wrap e # ps) = error_string e @ piece_strings ps"
| "error_strings [] = []"
| "error_strings (e # es) = error_string e # error_strings es"

text \<open>\<open>fmt.Errorf("text: %w", err)\<close> and \<open>fmt.Errorf("%w: text", err)\<close>, the two common shapes.\<close>

abbreviation wrapf :: "piece list \<Rightarrow> goerr \<Rightarrow> goerr" where
  "wrapf ps e \<equiv> Errorf (ps @ [Wrap e])"

lemma pieces_are_append [simp]: "pieces_are (ps @ qs) s \<longleftrightarrow> pieces_are ps s \<or> pieces_are qs s"
  by (induction ps s rule: error_is_pieces_are_errors_are.induct(2) [where P = "\<lambda>_ _. True" and R = "\<lambda>_ _. True"])
    auto

lemma pieces_are_iff: "pieces_are ps s \<longleftrightarrow> (\<exists>e. Wrap e \<in> set ps \<and> error_is e s)"
proof (induction ps)
  case (Cons p ps)
  then show ?case by (cases p) auto
qed simp

section \<open>Results\<close>

fun is_ok :: "'a result \<Rightarrow> bool" where
  "is_ok (Inl _) = False"
| "is_ok (Inr _) = True"

end
