(* ===== verification/Go_IO.thy ===== *)
theory Go_IO
  imports Go_Errors
begin

text \<open>
  Go functions with effects and an error result: a function of the state that returns the state and
  an error or a value. \<open>go_try\<close> is the idiom
  \<open>x, err := m; if err != nil { return fmt.Errorf("...: %w", err) }\<close>, \<open>go_defer\<close> is
  \<open>defer\<close>. \<open>wp\<close> is the weakest precondition of a function for two postconditions, one for
  values and one for errors; the rules in \<open>wp\<close> compute it.
\<close>

type_synonym ('w, 'a) io = "'w \<Rightarrow> 'w \<times> 'a result"

definition ret :: "'a \<Rightarrow> ('w, 'a) io" where
  "ret a = (\<lambda>w. (w, Inr a))"

definition fail :: "goerr \<Rightarrow> ('w, 'a) io" where
  "fail e = (\<lambda>w. (w, Inl e))"

definition io_handle :: "('w, 'a) io \<Rightarrow> (goerr \<Rightarrow> ('w, 'b) io) \<Rightarrow> ('a \<Rightarrow> ('w, 'b) io) \<Rightarrow> ('w, 'b) io" where
  "io_handle m h k = (\<lambda>w. case m w of (w', Inl e) \<Rightarrow> h e w' | (w', Inr a) \<Rightarrow> k a w')"

definition go_bind :: "('w, 'a) io \<Rightarrow> ('a \<Rightarrow> ('w, 'b) io) \<Rightarrow> ('w, 'b) io" where
  "go_bind m k = io_handle m fail k"

definition go_try :: "('w, 'a) io \<Rightarrow> piece list \<Rightarrow> ('a \<Rightarrow> ('w, 'b) io) \<Rightarrow> ('w, 'b) io" where
  "go_try m ps k = io_handle m (\<lambda>e. fail (wrapf ps e)) k"

definition go_defer :: "('w \<Rightarrow> 'w) \<Rightarrow> ('w, 'a) io \<Rightarrow> ('w, 'a) io" where
  "go_defer d m = (\<lambda>w. case m w of (w', r) \<Rightarrow> (d w', r))"

definition of_result :: "'a result \<Rightarrow> ('w, 'a) io" where
  "of_result r = (\<lambda>w. (w, r))"

text \<open>
  A closure's captured variable is a second component of the state: \<open>on_state\<close> runs a function that
  does not see it, \<open>modify\<close> assigns.
\<close>

definition on_state :: "('w, 'a) io \<Rightarrow> ('w \<times> 'r, 'a) io" where
  "on_state m = (\<lambda>(w, r). case m w of (w', x) \<Rightarrow> ((w', r), x))"

definition modify :: "('w \<Rightarrow> 'w) \<Rightarrow> ('w, unit) io" where
  "modify f = (\<lambda>w. (f w, Inr ()))"

definition err_of :: "'a result \<Rightarrow> goerr option" where
  "err_of r = (case r of Inl e \<Rightarrow> Some e | Inr _ \<Rightarrow> None)"

declare on_state_def [go_eval] modify_def [go_eval] err_of_def [go_eval]
declare ret_def [go_eval] fail_def [go_eval] io_handle_def [go_eval] go_bind_def [go_eval] go_try_def [go_eval]
declare go_defer_def [go_eval] of_result_def [go_eval]

section \<open>Weakest preconditions\<close>

definition wp :: "('w, 'a) io \<Rightarrow> ('a \<Rightarrow> 'w \<Rightarrow> bool) \<Rightarrow> (goerr \<Rightarrow> 'w \<Rightarrow> bool) \<Rightarrow> 'w \<Rightarrow> bool" where
  "wp m Q E w = (case m w of (w', Inl e) \<Rightarrow> E e w' | (w', Inr a) \<Rightarrow> Q a w')"

named_theorems wp_simps

lemma wp_ret [wp_simps]: "wp (ret a) Q E = Q a"
  by (simp add: wp_def ret_def fun_eq_iff)

lemma wp_fail [wp_simps]: "wp (fail e) Q E = E e"
  by (simp add: wp_def fail_def fun_eq_iff)

lemma wp_of_result [wp_simps]:
  "wp (of_result r) Q E w = (case r of Inl e \<Rightarrow> E e w | Inr a \<Rightarrow> Q a w)"
  by (simp add: wp_def of_result_def)

lemma wp_io_handle [wp_simps]:
  "wp (io_handle m h k) Q E = wp m (\<lambda>a. wp (k a) Q E) (\<lambda>e. wp (h e) Q E)"
  by (simp add: wp_def io_handle_def fun_eq_iff split: prod.split sum.split)

lemma wp_go_bind [wp_simps]: "wp (go_bind m k) Q E = wp m (\<lambda>a. wp (k a) Q E) E"
  by (simp add: go_bind_def wp_simps)

lemma wp_go_try [wp_simps]:
  "wp (go_try m ps k) Q E = wp m (\<lambda>a. wp (k a) Q E) (\<lambda>e. E (wrapf ps e))"
  by (simp add: go_try_def wp_simps)

lemma wp_go_defer [wp_simps]:
  "wp (go_defer d m) Q E = wp m (\<lambda>a w. Q a (d w)) (\<lambda>e w. E e (d w))"
  by (simp add: wp_def go_defer_def fun_eq_iff split: prod.split sum.split)

lemma wp_on_state [wp_simps]:
  "wp (on_state m) Q E (w, r) = wp m (\<lambda>a w'. Q a (w', r)) (\<lambda>e w'. E e (w', r)) w"
  by (simp add: wp_def on_state_def split: prod.split sum.split)

lemma wp_modify [wp_simps]: "wp (modify f) Q E w = Q () (f w)"
  by (simp add: wp_def modify_def)

lemma wp_mono:
  "wp m Q E w \<Longrightarrow> (\<And>a w'. Q a w' \<Longrightarrow> Q' a w') \<Longrightarrow> (\<And>e w'. E e w' \<Longrightarrow> E' e w') \<Longrightarrow> wp m Q' E' w"
  by (auto simp: wp_def split: prod.splits sum.splits)

lemma wp_conj:
  "wp m Q E w \<Longrightarrow> wp m Q' E' w \<Longrightarrow> wp m (\<lambda>a w. Q a w \<and> Q' a w) (\<lambda>e w. E e w \<and> E' e w) w"
  by (auto simp: wp_def split: prod.splits sum.splits)

lemma wp_Inr: "wp m Q E w \<Longrightarrow> m w = (w', Inr a) \<Longrightarrow> Q a w'"
  by (simp add: wp_def)

lemma wp_Inl: "wp m Q E w \<Longrightarrow> m w = (w', Inl e) \<Longrightarrow> E e w'"
  by (simp add: wp_def)

lemma wpI: "(\<And>w' a. m w = (w', Inr a) \<Longrightarrow> Q a w') \<Longrightarrow> (\<And>w' e. m w = (w', Inl e) \<Longrightarrow> E e w') \<Longrightarrow> wp m Q E w"
  by (auto simp: wp_def split: prod.splits sum.splits)

lemma wp_True: "wp m (\<lambda>_ _. True) (\<lambda>_ _. True) w"
  by (auto simp: wp_def split: prod.splits sum.splits)

text \<open>An operation that leaves an observation of the state alone, whatever it answers.\<close>

definition preserves :: "('w \<Rightarrow> 'v) \<Rightarrow> ('w, 'a) io \<Rightarrow> bool" where
  "preserves f m \<longleftrightarrow> (\<forall>w w' r. m w = (w', r) \<longrightarrow> f w' = f w)"

lemma preserves_iff: "preserves f m \<longleftrightarrow> (\<forall>w. wp m (\<lambda>_ w'. f w' = f w) (\<lambda>_ w'. f w' = f w) w)"
  unfolding preserves_def wp_def by (auto split: prod.split sum.split)

lemma preserves_wp: "preserves f m \<Longrightarrow> f w = v \<Longrightarrow> wp m (\<lambda>_ w'. f w' = v) (\<lambda>_ w'. f w' = v) w"
  by (auto simp: preserves_iff)

end
