(* ===== verification/Planner.thy ===== *)
theory Planner
  imports Prelude
begin

text \<open>
  \<open>internal/migrator/types.go\<close> and \<open>planner.go\<close>: migrations, and the plan that set difference makes of
  the migrations in the files and the ones in the database. A Go map keyed by ID is a partial map
  that the loop fills, later entries replacing earlier ones. Times are the server clock's readings.
\<close>

record migration =
  mig_applied_at :: int
  mig_id :: string
  mig_up_script :: string
  mig_down_script :: string

record migration_plan =
  to_rollback :: "migration list"
  to_apply :: "migration list"
  plan_interleaved :: "migration list"

type_synonym id_map = "string \<rightharpoonup> migration"

definition id_map :: "migration list \<Rightarrow> id_map" where
  "id_map ms = fold (\<lambda>m M. M(mig_id m \<mapsto> m)) ms Map.empty"

text \<open>The loop that computes \<open>maxAppliedID\<close>; the initial \<open>''''\<close> is Go's zero value.\<close>

fun max_applied_loop :: "bool \<Rightarrow> id_map \<Rightarrow> string \<Rightarrow> migration list \<Rightarrow> string" where
  "max_applied_loop rollback_extras files_map mx [] = mx"
| "max_applied_loop rollback_extras files_map mx (m # ms) =
     (if rollback_extras \<and> files_map (mig_id m) = None then
        max_applied_loop rollback_extras files_map mx ms
      else max_applied_loop rollback_extras files_map (if mx < mig_id m then mig_id m else mx) ms)"

text \<open>The loop over the files, which fills \<open>ToApply\<close> and \<open>Interleaved\<close>.\<close>

fun apply_loop :: "id_map \<Rightarrow> string \<Rightarrow> migration list \<Rightarrow> migration_plan \<Rightarrow> migration_plan" where
  "apply_loop db_map mx [] plan = plan"
| "apply_loop db_map mx (f # fs) plan =
     apply_loop db_map mx fs
       (if db_map (mig_id f) = None then
          (let plan = plan\<lparr>to_apply := to_apply plan @ [f]\<rparr>
           in if mx \<noteq> [] \<and> mig_id f < mx then plan\<lparr>plan_interleaved := plan_interleaved plan @ [f]\<rparr> else plan)
        else plan)"

definition build_plan :: "migration list \<Rightarrow> migration list \<Rightarrow> bool \<Rightarrow> migration_plan" where
  "build_plan from_files from_db rollback_extras =
     (let files_map = id_map from_files; db_map = id_map from_db;
          max_applied_id = max_applied_loop rollback_extras files_map [] from_db;
          plan = \<lparr>to_rollback = filter (\<lambda>m. files_map (mig_id m) = None) (rev from_db),
                  to_apply = [], plan_interleaved = []\<rparr>
      in apply_loop db_map max_applied_id from_files plan)"

section \<open>What a plan is\<close>

abbreviation ids :: "migration list \<Rightarrow> string list" where
  "ids ms \<equiv> map mig_id ms"

lemma fold_id_map_None:
  "fold (\<lambda>m M. M(mig_id m \<mapsto> m)) ms M k = None \<longleftrightarrow> k \<notin> set (ids ms) \<and> M k = None"
  by (induction ms arbitrary: M) auto

lemma id_map_None [simp]: "id_map ms k = None \<longleftrightarrow> k \<notin> set (ids ms)"
  by (simp add: id_map_def fold_id_map_None)

lemma fold_id_map_other:
  "k \<notin> set (ids ms) \<Longrightarrow> fold (\<lambda>m M. M(mig_id m \<mapsto> m)) ms M k = M k"
  by (induction ms arbitrary: M) auto

lemma fold_id_map_distinct:
  "distinct (ids ms) \<Longrightarrow> m \<in> set ms \<Longrightarrow> fold (\<lambda>m M. M(mig_id m \<mapsto> m)) ms M (mig_id m) = Some m"
  by (induction ms arbitrary: M) (auto simp: fold_id_map_other simp del: fun_upd_apply, simp)

lemma id_map_Some: "distinct (ids ms) \<Longrightarrow> m \<in> set ms \<Longrightarrow> id_map ms (mig_id m) = Some m"
  by (simp add: id_map_def fold_id_map_distinct)

lemma fold_id_map_in: "fold (\<lambda>m M. M(mig_id m \<mapsto> m)) ms M k = Some m \<Longrightarrow> M k \<noteq> Some m
    \<Longrightarrow> m \<in> set ms \<and> mig_id m = k"
  by (induction ms arbitrary: M) (force split: if_splits)+

lemma id_map_in: "id_map ms k = Some m \<Longrightarrow> m \<in> set ms \<and> mig_id m = k"
  by (auto simp: id_map_def dest: fold_id_map_in)

definition kept_applied :: "bool \<Rightarrow> migration list \<Rightarrow> migration list \<Rightarrow> string list" where
  "kept_applied rollback_extras from_files from_db =
     filter (\<lambda>k. rollback_extras \<longrightarrow> k \<in> set (ids from_files)) (ids from_db)"

lemma kept_applied_simps [simp]:
  "kept_applied r fs [] = []"
  "kept_applied r fs (m # db) =
     (if r \<and> mig_id m \<notin> set (ids fs) then kept_applied r fs db else mig_id m # kept_applied r fs db)"
  by (auto simp: kept_applied_def)

lemma max_applied_less:
  "k < max_applied_loop r (id_map fs) mx db \<longleftrightarrow> k < mx \<or> (\<exists>d \<in> set (kept_applied r fs db). k < d)"
  by (induction db arbitrary: mx) auto

lemma apply_loop_eq:
  "apply_loop db_map mx fs plan =
     plan\<lparr>to_apply := to_apply plan @ filter (\<lambda>f. db_map (mig_id f) = None) fs,
          plan_interleaved := plan_interleaved plan @ filter (\<lambda>f. db_map (mig_id f) = None \<and> mig_id f < mx) fs\<rparr>"
  by (induction fs arbitrary: plan) (auto simp: Let_def)

text \<open>
  The plan as set differences: what the database has beyond the files, last applied first; what the
  files have beyond the database, in file order; and of those the ones that sort before a migration
  that stays applied.
\<close>

lemma build_plan_eq:
  "build_plan files db r =
     \<lparr>to_rollback = filter (\<lambda>m. mig_id m \<notin> set (ids files)) (rev db),
      to_apply = filter (\<lambda>m. mig_id m \<notin> set (ids db)) files,
      plan_interleaved =
        filter (\<lambda>m. mig_id m \<notin> set (ids db) \<and> (\<exists>d \<in> set (kept_applied r files db). mig_id m < d)) files\<rparr>"
proof -
  have "\<not> k < ([] :: string)" for k :: string by simp
  then show ?thesis
    by (simp add: build_plan_def Let_def apply_loop_eq max_applied_less)
qed

lemmas build_plan_simps = build_plan_eq [THEN arg_cong, of to_rollback]
  build_plan_eq [THEN arg_cong, of to_apply] build_plan_eq [THEN arg_cong, of plan_interleaved]

lemma to_rollback_eq [simp]:
  "to_rollback (build_plan files db r) = filter (\<lambda>m. mig_id m \<notin> set (ids files)) (rev db)"
  by (simp add: build_plan_eq)

lemma to_apply_eq [simp]:
  "to_apply (build_plan files db r) = filter (\<lambda>m. mig_id m \<notin> set (ids db)) files"
  by (simp add: build_plan_eq)

lemma plan_interleaved_eq [simp]:
  "plan_interleaved (build_plan files db r) =
     filter (\<lambda>m. mig_id m \<notin> set (ids db) \<and> (\<exists>d \<in> set (kept_applied r files db). mig_id m < d)) files"
  by (simp add: build_plan_eq)

end
