(* ===== verification/Table_Ref.thy ===== *)
theory Table_Ref
  imports Go_Errors
begin

text \<open>
  \<open>internal/migrator/table.go\<close>: the name of the bookkeeping table, validated and quoted so that it can
  be interpolated into a statement.
\<close>

definition default_table_name :: string where "default_table_name = ''migrations''"
definition max_identifier_bytes :: nat where "max_identifier_bytes = 63"

record table_config =
  tc_schema :: string
  tc_name :: string

type_synonym table_ref = string

definition quote_identifier :: "string \<Rightarrow> string result" where
  "quote_identifier s =
     (if s = [] then Inl (Errorf [Lit ''must not be empty''])
      else if max_identifier_bytes < length s then
        Inl (Errorf [Quo s, Lit '' is '', Num (int (length s)), Lit '' bytes, over the Postgres limit of '',
               Num (int max_identifier_bytes)])
      else if CHR 0x00 \<in> set s then Inl (Errorf [Quo s, Lit '' contains a NUL byte''])
      else Inr ([DQ] @ replace_all DQ [DQ, DQ] s @ [DQ]))"

definition resolve :: "table_config \<Rightarrow> table_ref result" where
  "resolve c =
     (let name = (if tc_name c = [] then default_table_name else tc_name c)
      in case quote_identifier name of
           Inl e \<Rightarrow> Inl (wrapf [Lit ''migrations table name: ''] e)
         | Inr quoted_name \<Rightarrow>
             if tc_schema c = [] then Inr quoted_name
             else (case quote_identifier (tc_schema c) of
                     Inl e \<Rightarrow> Inl (wrapf [Lit ''migrations table schema: ''] e)
                   | Inr quoted_schema \<Rightarrow> Inr (quoted_schema @ ''.'' @ quoted_name)))"

declare default_table_name_def [go_eval] max_identifier_bytes_def [go_eval]
declare quote_identifier_def [go_eval] resolve_def [go_eval]

section \<open>Reading the reference back\<close>

text \<open>
  How a quoted identifier is read: after the opening quote, a doubled quote is a quote and a single
  one ends the identifier. \<open>read_reference\<close> reads an optionally qualified name.
\<close>

fun read_quoted :: "string \<Rightarrow> (string \<times> string) option" where
  "read_quoted [] = None"
| "read_quoted [c] = (if c = DQ then Some ([], []) else None)"
| "read_quoted (c # d # s) =
     (if c \<noteq> DQ then map_option (\<lambda>(i, r). (c # i, r)) (read_quoted (d # s))
      else if d = DQ then map_option (\<lambda>(i, r). (DQ # i, r)) (read_quoted s)
      else Some ([], d # s))"

fun read_identifier :: "string \<Rightarrow> (string \<times> string) option" where
  "read_identifier [] = None"
| "read_identifier (c # s) = (if c = DQ then read_quoted s else None)"

definition read_reference :: "string \<Rightarrow> (string list \<times> string) option" where
  "read_reference s =
     (case read_identifier s of
        None \<Rightarrow> None
      | Some (a, r) \<Rightarrow>
          (case r of
             [] \<Rightarrow> Some ([a], [])
           | c # r' \<Rightarrow>
               if c = CHR ''.'' then map_option (\<lambda>(b, q). ([a, b], q)) (read_identifier r')
               else Some ([a], r)))"

lemma read_quoted_replace:
  "r = [] \<or> hd r \<noteq> DQ \<Longrightarrow> read_quoted (replace_all DQ [DQ, DQ] s @ DQ # r) = Some (s, r)"
proof (induction s)
  case Nil
  then show ?case by (cases r) (auto simp: replace_all_def)
next
  case (Cons c s)
  have ne: "replace_all DQ [DQ, DQ] s @ DQ # r \<noteq> []" by simp
  show ?case
  proof (cases "c = DQ")
    case True
    with Cons show ?thesis by (simp add: replace_all_def)
  next
    case False
    obtain d t where dt: "replace_all DQ [DQ, DQ] s @ DQ # r = d # t"
      using ne by (cases "replace_all DQ [DQ, DQ] s @ DQ # r") auto
    have "replace_all DQ [DQ, DQ] (c # s) @ DQ # r = c # d # t"
      using False dt by (simp add: replace_all_def)
    with Cons False dt show ?thesis by simp
  qed
qed

lemma quote_identifier_Inr:
  "quote_identifier s = Inr q \<longleftrightarrow>
     s \<noteq> [] \<and> length s \<le> max_identifier_bytes \<and> CHR 0x00 \<notin> set s \<and> q = DQ # replace_all DQ [DQ, DQ] s @ [DQ]"
  by (auto simp: quote_identifier_def)

lemma read_quote_identifier:
  "quote_identifier s = Inr q \<Longrightarrow> r = [] \<or> hd r \<noteq> DQ \<Longrightarrow> read_identifier (q @ r) = Some (s, r)"
  using read_quoted_replace [of r s] by (auto simp: quote_identifier_Inr)

text \<open>
  Whatever bytes the caller puts into the names, the reference is read back as exactly those names,
  and the rest of the statement is left untouched: a name cannot break out of its quotes.
\<close>

lemma read_resolve:
  assumes "resolve c = Inr ref" "r = [] \<or> hd r \<notin> {DQ, CHR ''.''}"
  shows "read_reference (ref @ r) =
    Some ((if tc_schema c = [] then [] else [tc_schema c]) @
          [if tc_name c = [] then default_table_name else tc_name c], r)"
proof -
  let ?name = "if tc_name c = [] then default_table_name else tc_name c"
  obtain qn where qn: "quote_identifier ?name = Inr qn"
    using assms(1) by (auto simp: resolve_def Let_def split: sum.splits if_splits)
  have rn: "read_identifier (qn @ r) = Some (?name, r)"
    using read_quote_identifier [OF qn, of r] assms(2) by auto
  show ?thesis
  proof (cases "tc_schema c = []")
    case True
    then have "ref = qn" using assms(1) qn by (auto simp: resolve_def Let_def)
    then show ?thesis using True rn assms(2) by (cases r) (auto simp: read_reference_def)
  next
    case False
    then obtain qs where qs: "quote_identifier (tc_schema c) = Inr qs" and ref: "ref = qs @ ''.'' @ qn"
      using assms(1) qn by (auto simp: resolve_def Let_def split: sum.splits)
    have "read_identifier (qs @ CHR ''.'' # qn @ r) = Some (tc_schema c, CHR ''.'' # qn @ r)"
      using read_quote_identifier [OF qs] by simp
    then show ?thesis using False ref rn by (simp add: read_reference_def)
  qed
qed

end
