(* ===== verification/Sql_Database.thy ===== *)
theory Sql_Database
  imports Go_IO Planner Table_Ref
begin

text \<open>
  \<open>database/sql\<close> and the server behind it, which are not part of the repository: a record of the
  operations the code calls, over a state \<open>'w\<close> that stands for the server, the pool and the clock.
  An error of the driver is its text. The locale \<open>sql_database\<close> states the documented behaviour the
  code relies on, in terms of a view of the server: the bookkeeping rows, the scripts whose effects
  are committed, and the advisory locks that sessions hold. The process is the only writer while
  it holds its lock, so no other change of the view appears between two of its calls.
\<close>

section \<open>The interface\<close>

text \<open>
  The context of a call: the caller's own, or one detached from it by
  \<open>context.WithTimeout(context.WithoutCancel(ctx), d)\<close>.
\<close>

datatype ctx = Caller | Detached

datatype sql_arg = TextArg string | NullArg | IntArg int

datatype cell = CText string | CNull | CTime int | CBool bool

record sql_rows =
  rows_data :: "cell list list"
  rows_err :: "string option"

type_synonym sql_result = "string + nat"    \<comment> \<open>\<open>sql.Result\<close>: what \<open>RowsAffected\<close> answers\<close>

type_synonym ('w, 'a) sql_io = "'w \<Rightarrow> 'w \<times> (string + 'a)"

record 'w sql_db =
  db_max_open :: "'w \<Rightarrow> nat"
  db_exec :: "ctx \<Rightarrow> string \<Rightarrow> sql_arg list \<Rightarrow> ('w, sql_result) sql_io"
  db_query :: "ctx \<Rightarrow> string \<Rightarrow> sql_arg list \<Rightarrow> ('w, sql_rows) sql_io"
  db_begin :: "ctx \<Rightarrow> ('w, nat) sql_io"
  db_conn :: "ctx \<Rightarrow> ('w, nat) sql_io"
  tx_exec :: "nat \<Rightarrow> ctx \<Rightarrow> string \<Rightarrow> sql_arg list \<Rightarrow> ('w, sql_result) sql_io"
  tx_commit :: "nat \<Rightarrow> ('w, unit) sql_io"
  tx_rollback :: "nat \<Rightarrow> 'w \<Rightarrow> 'w"
  conn_exec :: "nat \<Rightarrow> ctx \<Rightarrow> string \<Rightarrow> sql_arg list \<Rightarrow> ('w, sql_result) sql_io"
  conn_query :: "nat \<Rightarrow> ctx \<Rightarrow> string \<Rightarrow> sql_arg list \<Rightarrow> ('w, sql_rows) sql_io"
  conn_begin :: "nat \<Rightarrow> ctx \<Rightarrow> ('w, nat) sql_io"
  conn_raw_close :: "nat \<Rightarrow> 'w \<Rightarrow> 'w"
  conn_close :: "nat \<Rightarrow> ('w, unit) sql_io"
  ctx_done :: "ctx \<Rightarrow> 'w \<Rightarrow> bool"

definition lift_sql :: "('w, 'a) sql_io \<Rightarrow> ('w, 'a) io" where
  "lift_sql m = (\<lambda>w. case m w of (w', Inl t) \<Rightarrow> (w', Inl (Extern t)) | (w', Inr a) \<Rightarrow> (w', Inr a))"

text \<open>\<open>QueryRow(...).Scan\<close>: the first row, \<open>sql.ErrNoRows\<close> for none, which is \<open>None\<close> here.\<close>

definition first_row :: "('w, sql_rows) sql_io \<Rightarrow> ('w, cell list option) io" where
  "first_row m =
     go_bind (lift_sql m) (\<lambda>rows.
       case rows_data rows of
         r # _ \<Rightarrow> ret (Some r)
       | [] \<Rightarrow> (case rows_err rows of Some t \<Rightarrow> fail (Extern t) | None \<Rightarrow> ret None))"

text \<open>\<open>Scan\<close> into a destination of the wrong type.\<close>

definition scan_mismatch :: goerr where
  "scan_mismatch = Extern ''sql: Scan error on column index 0''"

fun scan_text :: "cell list \<Rightarrow> string result" where
  "scan_text [CText s] = Inr s"
| "scan_text _ = Inl scan_mismatch"

fun scan_bool :: "cell list \<Rightarrow> bool result" where
  "scan_bool [CBool b] = Inr b"
| "scan_bool _ = Inl scan_mismatch"

declare lift_sql_def [go_eval] first_row_def [go_eval]

lemma wp_lift_sql:
  "wp (lift_sql m) Q E w \<longleftrightarrow>
     (case m w of (w', Inl t) \<Rightarrow> E (Extern t) w' | (w', Inr a) \<Rightarrow> Q a w')"
  by (auto simp: wp_def lift_sql_def split: prod.split sum.split)

abbreviation exec_db :: "'w sql_db \<Rightarrow> ctx \<Rightarrow> string \<Rightarrow> sql_arg list \<Rightarrow> ('w, sql_result) io" where
  "exec_db D c q args \<equiv> lift_sql (db_exec D c q args)"

abbreviation exec_tx :: "'w sql_db \<Rightarrow> nat \<Rightarrow> ctx \<Rightarrow> string \<Rightarrow> sql_arg list \<Rightarrow> ('w, sql_result) io" where
  "exec_tx D t c q args \<equiv> lift_sql (tx_exec D t c q args)"

abbreviation exec_conn :: "'w sql_db \<Rightarrow> nat \<Rightarrow> ctx \<Rightarrow> string \<Rightarrow> sql_arg list \<Rightarrow> ('w, sql_result) io" where
  "exec_conn D n c q args \<equiv> lift_sql (conn_exec D n c q args)"

section \<open>The statements the code sends\<close>

text \<open>\<open>CustomExecutor.query\<close>: the table reference put into the place of \<open>%s\<close>.\<close>

definition query_text :: "table_ref \<Rightarrow> string \<Rightarrow> string \<Rightarrow> string" where
  "query_text ref before after = before @ ref @ after"

definition text_line :: "nat \<Rightarrow> string \<Rightarrow> string" where
  "text_line tabs s = NL # replicate tabs (CHR 0x09) @ s"

definition create_sql :: "table_ref \<Rightarrow> string" where
  "create_sql ref = query_text ref (text_line 2 ''CREATE TABLE IF NOT EXISTS '')
     ('' ('' @ text_line 3 ''seq BIGINT GENERATED ALWAYS AS IDENTITY,'' @ text_line 3 ''id VARCHAR(255) PRIMARY KEY,''
      @ text_line 3 ''up_script TEXT NOT NULL,'' @ text_line 3 ''down_script TEXT NOT NULL,''
      @ text_line 3 ''applied_at TIMESTAMPTZ NOT NULL DEFAULT NOW(),'' @ text_line 3 ''error TEXT NULL''
      @ text_line 2 '')'' @ text_line 1 [])"

definition exists_sql :: string where
  "exists_sql = ''SELECT to_regclass($1) IS NOT NULL''"

definition insert_null_sql :: "table_ref \<Rightarrow> string" where
  "insert_null_sql ref =
     query_text ref ''INSERT INTO '' '' (id, up_script, down_script, error) VALUES ($1, $2, $3, NULL)''"

definition insert_sql :: "table_ref \<Rightarrow> string" where
  "insert_sql ref =
     query_text ref ''INSERT INTO '' '' (id, up_script, down_script, error) VALUES ($1, $2, $3, $4)''"

definition select_down_sql :: "table_ref \<Rightarrow> string" where
  "select_down_sql ref = query_text ref ''SELECT down_script FROM '' '' WHERE id = $1''"

definition select_all_sql :: "table_ref \<Rightarrow> string" where
  "select_all_sql ref = query_text ref ''SELECT id, applied_at, error, down_script FROM '' '' ORDER BY seq''"

definition delete_sql :: "table_ref \<Rightarrow> string" where
  "delete_sql ref = query_text ref ''DELETE FROM '' '' WHERE id = $1''"

definition update_error_sql :: "table_ref \<Rightarrow> string" where
  "update_error_sql ref = query_text ref ''UPDATE '' '' SET error = $1 WHERE id = $2''"

definition set_lock_timeout_sql :: string where
  "set_lock_timeout_sql = ''SELECT set_config('' @ [SQ] @ ''lock_timeout'' @ [SQ] @ '', $1, true)''"

definition advisory_lock_sql :: string where "advisory_lock_sql = ''SELECT pg_advisory_lock($1)''"
definition advisory_unlock_sql :: string where "advisory_unlock_sql = ''SELECT pg_advisory_unlock($1)''"
definition advisory_unlock_all_sql :: string where
  "advisory_unlock_all_sql = ''SELECT pg_advisory_unlock_all()''"

lemmas statement_texts =
  query_text_def text_line_def create_sql_def exists_sql_def insert_null_sql_def insert_sql_def
  select_down_sql_def select_all_sql_def delete_sql_def update_error_sql_def set_lock_timeout_sql_def
  advisory_lock_sql_def advisory_unlock_sql_def advisory_unlock_all_sql_def

definition null_string :: "string option \<Rightarrow> sql_arg" where
  "null_string e = (case e of None \<Rightarrow> NullArg | Some t \<Rightarrow> TextArg t)"

section \<open>The view of the server\<close>

record row =
  row_id :: string
  row_up :: string
  row_down :: string
  row_error :: "string option"
  row_time :: int

text \<open>
  The rows in the order of \<open>seq\<close>, \<open>None\<close> when there is no table; the scripts that ran, in order; the
  advisory locks that are held, each as its session and its key, once for each time that the session has taken
  it and not given it back; and the sessions in use, by other processes or checked out of the pool.
\<close>

record db_view =
  v_rows :: "row list option"
  v_ran :: "string list"
  v_locks :: "(nat \<times> int) list"
  v_out :: "nat set"

abbreviation row_ids :: "row list \<Rightarrow> string list" where
  "row_ids rs \<equiv> map row_id rs"

definition table_created :: "db_view \<Rightarrow> db_view" where
  "table_created v = (case v_rows v of None \<Rightarrow> v\<lparr>v_rows := Some []\<rparr> | Some _ \<Rightarrow> v)"

definition inserted :: "string \<Rightarrow> string \<Rightarrow> string \<Rightarrow> string option \<Rightarrow> db_view \<Rightarrow> db_view \<Rightarrow> bool" where
  "inserted i up down err v v' \<longleftrightarrow>
     (\<exists>rs tm. v_rows v = Some rs \<and> i \<notin> set (row_ids rs)
        \<and> v' = v\<lparr>v_rows := Some (rs @ [\<lparr>row_id = i, row_up = up, row_down = down, row_error = err, row_time = tm\<rparr>])\<rparr>)"

definition deleted :: "string \<Rightarrow> db_view \<Rightarrow> db_view" where
  "deleted i v = v\<lparr>v_rows := map_option (filter (\<lambda>r. row_id r \<noteq> i)) (v_rows v)\<rparr>"

definition marked :: "string \<Rightarrow> string \<Rightarrow> db_view \<Rightarrow> db_view" where
  "marked i e v =
     v\<lparr>v_rows := map_option (map (\<lambda>r. if row_id r = i then r\<lparr>row_error := Some e\<rparr> else r)) (v_rows v)\<rparr>"

definition ran :: "string list \<Rightarrow> db_view \<Rightarrow> db_view" where
  "ran ss v = v\<lparr>v_ran := v_ran v @ ss\<rparr>"

definition publish :: "db_view \<Rightarrow> db_view \<Rightarrow> db_view" where
  "publish t v = v\<lparr>v_rows := v_rows t, v_ran := v_ran t\<rparr>"

text \<open>
  \<open>pg_advisory_lock\<close> and \<open>pg_advisory_unlock\<close> on one key, and all keys of a session: \<open>pg_advisory_unlock_all\<close>, or
  the end of the session.
\<close>

definition no_other_holds :: "nat \<Rightarrow> int \<Rightarrow> db_view \<Rightarrow> bool" where
  "no_other_holds n k v \<longleftrightarrow> (\<forall>h \<in> set (v_locks v). snd h = k \<longrightarrow> fst h = n)"

definition locked :: "nat \<Rightarrow> int \<Rightarrow> db_view \<Rightarrow> db_view" where
  "locked n k v = v\<lparr>v_locks := (n, k) # v_locks v\<rparr>"

definition unlocked_key :: "nat \<Rightarrow> int \<Rightarrow> db_view \<Rightarrow> db_view" where
  "unlocked_key n k v = v\<lparr>v_locks := remove1 (n, k) (v_locks v)\<rparr>"

definition unlocked :: "nat \<Rightarrow> db_view \<Rightarrow> db_view" where
  "unlocked n v = v\<lparr>v_locks := filter (\<lambda>h. fst h \<noteq> n) (v_locks v)\<rparr>"

definition checked_in :: "nat \<Rightarrow> db_view \<Rightarrow> db_view" where
  "checked_in n v = v\<lparr>v_out := v_out v - {n}\<rparr>"

text \<open>No session in the pool, where another caller could pick it up, holds an advisory lock.\<close>

definition unstranded :: "db_view \<Rightarrow> bool" where
  "unstranded v \<longleftrightarrow> (\<forall>h \<in> set (v_locks v). fst h \<in> v_out v)"

lemma unlocked_absent: "\<forall>h \<in> set (v_locks v). fst h \<noteq> n \<Longrightarrow> unlocked n v = v"
  by (simp add: unlocked_def)

lemma unlocked_locked [simp]: "unlocked n (locked n k v) = unlocked n v"
  by (simp add: unlocked_def locked_def)

text \<open>The rows a query yields: those it should, or some first ones and an error.\<close>

definition answers :: "sql_rows \<Rightarrow> cell list list \<Rightarrow> bool" where
  "answers rows expected \<longleftrightarrow> prefix (rows_data rows) expected \<and> (rows_err rows = None \<longrightarrow> rows_data rows = expected)"

definition row_cells :: "row \<Rightarrow> cell list" where
  "row_cells r = [CText (row_id r), CTime (row_time r), case row_error r of None \<Rightarrow> CNull | Some e \<Rightarrow> CText e,
     CText (row_down r)]"

section \<open>What the code relies on\<close>

text \<open>
  A statement that fails has no effect in a transaction, and outside one it may have been executed
  although its answer was lost. \<open>tidy\<close> is what the tool asks of a migration script: that it leaves
  the bookkeeping table, the advisory locks and the transaction it runs in alone. An advisory lock belongs to a
  session and a key: taking it waits until no other session holds that key, and giving it back answers whether the
  session held that key.
\<close>

locale sql_database =
  fixes D :: "'w sql_db" and ref :: table_ref and view :: "'w \<Rightarrow> db_view"
    and tx_view :: "'w \<Rightarrow> nat \<Rightarrow> db_view" and tx_session :: "'w \<Rightarrow> nat \<Rightarrow> nat" and tidy :: "string \<Rightarrow> bool"
  assumes primary_key: "v_rows (view w) = Some rs \<Longrightarrow> distinct (row_ids rs)"
    and create_law: "wp (exec_db D c (create_sql ref) []) (\<lambda>_ w'. view w' = table_created (view w))
      (\<lambda>_ w'. view w' \<in> {view w, table_created (view w)}) w"
    and exists_law: "wp (lift_sql (db_query D c exists_sql [TextArg ref]))
      (\<lambda>rows w'. view w' = view w \<and> answers rows [[CBool (v_rows (view w) \<noteq> None)]]) (\<lambda>_ w'. view w' = view w) w"
    and select_down_law: "wp (lift_sql (db_query D c (select_down_sql ref) [TextArg i]))
      (\<lambda>rows w'. view w' = view w \<and> (\<exists>rs. v_rows (view w) = Some rs
         \<and> answers rows (map (\<lambda>r. [CText (row_down r)]) (filter (\<lambda>r. row_id r = i) rs)))) (\<lambda>_ w'. view w' = view w) w"
    and select_all_law: "wp (lift_sql (db_query D c (select_all_sql ref) []))
      (\<lambda>rows w'. view w' = view w \<and> (\<exists>rs. v_rows (view w) = Some rs \<and> answers rows (map row_cells rs)))
      (\<lambda>_ w'. view w' = view w) w"
    and begin_law: "wp (lift_sql (db_begin D c)) (\<lambda>t w'. view w' = view w \<and> tx_view w' t = view w)
      (\<lambda>_ w'. view w' = view w) w"
    and tx_script_law: "tidy s \<Longrightarrow> wp (exec_tx D t c s [])
      (\<lambda>_ w'. view w' = view w \<and> tx_view w' t = ran [s] (tx_view w t)) (\<lambda>_ w'. view w' = view w) w"
    and tx_insert_law: "wp (exec_tx D t c (insert_null_sql ref) [TextArg i, TextArg up, TextArg down])
      (\<lambda>_ w'. view w' = view w \<and> inserted i up down None (tx_view w t) (tx_view w' t)) (\<lambda>_ w'. view w' = view w) w"
    and tx_delete_law: "wp (exec_tx D t c (delete_sql ref) [TextArg i])
      (\<lambda>_ w'. view w' = view w \<and> tx_view w' t = deleted i (tx_view w t)) (\<lambda>_ w'. view w' = view w) w"
    and commit_law: "wp (lift_sql (tx_commit D t)) (\<lambda>_ w'. view w' = publish (tx_view w t) (view w))
      (\<lambda>_ w'. view w' \<in> {view w, publish (tx_view w t) (view w)}) w"
    and rollback_law: "view (tx_rollback D t w) = view w"
    and insert_law: "wp (exec_db D c (insert_sql ref) [TextArg i, TextArg up, TextArg down, null_string err])
      (\<lambda>_ w'. inserted i up down err (view w) (view w'))
      (\<lambda>_ w'. view w' = view w \<or> inserted i up down err (view w) (view w')) w"
    and delete_law: "wp (exec_db D c (delete_sql ref) [TextArg i])
      (\<lambda>n w'. view w' = deleted i (view w) \<and> (\<exists>rs. v_rows (view w) = Some rs
         \<and> (n = Inr (length (filter (\<lambda>r. row_id r = i) rs)) \<or> (\<exists>t. n = Inl t))))
      (\<lambda>_ w'. view w' \<in> {view w, deleted i (view w)}) w"
    and update_law: "wp (exec_db D c (update_error_sql ref) [TextArg e, TextArg i])
      (\<lambda>_ w'. view w' = marked i e (view w)) (\<lambda>_ w'. view w' \<in> {view w, marked i e (view w)}) w"
    and conn_law: "wp (lift_sql (db_conn D c))
      (\<lambda>n w'. n \<notin> v_out (view w) \<and> view w' = (view w)\<lparr>v_out := insert n (v_out (view w))\<rparr>) (\<lambda>_ w'. view w' = view w) w"
    and conn_script_law: "tidy s \<Longrightarrow> wp (exec_conn D n c s []) (\<lambda>_ w'. view w' = ran [s] (view w))
      (\<lambda>_ w'. view w' \<in> {view w, ran [s] (view w)}) w"
    and raw_close_law: "view (conn_raw_close D n w) = unlocked n (view w)"
    and close_law: "wp (lift_sql (conn_close D n)) (\<lambda>_ w'. view w' = checked_in n (view w))
      (\<lambda>_ w'. view w' = checked_in n (view w)) w"
    and conn_begin_law: "wp (lift_sql (conn_begin D n c))
      (\<lambda>t w'. view w' = view w \<and> tx_view w' t = view w \<and> tx_session w' t = n) (\<lambda>_ w'. view w' = view w) w"
    and lock_timeout_law: "wp (exec_tx D t c set_lock_timeout_sql [TextArg ms])
      (\<lambda>_ w'. view w' = view w \<and> tx_view w' t = tx_view w t \<and> tx_session w' t = tx_session w t)
      (\<lambda>_ w'. view w' = view w) w"
    and lock_law: "wp (exec_tx D t c advisory_lock_sql [IntArg k])
      (\<lambda>_ w'. no_other_holds (tx_session w t) k (view w) \<and> view w' = locked (tx_session w t) k (view w)
         \<and> tx_view w' t = tx_view w t)
      (\<lambda>_ w'. view w' \<in> {view w, locked (tx_session w t) k (view w)}) w"
    and unlock_law: "wp (lift_sql (conn_query D n c advisory_unlock_sql [IntArg k]))
      (\<lambda>rows w'. answers rows [[CBool ((n, k) \<in> set (v_locks (view w)))]]
         \<and> (rows_data rows \<noteq> [] \<longrightarrow> view w' = unlocked_key n k (view w)) \<and> view w' \<in> {view w, unlocked_key n k (view w)})
      (\<lambda>_ w'. view w' \<in> {view w, unlocked_key n k (view w)}) w"
    and unlock_all_law: "wp (exec_conn D n c advisory_unlock_all_sql []) (\<lambda>_ w'. view w' = unlocked n (view w))
      (\<lambda>_ w'. view w' \<in> {view w, unlocked n (view w)}) w"

end
