(* ===== verification/Directives.thy ===== *)
theory Directives
  imports Go_Errors
begin

text \<open>
  \<open>internal/migrator/directives.go\<close>: the optional directive line at the head of a migration script.
  A Go \<open>map[string]bool\<close> is a partial map; reading a missing key gives \<open>false\<close>
  (\<open>has_directive\<close>).
\<close>

section \<open>Constants\<close>

definition up_file_suffix :: string where "up_file_suffix = ''.up.sql''"
definition down_file_suffix :: string where "down_file_suffix = ''.down.sql''"

definition comment_token :: string where "comment_token = ''--''"
definition migrate_token :: string where "migrate_token = ''+migrate''"
definition directive_start :: string where
  "directive_start = comment_token @ '' '' @ migrate_token"
definition migrate_token_prefix :: string where "migrate_token_prefix = ''+migrat''"

definition statement_begin_marker :: string where "statement_begin_marker = ''StatementBegin''"
definition statement_end_marker :: string where "statement_end_marker = ''StatementEnd''"
definition statement_begin_line :: string where
  "statement_begin_line = directive_start @ '' '' @ statement_begin_marker"
definition statement_end_line :: string where
  "statement_end_line = directive_start @ '' '' @ statement_end_marker"

definition directive_no_transaction :: string where "directive_no_transaction = ''notransaction''"
definition directive_irreversible :: string where "directive_irreversible = ''irreversible''"
definition legacy_up_marker :: string where "legacy_up_marker = ''Up''"
definition legacy_down_marker :: string where "legacy_down_marker = ''Down''"

lemmas directive_tokens =
  comment_token_def migrate_token_def directive_start_def migrate_token_prefix_def
  statement_begin_marker_def statement_end_marker_def statement_begin_line_def
  statement_end_line_def directive_no_transaction_def directive_irreversible_def
  legacy_up_marker_def legacy_down_marker_def

definition known_directives :: "string \<Rightarrow> bool" where
  "known_directives d \<longleftrightarrow> d = directive_no_transaction \<or> d = directive_irreversible"

definition sorted_known_directives :: "string list" where
  "sorted_known_directives = sort [directive_no_transaction, directive_irreversible]"

section \<open>Recognising lines\<close>

definition directive_header_for :: "string \<Rightarrow> string" where
  "directive_header_for name = directive_start @ '' '' @ name"

definition directive_names :: "string \<Rightarrow> string list option" where
  "directive_names line =
     (case fields (trim_space line) of
        f0 # f1 # rest \<Rightarrow>
          if f0 \<noteq> comment_token \<or> f1 \<noteq> migrate_token then None
          else (case rest of
                  f2 # _ \<Rightarrow> if f2 = statement_begin_marker \<or> f2 = statement_end_marker then None else Some rest
                | [] \<Rightarrow> Some [])
      | _ \<Rightarrow> None)"

definition looks_like_directive :: "string \<Rightarrow> bool" where
  "looks_like_directive line =
     (case fields (trim_space line) of
        [] \<Rightarrow> False
      | f0 # fs \<Rightarrow>
          if prefix (comment_token @ migrate_token_prefix) f0 then True
          else if f0 = comment_token
            then (case fs of f1 # _ \<Rightarrow> prefix migrate_token_prefix f1 | [] \<Rightarrow> False)
          else False)"

definition is_statement_marker_line :: "string \<Rightarrow> bool" where
  "is_statement_marker_line line =
     (let trimmed = trim_space line
      in prefix statement_begin_line trimmed \<or> prefix statement_end_line trimmed)"

section \<open>ParseDirectiveHeader\<close>

type_synonym directive_map = "string \<rightharpoonup> bool"

definition has_directive :: "directive_map \<Rightarrow> string \<Rightarrow> bool" where
  "has_directive m d \<longleftrightarrow> m d = Some True"

text \<open>The loop over the names of a directive line.\<close>

fun add_directives :: "directive_map \<Rightarrow> string list \<Rightarrow> directive_map result" where
  "add_directives m [] = Inr m"
| "add_directives m (name # names) =
     (if known_directives name then add_directives (m(name \<mapsto> True)) names
      else if name = legacy_up_marker \<or> name = legacy_down_marker then
        Inl (Errorf [Quo name, Lit '' is a section marker from the single-file format, which this version no longer uses: put the Up SQL in <id>'',
               Lit up_file_suffix, Lit '' and the Down SQL in <id>'', Lit down_file_suffix,
               Lit '', and drop the marker line''])
      else
        Inl (Errorf [Lit ''unknown directive '', Quo name, Lit '' (known: '',
               Lit (join '', '' sorted_known_directives), Lit ''); directives are case-sensitive'']))"

fun check_no_late :: "string list \<Rightarrow> nat \<Rightarrow> unit result" where
  "check_no_late [] n = Inr ()"
| "check_no_late (line # ls) n =
     (case directive_names line of
        Some _ \<Rightarrow>
          Inl (Errorf [Lit ''directive line '', Quo (trim_space line), Lit '' found on line '', Num (int n),
                 Lit '': directives are only recognized on the first line of a script''])
      | None \<Rightarrow> check_no_late ls (Suc n))"

definition check_no_late_directives :: "string \<Rightarrow> nat \<Rightarrow> unit result" where
  "check_no_late_directives body body_line1 = check_no_late (split_on NL body) body_line1"

definition parse_directive_header :: "string \<Rightarrow> (directive_map \<times> string) result" where
  "parse_directive_header script =
     (let head = cut_before NL script; rest = cut_after NL script;
          finish = (\<lambda>directives body line1.
            case check_no_late_directives body line1 of
              Inl e \<Rightarrow> Inl e
            | Inr _ \<Rightarrow> Inr (directives, body))
      in case directive_names head of
           Some names \<Rightarrow>
             if names = [] then
               Inl (Errorf [Lit ''directive line '', Quo (trim_space head), Lit '' names no directive''])
             else (case add_directives Map.empty names of
                     Inl e \<Rightarrow> Inl e
                   | Inr directives \<Rightarrow> finish directives rest 2)
         | None \<Rightarrow>
             if looks_like_directive head \<and> \<not> is_statement_marker_line head then
               Inl (Errorf [Lit ''malformed directive line '', Quo (trim_space head), Lit '': expected '',
                      Quo directive_start, Lit '' followed by directive names''])
             else finish Map.empty script 1)"

section \<open>Lemmas\<close>

lemma add_directives_Inr:
  "add_directives m names = Inr m' \<longleftrightarrow>
     list_all known_directives names \<and> m' = (\<lambda>d. if d \<in> set names then Some True else m d)"
  by (induction names arbitrary: m) (auto simp: fun_eq_iff)

lemma check_no_late_Inr:
  "check_no_late ls n = Inr u \<longleftrightarrow> (\<forall>line \<in> set ls. directive_names line = None)"
  by (induction ls arbitrary: n) (auto split: option.splits)

text \<open>The first late line decides the error and its line number.\<close>

lemma check_no_late_Inl:
  "check_no_late ls n = Inl e \<Longrightarrow>
     \<exists>i < length ls. directive_names (ls ! i) \<noteq> None \<and> (\<forall>j < i. directive_names (ls ! j) = None)
       \<and> e = Errorf [Lit ''directive line '', Quo (trim_space (ls ! i)), Lit '' found on line '',
               Num (int (n + i)), Lit '': directives are only recognized on the first line of a script'']"
proof (induction ls arbitrary: n)
  case (Cons l ls)
  show ?case
  proof (cases "directive_names l")
    case None
    with Cons.prems have "check_no_late ls (Suc n) = Inl e" by simp
    from Cons.IH [OF this] obtain i where i: "i < length ls" "directive_names (ls ! i) \<noteq> None"
      "\<forall>j < i. directive_names (ls ! j) = None"
      "e = Errorf [Lit ''directive line '', Quo (trim_space (ls ! i)), Lit '' found on line '',
               Num (int (Suc n + i)), Lit '': directives are only recognized on the first line of a script'']"
      by blast
    with None show ?thesis
      by (intro exI [of _ "Suc i"]) (auto simp: nth_Cons split: nat.splits)
  next
    case Some
    with Cons.prems show ?thesis by (intro exI [of _ 0]) auto
  qed
qed simp

lemma check_no_late_InlD: "check_no_late ls n = Inl e \<Longrightarrow> \<exists>l \<in> set ls. directive_names l \<noteq> None"
  by (drule check_no_late_Inl) (auto dest: nth_mem)

lemma add_directives_InlD: "add_directives m names = Inl e \<Longrightarrow> \<not> list_all known_directives names"
  by (induction names arbitrary: m) (auto split: if_splits)

lemma split_on_nonempty [simp]: "split_on c s \<noteq> []"
  by (cases s) (auto split: list.splits)

lemma join_split_on: "join [c] (split_on c s) = s"
proof (induction s)
  case (Cons x s)
  then show ?case by (cases "split_on c s"; cases "tl (split_on c s)") (auto split: list.splits)
qed simp

lemma split_on_no_sep: "l \<in> set (split_on c s) \<Longrightarrow> c \<notin> set l"
  by (induction s arbitrary: l) (auto split: list.splits if_splits)

lemma split_on_append: "c \<notin> set a \<Longrightarrow> split_on c (a @ c # b) = a # split_on c b"
  by (induction a) auto

lemma split_on_single: "c \<notin> set a \<Longrightarrow> split_on c a = [a]"
  by (induction a) auto

lemma cut_simps [simp]:
  "c \<notin> set a \<Longrightarrow> cut_before c (a @ c # b) = a"
  "c \<notin> set a \<Longrightarrow> cut_after c (a @ c # b) = b"
  "c \<notin> set a \<Longrightarrow> cut_before c a = a"
  "c \<notin> set a \<Longrightarrow> cut_after c a = []"
  by (induction a) (auto simp: cut_before_def cut_after_def)

lemma split_on_cut: "c \<in> set s \<Longrightarrow> split_on c s = cut_before c s # split_on c (cut_after c s)"
  by (metis cut_simps(1,2) split_list_first split_on_append)

text \<open>
  What a successful parse means, as a characterisation of the whole function: either the first line
  is a directive line naming known directives and the body is what follows it, or it is no directive
  line and nothing that looks like one, and the body is the script; no body line is a directive line.
\<close>

definition header_line :: "string \<Rightarrow> string list \<Rightarrow> bool" where
  "header_line head names \<longleftrightarrow>
     directive_names head = Some names \<and> names \<noteq> [] \<and> list_all known_directives names"

definition plain_line :: "string \<Rightarrow> bool" where
  "plain_line head \<longleftrightarrow>
     directive_names head = None \<and> (looks_like_directive head \<longrightarrow> is_statement_marker_line head)"

definition no_directive_line :: "string \<Rightarrow> bool" where
  "no_directive_line body \<longleftrightarrow> list_all (\<lambda>line. directive_names line = None) (split_on NL body)"

lemma parse_directive_header_Inr:
  "parse_directive_header script = Inr (m, body) \<longleftrightarrow>
     no_directive_line body \<and>
     ((\<exists>names. header_line (cut_before NL script) names \<and> body = cut_after NL script
         \<and> m = (\<lambda>d. if d \<in> set names then Some True else None))
      \<or> (plain_line (cut_before NL script) \<and> body = script \<and> m = Map.empty))"
  by (auto simp: parse_directive_header_def Let_def check_no_late_directives_def header_line_def
      plain_line_def no_directive_line_def list_all_iff add_directives_Inr check_no_late_Inr
      dest!: check_no_late_InlD add_directives_InlD split: option.splits sum.splits if_splits)

lemma parse_directive_header_known:
  "parse_directive_header script = Inr (m, body) \<Longrightarrow> has_directive m d \<Longrightarrow> known_directives d"
  by (auto simp: parse_directive_header_Inr header_line_def has_directive_def list_all_iff split: if_splits)

declare directive_tokens [go_eval] known_directives_def [go_eval] directive_header_for_def [go_eval]
declare directive_names_def [go_eval] looks_like_directive_def [go_eval] is_statement_marker_line_def [go_eval]
declare parse_directive_header_def [go_eval] check_no_late_directives_def [go_eval] has_directive_def [go_eval]
declare header_line_def [go_eval] plain_line_def [go_eval] no_directive_line_def [go_eval]

lemma header_for_tokens:
  "header_line (directive_header_for directive_no_transaction) [directive_no_transaction]"
  "header_line (directive_header_for directive_irreversible) [directive_irreversible]"
  by (simp_all add: go_eval)

lemma header_for_no_NL:
  "NL \<notin> set (directive_header_for directive_no_transaction)"
  "NL \<notin> set (directive_header_for directive_irreversible)"
  by (simp_all add: go_eval)

end
