(* ===== verification/Splitter.thy ===== *)
theory Splitter
  imports Directives
begin

text \<open>
  The statement splitter of \<open>internal/migrator/custom_executor.go\<close>: a single-pass scanner that cuts
  a \<open>notransaction\<close> script at the semicolons outside quotes and comments, with manual statement
  blocks. The local variables of \<open>splitSQLStatements\<close> are the record \<open>scanner\<close>; the inner loop is
  \<open>scan_line\<close>, indexed into the line as in the code, and the outer loop is \<open>split_lines\<close>.
\<close>

section \<open>Lexical helpers\<close>

definition is_identifier_byte :: "char \<Rightarrow> bool" where
  "is_identifier_byte c \<longleftrightarrow>
     c = CHR ''_'' \<or> (97 \<le> byte c \<and> byte c \<le> 122) \<or> (65 \<le> byte c \<and> byte c \<le> 90)
     \<or> (48 \<le> byte c \<and> byte c \<le> 57) \<or> 0x80 \<le> byte c"

definition is_escape_string_prefix :: "string \<Rightarrow> nat \<Rightarrow> bool" where
  "is_escape_string_prefix line i =
     (if i = 0 then False
      else if line ! (i - 1) \<noteq> CHR ''E'' \<and> line ! (i - 1) \<noteq> CHR ''e'' then False
      else if i = 1 then True
      else \<not> is_identifier_byte (line ! (i - 2)))"

definition is_dollar_tag_char :: "unicode \<Rightarrow> nat \<Rightarrow> bool \<Rightarrow> bool" where
  "is_dollar_tag_char U r first =
     (if r = 95 \<or> is_letter U r then True else \<not> first \<and> is_digit U r)"

text \<open>
  The loop of \<open>matchDollarTag\<close>, over the text after the opening dollar sign. It returns the part of
  the delimiter read so far, so that the caller's slice \<open>line[i:j+size]\<close> is the result.
\<close>

function match_tag_loop :: "unicode \<Rightarrow> bool \<Rightarrow> string \<Rightarrow> string \<Rightarrow> string option" where
  "match_tag_loop U first acc s =
     (if s = [] then None
      else let r = fst (decode_rune s); size = snd (decode_rune s)
        in if r = 36 then Some (acc @ take size s)
           else if \<not> is_dollar_tag_char U r first then None
           else match_tag_loop U False (acc @ take size s) (drop size s))"
  by pat_completeness auto
termination
  by (relation "measure (\<lambda>(U, first, acc, s). length s)") (auto simp: decode_rune_size(1))

declare match_tag_loop.simps [simp del]

definition match_dollar_tag :: "unicode \<Rightarrow> string \<Rightarrow> nat \<Rightarrow> string option" where
  "match_dollar_tag U line i = match_tag_loop U True [line ! i] (drop (i + 1) line)"

lemma match_tag_loop_step:
  "s \<noteq> [] \<Longrightarrow> match_tag_loop U first acc s =
     (if fst (decode_rune s) = 36 then Some (acc @ take (snd (decode_rune s)) s)
      else if is_dollar_tag_char U (fst (decode_rune s)) first
        then match_tag_loop U False (acc @ take (snd (decode_rune s)) s) (drop (snd (decode_rune s)) s)
      else None)"
  by (subst match_tag_loop.simps) (simp add: Let_def)

lemma match_tag_loop_Nil [simp]: "match_tag_loop U first acc [] = None"
  by (subst match_tag_loop.simps) simp

lemma match_tag_loop_prefix:
  "match_tag_loop U first acc s = Some tag \<Longrightarrow> \<exists>t. tag = acc @ t \<and> prefix t s"
proof (induction U first acc s rule: match_tag_loop.induct)
  case (1 U first acc s)
  let ?n = "snd (decode_rune s)"
  have s: "s \<noteq> []" using "1.prems" by (cases "s = []") simp_all
  show ?case
  proof (cases "fst (decode_rune s) = 36")
    case True
    then have "tag = acc @ take ?n s" using "1.prems" match_tag_loop_step [OF s] by simp
    then show ?thesis using take_is_prefix by blast
  next
    case False
    then have tag: "is_dollar_tag_char U (fst (decode_rune s)) first"
      "match_tag_loop U False (acc @ take ?n s) (drop ?n s) = Some tag"
      using "1.prems" match_tag_loop_step [OF s, of U first acc]
      by (metis option.distinct(1))+
    with "1.IH" [OF s refl refl False] obtain t
      where "tag = (acc @ take ?n s) @ t" "prefix t (drop ?n s)" by blast
    then show ?thesis
      by (intro exI [of _ "take ?n s @ t"]) (metis append.assoc append_take_drop_id same_prefix_prefix)
  qed
qed

lemma match_dollar_tag_nonempty: "match_dollar_tag U line i = Some tag \<Longrightarrow> tag \<noteq> []"
  by (auto simp: match_dollar_tag_def dest: match_tag_loop_prefix)

section \<open>Dropping what is not a statement\<close>

text \<open>
  \<open>bufio.Scanner\<close> with its default buffer: a line of \<open>bufio.MaxScanTokenSize\<close> bytes or more makes
  \<open>Scan\<close> return false, as at the end of the input; the code does not ask \<open>Err\<close> which of the
  two it was.
\<close>

definition max_scan_token_size :: nat where
  "max_scan_token_size = 64 * 1024"

definition drop_cr :: "string \<Rightarrow> string" where
  "drop_cr l = (if l \<noteq> [] \<and> last l = CHR 0x0D then butlast l else l)"

fun only_comment_lines :: "string list \<Rightarrow> bool" where
  "only_comment_lines [] = True"
| "only_comment_lines (l # ls) =
     (if max_scan_token_size \<le> length l then True
      else let line = trim_space (drop_cr l)
        in if line = [] then only_comment_lines ls
           else if \<not> prefix ''--'' line then False
           else only_comment_lines ls)"

definition is_only_comments :: "string \<Rightarrow> bool" where
  "is_only_comments s = only_comment_lines (split_on NL s)"

definition is_empty_statement :: "string \<Rightarrow> bool" where
  "is_empty_statement s =
     (if trim_set [CHR '';'', CHR '' '', CHR 0x09, CHR 0x0D, NL] s = [] then True
      else is_only_comments s)"

section \<open>The scanner\<close>

datatype scan_state = Normal | InSingleQuote | InDoubleQuote | InDollarQuote | InBlockComment

record scanner =
  statements :: "string list"
  buf :: string
  sc_state :: scan_state
  dollar_tag :: string
  block_comment_depth :: int
  in_statement_block :: bool
  escape_string :: bool

definition init_scanner :: scanner where
  "init_scanner = \<lparr>statements = [], buf = [], sc_state = Normal, dollar_tag = [],
     block_comment_depth = 0, in_statement_block = False, escape_string = False\<rparr>"

definition append_statement :: "scanner \<Rightarrow> scanner" where
  "append_statement sc =
     (let text = trim_space (buf sc); sc = sc\<lparr>buf := []\<rparr>
      in if is_empty_statement text then sc else sc\<lparr>statements := statements sc @ [text]\<rparr>)"

definition next_is :: "string \<Rightarrow> nat \<Rightarrow> char \<Rightarrow> bool" where
  "next_is line i c \<longleftrightarrow> i + 1 < length line \<and> line ! (i + 1) = c"

text \<open>
  The body of the loop \<open>for i < len(line)\<close>: \<open>scan_step U line i seg sc\<close> is one turn at index
  \<open>i\<close> with \<open>segStart\<close> at \<open>seg\<close>. It gives the new index, \<open>segStart\<close> and scanner, or \<open>None\<close>
  for \<open>break scanLine\<close>. The guard \<open>dollar_tag sc \<noteq> []\<close> makes every turn advance; a scanner in
  a dollar quote always has a tag (\<open>scanner_ok\<close> below), so it never decides a branch.
\<close>

definition scan_step :: "unicode \<Rightarrow> string \<Rightarrow> nat \<Rightarrow> nat \<Rightarrow> scanner \<Rightarrow> (nat \<times> nat \<times> scanner) option" where
  "scan_step U line i seg sc =
     (case sc_state sc of
        Normal \<Rightarrow>
          if line ! i = SQ then
            Some (i + 1, seg, sc\<lparr>sc_state := InSingleQuote, escape_string := is_escape_string_prefix line i\<rparr>)
          else if line ! i = DQ then Some (i + 1, seg, sc\<lparr>sc_state := InDoubleQuote\<rparr>)
          else if line ! i = CHR ''$'' then
            (case match_dollar_tag U line i of
               Some tag \<Rightarrow> Some (i + length tag, seg, sc\<lparr>sc_state := InDollarQuote, dollar_tag := tag\<rparr>)
             | None \<Rightarrow> Some (i + 1, seg, sc))
          else if line ! i = CHR ''-'' \<and> next_is line i (CHR ''-'') then None
          else if line ! i = CHR ''/'' \<and> next_is line i (CHR ''*'') then
            Some (i + 2, seg, sc\<lparr>sc_state := InBlockComment, block_comment_depth := 1\<rparr>)
          else if line ! i = CHR '';'' then
            Some (i + 1, i + 1, append_statement (sc\<lparr>buf := buf sc @ drop seg (take (i + 1) line)\<rparr>))
          else Some (i + 1, seg, sc)
      | InSingleQuote \<Rightarrow>
          if escape_string sc \<and> line ! i = BSL then Some (i + 2, seg, sc)
          else if line ! i = SQ then
            (if next_is line i SQ then Some (i + 2, seg, sc)
             else Some (i + 1, seg, sc\<lparr>sc_state := Normal, escape_string := False\<rparr>))
          else Some (i + 1, seg, sc)
      | InDoubleQuote \<Rightarrow>
          if line ! i = DQ then
            (if next_is line i DQ then Some (i + 2, seg, sc)
             else Some (i + 1, seg, sc\<lparr>sc_state := Normal\<rparr>))
          else Some (i + 1, seg, sc)
      | InDollarQuote \<Rightarrow>
          if line ! i = CHR ''$'' \<and> prefix (dollar_tag sc) (drop i line) \<and> dollar_tag sc \<noteq> [] then
            Some (i + length (dollar_tag sc), seg, sc\<lparr>sc_state := Normal, dollar_tag := []\<rparr>)
          else Some (i + 1, seg, sc)
      | InBlockComment \<Rightarrow>
          if line ! i = CHR ''*'' \<and> next_is line i (CHR ''/'') then
            (let d = block_comment_depth sc - 1; sc = sc\<lparr>block_comment_depth := d\<rparr>
             in Some (i + 2, seg, if d = 0 then sc\<lparr>sc_state := Normal\<rparr> else sc))
          else if line ! i = CHR ''/'' \<and> next_is line i (CHR ''*'') then
            Some (i + 2, seg, sc\<lparr>block_comment_depth := block_comment_depth sc + 1\<rparr>)
          else Some (i + 1, seg, sc))"

lemma scan_step_advances: "scan_step U line i seg sc = Some (i', seg', sc') \<Longrightarrow> i < i'"
  by (auto simp: scan_step_def Let_def dest: match_dollar_tag_nonempty
      split: scan_state.splits if_splits option.splits)

text \<open>The loop: it returns the final \<open>segStart\<close> and the scanner.\<close>

function scan_line :: "unicode \<Rightarrow> string \<Rightarrow> nat \<Rightarrow> nat \<Rightarrow> scanner \<Rightarrow> nat \<times> scanner" where
  "scan_line U line i seg sc =
     (if \<not> i < length line then (seg, sc)
      else case scan_step U line i seg sc of
        None \<Rightarrow> (seg, sc)
      | Some (i', seg', sc') \<Rightarrow> scan_line U line i' seg' sc')"
  by pat_completeness auto
termination
  by (relation "measure (\<lambda>(U, line, i, seg, sc). length line - i)")
    (auto dest!: scan_step_advances)

declare scan_line.simps [simp del]

text \<open>The body of the outer loop, for one line of the script.\<close>

definition split_line :: "unicode \<Rightarrow> string \<Rightarrow> bool \<Rightarrow> scanner \<Rightarrow> scanner" where
  "split_line U line is_last_line sc =
     (if \<not> in_statement_block sc \<and> sc_state sc = Normal \<and> trim_space line = statement_begin_line then
        (append_statement sc)\<lparr>in_statement_block := True\<rparr>
      else if in_statement_block sc \<and> sc_state sc = Normal \<and> trim_space line = statement_end_line then
        (append_statement sc)\<lparr>in_statement_block := False\<rparr>
      else if in_statement_block sc then sc\<lparr>buf := buf sc @ line @ [NL]\<rparr>
      else (case scan_line U line 0 0 sc of
              (seg, sc) \<Rightarrow> sc\<lparr>buf := buf sc @ drop seg line @ (if is_last_line then [] else [NL])\<rparr>))"

fun split_lines :: "unicode \<Rightarrow> string list \<Rightarrow> scanner \<Rightarrow> scanner" where
  "split_lines U [] sc = sc"
| "split_lines U (line # lines) sc = split_lines U lines (split_line U line (lines = []) sc)"

definition split_sql_statements :: "unicode \<Rightarrow> string \<Rightarrow> string list result" where
  "split_sql_statements U script =
     (let sc = split_lines U (split_on NL script) init_scanner
      in if in_statement_block sc then
           Inl (Errorf [Quo statement_begin_line, Lit '' is never closed by '', Quo statement_end_line])
         else Inr (statements (append_statement sc)))"

definition validate_statement_blocks :: "unicode \<Rightarrow> string \<Rightarrow> unit result" where
  "validate_statement_blocks U script =
     (case split_sql_statements U script of Inl e \<Rightarrow> Inl e | Inr _ \<Rightarrow> Inr ())"

declare is_identifier_byte_def [go_eval] is_escape_string_prefix_def [go_eval]
declare is_dollar_tag_char_def [go_eval] match_dollar_tag_def [go_eval] match_tag_loop_step [go_eval]
declare drop_cr_def [go_eval] is_only_comments_def [go_eval] max_scan_token_size_def [go_eval]
declare is_empty_statement_def [go_eval] init_scanner_def [go_eval] append_statement_def [go_eval]
declare next_is_def [go_eval] split_sql_statements_def [go_eval] validate_statement_blocks_def [go_eval]

section \<open>The scanner's invariant\<close>

text \<open>
  What the local variables of the scanner say about each other: a dollar quote has a tag, a block
  comment is at least one level deep, and inside a manual block no quote is open.
\<close>

definition scanner_ok :: "scanner \<Rightarrow> bool" where
  "scanner_ok sc \<longleftrightarrow>
     (sc_state sc = InDollarQuote \<longrightarrow> dollar_tag sc \<noteq> [])
     \<and> (sc_state sc = InBlockComment \<longrightarrow> 1 \<le> block_comment_depth sc)
     \<and> (in_statement_block sc \<longrightarrow> sc_state sc = Normal)"

lemma append_statement_frame [simp]:
  "sc_state (append_statement sc) = sc_state sc"
  "dollar_tag (append_statement sc) = dollar_tag sc"
  "block_comment_depth (append_statement sc) = block_comment_depth sc"
  "in_statement_block (append_statement sc) = in_statement_block sc"
  "escape_string (append_statement sc) = escape_string sc"
  "buf (append_statement sc) = []"
  by (simp_all add: append_statement_def Let_def)

lemma append_statement_buf [simp]: "append_statement sc\<lparr>buf := []\<rparr> = append_statement sc"
  by (simp add: append_statement_def Let_def)

lemma scan_line_done [simp]: "length line \<le> i \<Longrightarrow> scan_line U line i seg sc = (seg, sc)"
  by (subst scan_line.simps) simp

lemma scan_line_stop [simp]:
  "i < length line \<Longrightarrow> scan_step U line i seg sc = None \<Longrightarrow> scan_line U line i seg sc = (seg, sc)"
  by (subst scan_line.simps) simp

lemma scan_line_turn:
  "i < length line \<Longrightarrow> scan_step U line i seg sc = Some (i', seg', sc') \<Longrightarrow>
     scan_line U line i seg sc = scan_line U line i' seg' sc'"
  by (subst scan_line.simps) simp

text \<open>
  The rule for the inner loop: what holds at its start and is kept by each of its turns holds at
  its end.
\<close>

lemma scan_line_invariant:
  assumes "scan_line U line i seg sc = (seg', sc')" and "P i seg sc"
    and turn: "\<And>i seg sc i' seg' sc'. \<lbrakk>i < length line; P i seg sc;
      scan_step U line i seg sc = Some (i', seg', sc')\<rbrakk> \<Longrightarrow> P i' seg' sc'"
  shows "\<exists>i'. P i' seg' sc' \<and> (length line \<le> i' \<or> scan_step U line i' seg' sc' = None)"
  using assms(1,2)
proof (induction "length line - i" arbitrary: i seg sc rule: less_induct)
  case less
  show ?case
  proof (cases "i < length line")
    case False
    with less.prems show ?thesis by (intro exI [of _ i]) auto
  next
    case True
    show ?thesis
    proof (cases "scan_step U line i seg sc")
      case None
      with True less.prems show ?thesis by (intro exI [of _ i]) auto
    next
      case (Some t)
      obtain i1 seg1 sc1 where t: "t = (i1, seg1, sc1)" by (cases t)
      with Some have step: "scan_step U line i seg sc = Some (i1, seg1, sc1)" by simp
      have "length line - i1 < length line - i" using scan_step_advances [OF step] True by simp
      then show ?thesis
        by (rule less.hyps) (use less.prems scan_line_turn [OF True step] turn [OF True _ step] in auto)
    qed
  qed
qed

lemma scan_step_ok:
  "scan_step U line i seg sc = Some (i', seg', sc') \<Longrightarrow> scanner_ok sc \<Longrightarrow> \<not> in_statement_block sc
     \<Longrightarrow> scanner_ok sc' \<and> \<not> in_statement_block sc'"
  by (auto simp: scan_step_def scanner_ok_def Let_def dest: match_dollar_tag_nonempty
      split: scan_state.splits if_splits option.splits)


lemma scan_line_ok:
  assumes "scan_line U line i seg sc = (seg', sc')" "scanner_ok sc" "\<not> in_statement_block sc"
  shows "scanner_ok sc' \<and> \<not> in_statement_block sc'"
  using scan_line_invariant [where P = "\<lambda>i seg sc. scanner_ok sc \<and> \<not> in_statement_block sc", OF assms(1)]
    assms(2,3) scan_step_ok by blast

lemma scanner_ok_update [simp]:
  "scanner_ok (sc\<lparr>buf := b\<rparr>) = scanner_ok sc"
  "scanner_ok (append_statement sc) = scanner_ok sc"
  by (simp_all add: scanner_ok_def)

lemma split_line_ok: "scanner_ok sc \<Longrightarrow> scanner_ok (split_line U line l sc)"
  by (auto simp: split_line_def scanner_ok_def [of "_\<lparr>in_statement_block := _\<rparr>"]
      dest!: scan_line_ok split: prod.splits)

lemma split_lines_ok: "scanner_ok sc \<Longrightarrow> scanner_ok (split_lines U lines sc)"
  by (induction lines arbitrary: sc) (auto simp: split_line_ok)

section \<open>Nothing is lost\<close>

text \<open>
  The statements that come out of a list of chunks of text: each trimmed, those with nothing to
  execute dropped. The scanner cuts the script into chunks, in order and without gaps.
\<close>

definition statements_of :: "string list \<Rightarrow> string list" where
  "statements_of cs = filter (\<lambda>t. \<not> is_empty_statement t) (map trim_space cs)"

lemma statements_of_simps [simp]:
  "statements_of [] = []" "statements_of (cs @ ds) = statements_of cs @ statements_of ds"
  by (simp_all add: statements_of_def)

lemma append_statement_statements:
  "statements (append_statement sc) = statements sc @ statements_of [buf sc]"
  by (simp add: append_statement_def statements_of_def Let_def)

text \<open>The scanner \<open>sc'\<close> has turned the text \<open>t\<close> that follows \<open>sc\<close> into the chunks \<open>cs\<close>.\<close>

definition scanned :: "scanner \<Rightarrow> string \<Rightarrow> string list \<Rightarrow> scanner \<Rightarrow> bool" where
  "scanned sc t cs sc' \<longleftrightarrow>
     statements sc' = statements sc @ statements_of cs \<and> buf sc @ t = concat cs @ buf sc'"

lemma scanned_refl [simp]: "scanned sc [] [] sc"
  by (simp add: scanned_def)

lemma scanned_trans: "scanned sc t cs sc1 \<Longrightarrow> scanned sc1 u ds sc2 \<Longrightarrow> scanned sc (t @ u) (cs @ ds) sc2"
  by (auto simp: scanned_def) (metis append.assoc)

lemma scanned_flush: "scanned sc [] [buf sc] (append_statement sc)"
  by (simp add: scanned_def append_statement_statements)

lemma scan_step_chunks:
  assumes "scan_step U line i seg sc = Some (i', seg', sc')" "i < length line" "seg \<le> i"
  shows "seg' \<le> i' \<and> seg' \<le> length line \<and>
    (\<exists>cs. statements sc' = statements sc @ statements_of cs
       \<and> buf sc @ drop seg line = concat cs @ buf sc' @ drop seg' line)"
proof (cases "sc_state sc = Normal \<and> line ! i = CHR '';''")
  case True
  then show ?thesis
    using assms drop_take_append [of seg "i + 1" line]
    by (auto simp: scan_step_def append_statement_statements
        intro!: exI [of _ "[buf sc @ drop seg (take (i + 1) line)]"])
next
  case False
  then have "buf sc' = buf sc \<and> statements sc' = statements sc \<and> seg' = seg"
    using assms(1) by (auto simp: scan_step_def Let_def split: scan_state.splits if_splits option.splits)
  then show ?thesis using assms scan_step_advances [OF assms(1)] by (auto intro!: exI [of _ "[]"])
qed

lemma scan_line_chunks:
  assumes "scan_line U line 0 0 sc = (seg', sc')"
  shows "\<exists>cs. scanned sc line cs (sc'\<lparr>buf := buf sc' @ drop seg' line\<rparr>)"
proof -
  let ?P = "\<lambda>i seg sc1. seg \<le> i \<and> (\<exists>cs. statements sc1 = statements sc @ statements_of cs
       \<and> buf sc @ line = concat cs @ buf sc1 @ drop seg line)"
  have "?P i' seg' sc'"
    if "i < length line" "?P i seg sc1" "scan_step U line i seg sc1 = Some (i', seg', sc')"
    for i seg sc1 i' seg' sc'
  proof -
    from that(2) obtain cs where cs: "seg \<le> i" "statements sc1 = statements sc @ statements_of cs"
      "buf sc @ line = concat cs @ buf sc1 @ drop seg line" by blast
    from scan_step_chunks [OF that(3,1) cs(1)] obtain ds where "seg' \<le> i'"
      "statements sc' = statements sc1 @ statements_of ds"
      "buf sc1 @ drop seg line = concat ds @ buf sc' @ drop seg' line" by blast
    with cs show ?thesis by (intro conjI exI [of _ "cs @ ds"]) auto
  qed
  moreover have "?P 0 0 sc" by (auto intro: exI [of _ "[]"])
  ultimately obtain i' where "?P i' seg' sc'"
    using scan_line_invariant [where P = ?P, OF assms] by blast
  then show ?thesis by (auto simp: scanned_def)
qed

text \<open>
  A script's lines as the outer loop reads them, each with its line break. A line is a marker when
  its trimmed text is one of the two block markers.
\<close>

definition marker_line :: "string \<Rightarrow> bool" where
  "marker_line line \<longleftrightarrow> trim_space line = statement_begin_line \<or> trim_space line = statement_end_line"

text \<open>\<open>kept ls t\<close>: the text \<open>t\<close> is the lines \<open>ls\<close> with some of the marker lines left out.\<close>

inductive kept :: "string list \<Rightarrow> string \<Rightarrow> bool" where
  kept_Nil: "kept [] []"
| kept_last: "kept [l] l"
| kept_line: "kept ls t \<Longrightarrow> kept (l # ls) (l @ NL # t)"
| kept_marker: "marker_line l \<Longrightarrow> kept ls t \<Longrightarrow> kept (l # ls) t"

lemma scan_step_block:
  "scan_step U line i seg sc = Some (i', seg', sc') \<Longrightarrow> in_statement_block sc' = in_statement_block sc"
  by (auto simp: scan_step_def Let_def split: scan_state.splits if_splits option.splits)

lemma scan_line_block [frame]:
  "scan_line U line i seg sc = (seg', sc') \<Longrightarrow> in_statement_block sc' = in_statement_block sc"
  using scan_line_invariant [where P = "\<lambda>i seg s. in_statement_block s = in_statement_block sc"]
    scan_step_block by blast

lemma split_line_cases:
  obtains (marker) b where "marker_line line" "sc_state sc = Normal"
      "split_line U line l sc = (append_statement sc)\<lparr>in_statement_block := b\<rparr>"
  | (block) "in_statement_block sc" "split_line U line l sc = sc\<lparr>buf := buf sc @ line @ [NL]\<rparr>"
  | (scan) seg sc' where "\<not> in_statement_block sc" "scan_line U line 0 0 sc = (seg, sc')"
      "\<not> in_statement_block sc'"
      "split_line U line l sc = sc'\<lparr>buf := buf sc' @ drop seg line @ (if l then [] else [NL])\<rparr>"
proof -
  let ?A = "\<not> in_statement_block sc \<and> sc_state sc = Normal \<and> trim_space line = statement_begin_line"
  let ?B = "in_statement_block sc \<and> sc_state sc = Normal \<and> trim_space line = statement_end_line"
  consider "?A" | "\<not> ?A" "?B" | "\<not> ?A" "\<not> ?B" "in_statement_block sc"
    | "\<not> ?A" "\<not> ?B" "\<not> in_statement_block sc" by blast
  then show thesis
  proof cases
    case 1
    then show ?thesis by (intro marker [of True]) (auto simp: split_line_def marker_line_def)
  next
    case 2
    then show ?thesis by (intro marker [of False]) (auto simp: split_line_def marker_line_def)
  next
    case 3
    then show ?thesis by (intro block) (auto simp: split_line_def)
  next
    case 4
    obtain seg sc' where e: "scan_line U line 0 0 sc = (seg, sc')" by fastforce
    with 4 have "split_line U line l sc = sc'\<lparr>buf := buf sc' @ drop seg line @ (if l then [] else [NL])\<rparr>"
      by (auto simp: split_line_def)
    with 4 e scan_line_block [OF e] show ?thesis by (intro scan) simp_all
  qed
qed

lemma split_line_chunks:
  "\<exists>cs t. scanned sc t cs (split_line U line l sc) \<and>
     (marker_line line \<and> t = [] \<or> t = line @ [NL] \<and> (l \<longrightarrow> in_statement_block (split_line U line l sc))
      \<or> l \<and> t = line)"
proof (cases rule: split_line_cases [of line sc U l])
  case (marker b)
  with scanned_flush [of sc] show ?thesis
    by (intro exI [of _ "[buf sc]"] exI [of _ "[]"]) (simp add: scanned_def)
next
  case block
  then show ?thesis unfolding block(2)
    by (intro exI [of _ "[] :: string list"] exI [of _ "line @ [NL]"]) (simp add: scanned_def)
next
  case (scan seg sc')
  from scan_line_chunks [OF scan(2)] obtain cs
    where "scanned sc line cs (sc'\<lparr>buf := buf sc' @ drop seg line\<rparr>)" by blast
  with scan show ?thesis
    by (intro exI [of _ cs] exI [of _ "if l then line else line @ [NL]"]) (auto simp: scanned_def simp flip: append_assoc)
qed

text \<open>
  Each line contributes its text; only the last one may lack the line break, and then it was read
  outside a block (a script that ends inside a block is refused).
\<close>

lemma split_lines_chunks:
  assumes "\<not> in_statement_block (split_lines U ls sc)" and "ls \<noteq> []"
  shows "\<exists>cs t. kept ls t \<and> scanned sc t cs (split_lines U ls sc)"
  using assms
proof (induction ls arbitrary: sc)
  case (Cons line ls)
  obtain cs t where c: "scanned sc t cs (split_line U line (ls = []) sc)"
    and t: "(marker_line line \<and> t = [] \<or> t = line @ [NL] \<and>
        (ls = [] \<longrightarrow> in_statement_block (split_line U line (ls = []) sc)) \<or> ls = [] \<and> t = line)"
    using split_line_chunks [where sc = sc and U = U and line = line and l = "ls = []"] by (elim exE conjE)
  show ?case
  proof (cases "ls = []")
    case True
    with Cons.prems(1) have "\<not> in_statement_block (split_line U line (ls = []) sc)" by simp
    with t True have "kept (line # ls) t"
      by (elim disjE) (simp_all add: kept_last kept_marker kept_Nil)
    with c True show ?thesis by auto
  next
    case False
    from Cons.IH [OF _ False] Cons.prems(1) obtain ds u
      where u: "kept ls u" "scanned (split_line U line False sc) u ds (split_lines U ls (split_line U line False sc))"
      using False by fastforce
    from scanned_trans [OF _ u(2)] c False
    have "scanned sc (t @ u) (cs @ ds) (split_lines U (line # ls) sc)" by simp
    moreover have "kept (line # ls) (t @ u)" using t u(1) False by (auto intro: kept.intros)
    ultimately show ?thesis by blast
  qed
qed simp


lemma split_sql_statements_chunks:
  assumes "split_sql_statements U script = Inr stmts"
  obtains chunks where "stmts = statements_of chunks" "kept (split_on NL script) (concat chunks)"
proof -
  let ?sc = "split_lines U (split_on NL script) init_scanner"
  have nb: "\<not> in_statement_block ?sc" and s: "stmts = statements (append_statement ?sc)"
    using assms by (auto simp: split_sql_statements_def Let_def split: if_splits)
  obtain cs t where "kept (split_on NL script) t" "scanned init_scanner t cs ?sc"
    using split_lines_chunks [OF nb] by auto
  then show ?thesis using s
    by (intro that [of "cs @ [buf ?sc]"]) (auto simp: scanned_def append_statement_statements init_scanner_def)
qed

end
