(* ===== verification/Splitter_Props.thy ===== *)
theory Splitter_Props
  imports Splitter
begin

text \<open>
  What the statement splitter guarantees: the statements are the script, cut into consecutive chunks;
  text inside an open quote or comment is never cut; on a script without quotes and comments the
  scanner is the naive splitter at semicolons. The last section shows the one input class on which
  a statement disappears.
\<close>

section \<open>Scripts without quotes and comments\<close>

text \<open>Bytes that leave a scanner in its normal state and are no statement end.\<close>

definition plain_char :: "char \<Rightarrow> bool" where
  "plain_char c \<longleftrightarrow> c \<notin> {SQ, DQ, CHR ''$'', CHR ''-'', CHR ''/''}"

text \<open>The naive splitter: cut after every semicolon.\<close>

definition semicolon_chunks :: "string \<Rightarrow> string list" where
  "semicolon_chunks s =
     (let ps = split_on (CHR '';'') s in map (\<lambda>p. p @ '';'') (butlast ps) @ [last ps])"

text \<open>The scanner's effect on plain text, byte by byte.\<close>

fun plain_go :: "string \<Rightarrow> scanner \<Rightarrow> scanner" where
  "plain_go [] sc = sc"
| "plain_go (c # s) sc =
     plain_go s (if c = CHR '';'' then append_statement (sc\<lparr>buf := buf sc @ [c]\<rparr>)
                 else sc\<lparr>buf := buf sc @ [c]\<rparr>)"

lemma plain_go_append: "plain_go (s @ t) sc = plain_go t (plain_go s sc)"
  by (induction s arbitrary: sc) auto

lemma plain_go_frame [simp]:
  "sc_state (plain_go s sc) = sc_state sc" "in_statement_block (plain_go s sc) = in_statement_block sc"
  by (induction s arbitrary: sc) auto

lemma plain_go_no_semicolon:
  "CHR '';'' \<notin> set s \<Longrightarrow> plain_go s sc = sc\<lparr>buf := buf sc @ s\<rparr>"
  by (induction s arbitrary: sc) auto

lemma take_Suc_snoc: "i < length xs \<Longrightarrow> take (Suc i) xs = take i xs @ [xs ! i]"
  by (rule take_Suc_conv_app_nth)

lemma scan_line_plain:
  assumes "sc_state sc = Normal" "list_all plain_char (drop i line)" "seg \<le> i" "i \<le> length line"
    and "scan_line U line i seg sc = (seg', sc')"
  shows "sc'\<lparr>buf := buf sc' @ drop seg' line\<rparr>
    = plain_go (drop i line) (sc\<lparr>buf := buf sc @ drop seg (take i line)\<rparr>)"
  using assms
proof (induction "length line - i" arbitrary: i seg sc)
  case 0
  then show ?case by simp
next
  case (Suc n)
  then have i: "i < length line" by simp
  then have d: "drop i line = line ! i # drop (Suc i) line" by (rule Cons_nth_drop_Suc [symmetric])
  with Suc.prems have p: "plain_char (line ! i)" and rest: "list_all plain_char (drop (Suc i) line)" by auto
  have t: "drop seg (take (Suc i) line) = drop seg (take i line) @ [line ! i]"
    using i Suc.prems(3) by (simp add: take_Suc_snoc)
  show ?case
  proof (cases "line ! i = CHR '';''")
    case True
    let ?sc = "append_statement (sc\<lparr>buf := buf sc @ drop seg (take (Suc i) line)\<rparr>)"
    have "scan_step U line i seg sc = Some (Suc i, Suc i, ?sc)"
      using True Suc.prems(1) by (simp add: scan_step_def)
    then have "scan_line U line (Suc i) (Suc i) ?sc = (seg', sc')"
      using scan_line_turn [OF i] Suc.prems(5) by simp
    with Suc.hyps(1) [of "Suc i" ?sc "Suc i"] Suc.hyps(2) Suc.prems(1) rest i
    show ?thesis unfolding d using True t by simp
  next
    case False
    have "scan_step U line i seg sc = Some (Suc i, seg, sc)"
      using False p Suc.prems(1) by (simp add: scan_step_def plain_char_def)
    then have "scan_line U line (Suc i) seg sc = (seg', sc')"
      using scan_line_turn [OF i] Suc.prems(5) by simp
    with Suc.hyps(1) [of "Suc i" sc seg] Suc.hyps(2) Suc.prems(1,3) rest i
    show ?thesis unfolding d using False t by simp
  qed
qed

lemma trim_space_set: "set (trim_space s) \<subseteq> set s"
  by (rule trim_space_split [of s]) (metis Un_upper1 Un_upper2 order_trans set_append)

lemma marker_line_dash: "marker_line line \<Longrightarrow> CHR ''-'' \<in> set line"
  using trim_space_set [of line] by (auto simp: marker_line_def directive_tokens)

lemma split_line_plain:
  assumes "list_all plain_char line" "sc_state sc = Normal" "\<not> in_statement_block sc"
  shows "split_line U line l sc = plain_go (line @ (if l then [] else [NL])) sc"
proof (cases rule: split_line_cases [of line sc U l])
  case (scan seg sc')
  from scan_line_plain [OF assms(2) _ _ _ scan(2)] assms(1)
  have "sc'\<lparr>buf := buf sc' @ drop seg line\<rparr> = plain_go line sc" by simp
  then have "plain_go (line @ [NL]) sc = sc'\<lparr>buf := buf sc' @ drop seg line @ [NL]\<rparr>"
    by (simp add: plain_go_append flip: \<open>_ = plain_go line sc\<close>)
  with scan(4) \<open>_ = plain_go line sc\<close> show ?thesis by simp
qed (use assms marker_line_dash in \<open>auto simp: list_all_iff plain_char_def\<close>)

lemma split_lines_plain:
  assumes "list_all (list_all plain_char) ls" "ls \<noteq> []" "sc_state sc = Normal" "\<not> in_statement_block sc"
  shows "split_lines U ls sc = plain_go (join [NL] ls) sc"
  using assms
proof (induction ls arbitrary: sc)
  case (Cons l ls)
  show ?case
  proof (cases ls)
    case Nil
    with Cons.prems show ?thesis by (simp add: split_line_plain)
  next
    case (Cons m ms)
    with Cons.prems Cons.IH [of "plain_go (l @ [NL]) sc"] show ?thesis
      by (simp add: split_line_plain plain_go_append)
  qed
qed simp

lemma semicolon_chunks_simps:
  "semicolon_chunks [] = [[]]"
  "semicolon_chunks (CHR '';'' # s) = '';'' # semicolon_chunks s"
  "c \<noteq> CHR '';'' \<Longrightarrow>
     semicolon_chunks (c # s) = (c # hd (semicolon_chunks s)) # tl (semicolon_chunks s)"
proof -
  have ne: "split_on (CHR '';'') s \<noteq> []" by simp
  then show "semicolon_chunks (CHR '';'' # s) = '';'' # semicolon_chunks s"
    by (simp add: semicolon_chunks_def Let_def)
  assume "c \<noteq> CHR '';''"
  with ne show "semicolon_chunks (c # s) = (c # hd (semicolon_chunks s)) # tl (semicolon_chunks s)"
    by (cases "split_on (CHR '';'') s"; cases "tl (split_on (CHR '';'') s)")
      (auto simp: semicolon_chunks_def Let_def)
qed (simp add: semicolon_chunks_def)

lemma semicolon_chunks_nonempty [simp]: "semicolon_chunks s \<noteq> []"
  by (simp add: semicolon_chunks_def Let_def)

lemma plain_go_statements:
  "statements (append_statement (plain_go s sc)) =
     statements sc @ statements_of ((buf sc @ hd (semicolon_chunks s)) # tl (semicolon_chunks s))"
proof (induction s arbitrary: sc)
  case Nil
  show ?case by (simp add: semicolon_chunks_simps append_statement_statements)
next
  case (Cons c s)
  show ?case
  proof (cases "c = CHR '';''")
    case True
    have "statements_of ((buf sc @ '';'') # semicolon_chunks s) =
        statements_of [buf sc @ '';''] @ statements_of (semicolon_chunks s)"
      by (simp flip: statements_of_simps(2))
    with True Cons show ?thesis
      by (simp add: semicolon_chunks_simps append_statement_statements)
  next
    case False
    with Cons show ?thesis by (simp add: semicolon_chunks_simps)
  qed
qed

lemma split_on_chars: "l \<in> set (split_on c s) \<Longrightarrow> x \<in> set l \<Longrightarrow> x \<in> set s"
  by (induction s arbitrary: l) (fastforce split: list.splits if_splits)+

lemma split_plain:
  assumes "list_all plain_char script"
  shows "split_sql_statements U script = Inr (statements_of (semicolon_chunks script))"
proof -
  have "list_all (list_all plain_char) (split_on NL script)"
    using assms split_on_chars by (fastforce simp: list_all_iff)
  then have "split_lines U (split_on NL script) init_scanner = plain_go script init_scanner"
    by (simp add: split_lines_plain init_scanner_def join_split_on)
  then show ?thesis
    by (simp add: split_sql_statements_def Let_def plain_go_statements) (simp add: init_scanner_def)
qed

section \<open>Open quotes\<close>

text \<open>The line does not hold what would close the quote or comment the scanner is in.\<close>

definition quiet :: "scanner \<Rightarrow> string \<Rightarrow> bool" where
  "quiet sc line \<longleftrightarrow>
     (case sc_state sc of
        Normal \<Rightarrow> False
      | InSingleQuote \<Rightarrow> SQ \<notin> set line
      | InDoubleQuote \<Rightarrow> DQ \<notin> set line
      | InDollarQuote \<Rightarrow> \<not> sublist (dollar_tag sc) line
      | InBlockComment \<Rightarrow> \<not> sublist ''*/'' line \<and> \<not> sublist ''/*'' line)"

lemma next_is_sublist:
  "i < length line \<Longrightarrow> line ! i = c \<Longrightarrow> next_is line i d \<Longrightarrow> sublist [c, d] line"
proof -
  assume a: "i < length line" "line ! i = c" "next_is line i d"
  then have "drop i line = c # d # drop (i + 2) line"
    using Cons_nth_drop_Suc [of i line] Cons_nth_drop_Suc [of "Suc i" line] by (simp add: next_is_def)
  then show ?thesis by (metis append_Cons append_Nil append_take_drop_id sublist_appendI)
qed

lemma scan_line_quiet: "quiet sc line \<Longrightarrow> scan_line U line i seg sc = (seg, sc)"
proof (induction "length line - i" arbitrary: i rule: less_induct)
  case less
  show ?case
  proof (cases "i < length line")
    case True
    have pre: "\<not> prefix (dollar_tag sc) (drop i line)" if "\<not> sublist (dollar_tag sc) line"
      using that by (metis append_take_drop_id prefix_def sublist_appendI)
    have m: "line ! i \<in> set line" using True by simp
    have "\<exists>i'. scan_step U line i seg sc = Some (i', seg, sc)"
    proof (cases "sc_state sc")
      case InBlockComment
      with less.prems next_is_sublist [OF True] show ?thesis
        by (auto simp: quiet_def scan_step_def)
    qed (use less.prems pre m in \<open>auto simp: quiet_def scan_step_def\<close>)
    then obtain i' where step: "scan_step U line i seg sc = Some (i', seg, sc)" by blast
    with scan_step_advances [OF step] True less.hyps [of i'] less.prems scan_line_turn [OF True step]
    show ?thesis by simp
  qed simp
qed

lemma split_line_quiet:
  assumes "quiet sc line" "\<not> in_statement_block sc"
  shows "split_line U line l sc = sc\<lparr>buf := buf sc @ line @ (if l then [] else [NL])\<rparr>"
  using assms scan_line_quiet [OF assms(1)] by (auto simp: split_line_def quiet_def)

lemma split_lines_quiet:
  assumes "list_all (quiet sc) ls" "rest \<noteq> []" "\<not> in_statement_block sc"
  shows "split_lines U (ls @ rest) sc
    = split_lines U rest (sc\<lparr>buf := buf sc @ concat (map (\<lambda>l. l @ [NL]) ls)\<rparr>)"
  using assms
proof (induction ls arbitrary: sc)
  case (Cons l ls)
  have "quiet (sc\<lparr>buf := b\<rparr>) = quiet sc" for b
    by (simp add: quiet_def fun_eq_iff split: scan_state.splits)
  with Cons show ?case by (simp add: split_line_quiet)
qed simp

text \<open>Moving over plain text in the normal state.\<close>

definition skippable :: "char \<Rightarrow> bool" where
  "skippable c \<longleftrightarrow> plain_char c \<and> c \<noteq> CHR '';''"

lemma scan_line_skip:
  assumes "sc_state sc = Normal" "list_all skippable s"
  shows "scan_line U (a @ s @ b) (length a) seg sc = scan_line U (a @ s @ b) (length (a @ s)) seg sc"
  using assms(2)
proof (induction s arbitrary: a)
  case (Cons c s)
  have "scan_step U (a @ (c # s) @ b) (length a) seg sc = Some (length a + 1, seg, sc)"
    using assms(1) Cons.prems by (simp add: scan_step_def skippable_def plain_char_def)
  then have "scan_line U (a @ (c # s) @ b) (length a) seg sc
      = scan_line U ((a @ [c]) @ s @ b) (length (a @ [c])) seg sc"
    by (subst scan_line_turn) auto
  with Cons.IH [of "a @ [c]"] Cons.prems show ?case by simp
qed simp

text \<open>
  A dollar-quoted body, as in a PL/pgSQL function: the line that opens it ends in the tag, the body
  lines do not hold the tag, and the closing line starts with it. However many semicolons and
  markers the body holds, the whole text is one statement.
\<close>

lemma split_on_join:
  "ls \<noteq> [] \<Longrightarrow> list_all (\<lambda>l. c \<notin> set l) ls \<Longrightarrow> split_on c (join [c] ls) = ls"
  by (induction "[c]" ls rule: join.induct) (auto simp: split_on_append split_on_single)

lemma join_snoc: "join [c] (ls @ [l]) = concat (map (\<lambda>l. l @ [c]) ls) @ l"
proof (induction ls)
  case (Cons x ls)
  then show ?case by (cases ls) auto
qed simp

lemma statements_of_empty [simp]: "statements_of [[]] = []"
  by (simp add: statements_of_def is_empty_statement_def trim_set_def)

lemma split_line_open_dollar:
  assumes "match_dollar_tag U (CHR ''$'' # t) 0 = Some (CHR ''$'' # t)" "list_all skippable h"
    "CHR ''-'' \<notin> set t" "sc_state sc = Normal" "\<not> in_statement_block sc"
  shows "split_line U (h @ CHR ''$'' # t) False sc
    = sc\<lparr>sc_state := InDollarQuote, dollar_tag := CHR ''$'' # t, buf := buf sc @ h @ CHR ''$'' # t @ [NL]\<rparr>"
proof -
  let ?line = "h @ CHR ''$'' # t" and ?sc = "sc\<lparr>sc_state := InDollarQuote, dollar_tag := CHR ''$'' # t\<rparr>"
  have "CHR ''-'' \<notin> set ?line"
    using assms(2,3) by (auto simp: list_all_iff skippable_def plain_char_def)
  then have "\<not> marker_line ?line" using marker_line_dash by blast
  moreover have "scan_line U ?line 0 0 sc = scan_line U ?line (length h) 0 sc"
    using scan_line_skip [OF assms(4,2), of U "[]" "CHR ''$'' # t" 0] by simp
  moreover have "scan_step U ?line (length h) 0 sc = Some (length ?line, 0, ?sc)"
    using assms(1,4) by (simp add: scan_step_def match_dollar_tag_def)
  ultimately show ?thesis
    using assms(5) by (auto simp: split_line_def marker_line_def scan_line_turn)
qed

lemma split_line_close_dollar:
  assumes "list_all skippable p" "sc_state sc = InDollarQuote" "dollar_tag sc = CHR ''$'' # t"
    "\<not> in_statement_block sc"
  shows "split_line U (CHR ''$'' # t @ p @ '';'') True sc
    = append_statement (sc\<lparr>sc_state := Normal, dollar_tag := [], buf := buf sc @ CHR ''$'' # t @ p @ '';''\<rparr>)"
proof -
  let ?line = "CHR ''$'' # t @ p @ '';''" and ?sc = "sc\<lparr>sc_state := Normal, dollar_tag := []\<rparr>"
  let ?after = "append_statement (?sc\<lparr>buf := buf sc @ ?line\<rparr>)"
  have "scan_step U ?line 0 0 sc = Some (length (CHR ''$'' # t), 0, ?sc)"
    using assms(2,3) by (simp add: scan_step_def)
  then have "scan_line U ?line 0 0 sc = scan_line U ?line (length (CHR ''$'' # t)) 0 ?sc"
    by (rule scan_line_turn [rotated]) simp
  also have "\<dots> = scan_line U ?line (length (CHR ''$'' # t @ p)) 0 ?sc"
    using scan_line_skip [of ?sc p U "CHR ''$'' # t" "'';''" 0] assms(1) by simp
  also have "\<dots> = scan_line U ?line (length ?line) (length ?line) ?after"
    by (rule scan_line_turn) (simp_all add: scan_step_def nth_append)
  finally show ?thesis using assms(2,4) by (simp add: split_line_def)
qed

lemma split_dollar_body:
  assumes tag: "match_dollar_tag U (CHR ''$'' # t) 0 = Some (CHR ''$'' # t)" "CHR ''-'' \<notin> set t"
    and hp: "list_all skippable h" "list_all skippable p"
    and body: "list_all (\<lambda>l. \<not> sublist (CHR ''$'' # t) l \<and> NL \<notin> set l) body"
    and nl: "NL \<notin> set (h @ t @ p)"
    and script: "script = join [NL] ((h @ CHR ''$'' # t) # body @ [CHR ''$'' # t @ p @ '';''])"
    and ne: "\<not> is_empty_statement (trim_space script)"
  shows "split_sql_statements U script = Inr [trim_space script]"
proof -
  let ?open = "h @ CHR ''$'' # t" and ?close = "CHR ''$'' # t @ p @ '';''"
  let ?sc1 = "init_scanner\<lparr>sc_state := InDollarQuote, dollar_tag := CHR ''$'' # t, buf := ?open @ [NL]\<rparr>"
  let ?sc2 = "?sc1\<lparr>buf := ?open @ NL # concat (map (\<lambda>l. l @ [NL]) body)\<rparr>"
  have i: "sc_state init_scanner = Normal" "\<not> in_statement_block init_scanner" "buf init_scanner = []"
    "statements init_scanner = []" by (simp_all add: init_scanner_def)
  have whole: "script = buf ?sc2 @ ?close"
    using script join_snoc [of NL "?open # body" ?close] by simp
  have "split_on NL script = ?open # body @ [?close]"
    unfolding script by (rule split_on_join) (use nl body in \<open>auto simp: list_all_iff\<close>)
  then have "split_lines U (split_on NL script) init_scanner = split_lines U (body @ [?close]) ?sc1"
    using split_line_open_dollar [OF tag(1) hp(1) tag(2) i(1,2)] i(3) by simp
  also have "\<dots> = split_lines U [?close] ?sc2"
    by (subst split_lines_quiet) (use body i in \<open>auto simp: list_all_iff quiet_def\<close>)
  also have "\<dots> = append_statement (?sc2\<lparr>sc_state := Normal, dollar_tag := [], buf := script\<rparr>)"
    using split_line_close_dollar [OF hp(2), of ?sc2 t U] i whole by simp
  finally have e: "split_lines U (split_on NL script) init_scanner = \<dots>" .
  have "statements_of [script] = [trim_space script]" using ne by (simp add: statements_of_def)
  then show ?thesis
    using e i by (simp add: split_sql_statements_def Let_def append_statement_statements)
qed

section \<open>Statements are worth executing\<close>

lemma split_statements_proper:
  assumes "split_sql_statements U script = Inr stmts" "s \<in> set stmts"
  shows "trim_space s = s" "\<not> is_empty_statement s" "s \<noteq> []"
proof -
  obtain cs where "stmts = statements_of cs" using split_sql_statements_chunks [OF assms(1)] by blast
  with assms(2) show "trim_space s = s" "\<not> is_empty_statement s" by (auto simp: statements_of_def)
  then show "s \<noteq> []" by (auto simp: is_empty_statement_def trim_set_def)
qed

section \<open>Unclosed blocks\<close>

text \<open>The splitter fails on nothing but an unclosed block, and never without an opening marker.\<close>

lemma split_line_no_begin:
  "trim_space line \<noteq> statement_begin_line \<Longrightarrow> \<not> in_statement_block sc \<Longrightarrow>
     \<not> in_statement_block (split_line U line l sc)"
  by (auto simp: split_line_def dest: scan_line_block split: prod.splits)

lemma split_lines_no_begin:
  "list_all (\<lambda>l. trim_space l \<noteq> statement_begin_line) ls \<Longrightarrow> \<not> in_statement_block sc \<Longrightarrow>
     \<not> in_statement_block (split_lines U ls sc)"
  by (induction ls arbitrary: sc) (auto simp: split_line_no_begin)

lemma split_total_without_begin:
  assumes "list_all (\<lambda>l. trim_space l \<noteq> statement_begin_line) (split_on NL script)"
  obtains stmts where "split_sql_statements U script = Inr stmts"
  using split_lines_no_begin [OF assms, of init_scanner U]
  by (auto simp: split_sql_statements_def Let_def init_scanner_def)

section \<open>The line that is too long\<close>

text \<open>
  \<open>is_only_comments\<close> reads lines through a scanner that gives up on a line of 64 KiB or more, and
  takes giving up for the end of the text: a statement whose first line is that long counts as
  nothing but comments and is dropped.
\<close>

lemma is_only_comments_long:
  "NL \<notin> set s \<Longrightarrow> max_scan_token_size \<le> length s \<Longrightarrow> is_only_comments s"
  by (simp add: is_only_comments_def split_on_single)

text \<open>
  A line of words and single-quoted literals: before each literal a text that is skipped and does not end in the
  letter that makes the literal an escape string, and in the literal anything but a quote.
\<close>

definition literal_ok :: "string \<times> string \<Rightarrow> bool" where
  "literal_ok hq \<longleftrightarrow>
     (case hq of (h, q) \<Rightarrow> h \<noteq> [] \<and> list_all skippable h \<and> last h \<notin> {CHR ''E'', CHR ''e''} \<and> SQ \<notin> set q)"

definition literal_line :: "(string \<times> string) list \<Rightarrow> string" where
  "literal_line hqs = concat (map (\<lambda>(h, q). h @ SQ # q @ [SQ]) hqs)"

lemma scan_line_in_literal:
  assumes "sc_state sc = InSingleQuote" "\<not> escape_string sc" "SQ \<notin> set q"
  shows "scan_line U (a @ q @ b) (length a) seg sc = scan_line U (a @ q @ b) (length (a @ q)) seg sc"
  using assms(3)
proof (induction q arbitrary: a)
  case (Cons c q)
  have "scan_step U (a @ (c # q) @ b) (length a) seg sc = Some (length a + 1, seg, sc)"
    using assms(1,2) Cons.prems by (auto simp: scan_step_def)
  then have "scan_line U (a @ (c # q) @ b) (length a) seg sc
      = scan_line U ((a @ [c]) @ q @ b) (length (a @ [c])) seg sc"
    by (subst scan_line_turn) auto
  with Cons.IH [of "a @ [c]"] Cons.prems show ?case by simp
qed simp

lemma scan_line_literal:
  assumes "sc_state sc = Normal" "\<not> escape_string sc" "literal_ok (h, q)" "b = [] \<or> hd b \<noteq> SQ"
  shows "scan_line U (a @ (h @ SQ # q @ [SQ]) @ b) (length a) seg sc
    = scan_line U (a @ (h @ SQ # q @ [SQ]) @ b) (length (a @ h @ SQ # q @ [SQ])) seg sc"
proof -
  let ?line = "a @ (h @ SQ # q @ [SQ]) @ b" and ?in = "sc\<lparr>sc_state := InSingleQuote\<rparr>"
  have h: "h \<noteq> []" "list_all skippable h" "last h \<notin> {CHR ''E'', CHR ''e''}" "SQ \<notin> set q"
    using assms(3) by (simp_all add: literal_ok_def)
  have same: "?in\<lparr>sc_state := Normal, escape_string := False\<rparr> = sc" "sc\<lparr>sc_state := InSingleQuote, escape_string := False\<rparr> = ?in"
    using assms(1,2) by (cases sc; simp)+
  have "?line ! (length (a @ h) - 1) = last h"
    using h(1) by (cases h rule: rev_cases) (simp_all add: nth_append)
  then have plain: "is_escape_string_prefix ?line (length (a @ h)) = False"
    using h(3) by (simp add: is_escape_string_prefix_def)
  have "scan_line U ?line (length a) seg sc = scan_line U ?line (length (a @ h)) seg sc"
    using scan_line_skip [OF assms(1) h(2), of U a "SQ # q @ [SQ] @ b" seg] by simp
  also have "scan_step U ?line (length (a @ h)) seg sc = Some (length (a @ h) + 1, seg, ?in)"
    using assms(1) plain same(2) by (simp add: scan_step_def nth_append)
  then have "scan_line U ?line (length (a @ h)) seg sc = scan_line U ?line (length (a @ h) + 1) seg ?in"
    by (rule scan_line_turn [rotated]) simp
  also have "\<dots> = scan_line U ?line (length (a @ h @ SQ # q)) seg ?in"
    using scan_line_in_literal [of ?in q U "a @ h @ [SQ]" "SQ # b" seg] assms(2) h(4) by simp
  also have "scan_step U ?line (length (a @ h @ SQ # q)) seg ?in = Some (length (a @ h @ SQ # q) + 1, seg, sc)"
    using assms(2,4) same(1) by (cases b) (simp_all add: scan_step_def next_is_def nth_append)
  then have "scan_line U ?line (length (a @ h @ SQ # q)) seg ?in = scan_line U ?line (length (a @ h @ SQ # q) + 1) seg sc"
    by (rule scan_line_turn [rotated]) simp
  finally show ?thesis by simp
qed

lemma literal_line_Cons: "literal_line ((h, q) # hqs) = (h @ SQ # q @ [SQ]) @ literal_line hqs"
  by (simp add: literal_line_def)

lemma skippable_not_quote: "list_all skippable s \<Longrightarrow> s \<noteq> [] \<Longrightarrow> hd s \<noteq> SQ"
  by (cases s) (auto simp: skippable_def plain_char_def)

lemma scan_line_literals:
  assumes "sc_state sc = Normal" "\<not> escape_string sc" "list_all literal_ok hqs" "b = [] \<or> hd b \<noteq> SQ"
  shows "scan_line U (a @ literal_line hqs @ b) (length a) seg sc
    = scan_line U (a @ literal_line hqs @ b) (length (a @ literal_line hqs)) seg sc"
  using assms(3)
proof (induction hqs arbitrary: a)
  case (Cons hq hqs)
  obtain h q where hq: "hq = (h, q)" by force
  have "literal_line hqs @ b = [] \<or> hd (literal_line hqs @ b) \<noteq> SQ"
  proof (cases hqs)
    case (Cons kq kqs)
    with \<open>list_all literal_ok (hq # hqs)\<close> show ?thesis
      by (cases kq) (auto simp: literal_ok_def literal_line_Cons skippable_not_quote)
  qed (simp add: literal_line_def assms(4))
  from scan_line_literal [OF assms(1,2) _ this, of h q U a seg] Cons.prems
    Cons.IH [of "a @ h @ SQ # q @ [SQ]"]
  show ?case by (simp add: hq literal_line_Cons)
qed (simp add: literal_line_def)

lemma split_long_line_dropped:
  assumes "list_all literal_ok hqs" "list_all skippable p" "e \<in> {[], '';''}" "line = literal_line hqs @ p @ e"
    and "NL \<notin> set line" "max_scan_token_size \<le> length (trim_space line)"
  shows "split_sql_statements U line = Inr []"
proof -
  let ?i = init_scanner
  have i: "sc_state ?i = Normal" "\<not> escape_string ?i" "\<not> in_statement_block ?i" "buf ?i = []" "statements ?i = []"
    by (simp_all add: init_scanner_def)
  have "NL \<notin> set (trim_space line)" using assms(5) trim_space_set by blast
  then have "is_only_comments (trim_space line)" using assms(6) by (rule is_only_comments_long)
  then have none: "statements_of [line] = []" by (simp add: statements_of_def is_empty_statement_def)
  have "\<not> marker_line line"
    using assms(6) by (auto simp: marker_line_def max_scan_token_size_def directive_tokens)
  then have line: "split_lines U (split_on NL line) ?i
      = (case scan_line U line 0 0 ?i of (seg, sc) \<Rightarrow> sc\<lparr>buf := buf sc @ drop seg line\<rparr>)"
    using assms(5) i by (simp add: split_on_single split_line_def marker_line_def)
  have pe: "p @ e = [] \<or> hd (p @ e) \<noteq> SQ"
    using assms(2,3) skippable_not_quote [of p] by (cases p) auto
  have "scan_line U line 0 0 ?i = scan_line U line (length (literal_line hqs)) 0 ?i"
    using scan_line_literals [OF i(1,2) assms(1) pe, of U "[]" 0] by (simp add: assms(4))
  also have "\<dots> = scan_line U line (length (literal_line hqs @ p)) 0 ?i"
    using scan_line_skip [OF i(1) assms(2), of U "literal_line hqs" e 0] by (simp add: assms(4))
  finally have scan: "scan_line U line 0 0 ?i = scan_line U line (length (literal_line hqs @ p)) 0 ?i" .
  have "statements (append_statement (split_lines U (split_on NL line) ?i)) = [] \<and>
      \<not> in_statement_block (split_lines U (split_on NL line) ?i)"
  proof (cases "e = []")
    case True
    then have "scan_line U line 0 0 ?i = (0, ?i)" using scan by (simp add: assms(4))
    then show ?thesis using i none unfolding line by (simp add: append_statement_statements)
  next
    case False
    then have e: "e = '';''" using assms(3) by simp
    let ?sc = "append_statement (?i\<lparr>buf := line\<rparr>)"
    have "scan_step U line (length (literal_line hqs @ p)) 0 ?i = Some (length line, length line, ?sc)"
      using i by (simp add: scan_step_def assms(4) e nth_append)
    then have "scan_line U line 0 0 ?i = scan_line U line (length line) (length line) ?sc"
      unfolding scan by (rule scan_line_turn [rotated]) (simp add: assms(4) e)
    then have "scan_line U line 0 0 ?i = (length line, ?sc)" by simp
    then show ?thesis using i none unfolding line by (simp add: append_statement_statements)
  qed
  then show ?thesis by (simp add: split_sql_statements_def Let_def)
qed

end
