(* ===== verification/Script_Parser.thy ===== *)
theory Script_Parser
  imports Splitter_Props Planner
begin

text \<open>
  \<open>internal/source/parser.go\<close>: validation of one script file, and the migration made of a pair. The
  parameter \<open>U\<close> is the character tables that the statement splitter needs.
\<close>

definition parse_script :: "unicode \<Rightarrow> string \<Rightarrow> string \<Rightarrow> bool \<Rightarrow> string result" where
  "parse_script U filename content allow_irreversible =
     (let script = trim_space content in
      case parse_directive_header script of
        Inl e \<Rightarrow> Inl (wrapf [Lit ''migration file '', Lit filename, Lit '': ''] e)
      | Inr (directives, body) \<Rightarrow>
          (case validate_statement_blocks U body of
             Inl e \<Rightarrow> Inl (wrapf [Lit ''migration file '', Lit filename, Lit '': ''] e)
           | Inr _ \<Rightarrow>
               let irreversible = has_directive directives directive_irreversible;
                   has_sql = trim_space body \<noteq> []
               in if irreversible \<and> \<not> allow_irreversible then
                    Inl (Errorf [Lit ''migration file '', Lit filename, Lit '': the '', Quo directive_irreversible,
                           Lit '' directive only belongs in a '', Lit down_file_suffix, Lit '' file''])
                  else if irreversible \<and> has_sql then
                    Inl (Errorf [Lit ''migration file '', Lit filename, Lit '': marked '', Quo directive_irreversible,
                           Lit '' but still contains SQL; a migration is either reversible or not''])
                  else if irreversible then Inr script
                  else if \<not> has_sql \<and> allow_irreversible then
                    Inl (Errorf [Lit ''migration file '', Lit filename,
                           Lit '': contains no SQL; write the rollback, or state that there is none with a first line of '',
                           Quo (directive_header_for directive_irreversible)])
                  else if \<not> has_sql then
                    Inl (Errorf [Lit ''migration file '', Lit filename, Lit '': contains no SQL''])
                  else Inr script))"

definition zero_time :: int where "zero_time = 0"

definition parse_migration_pair :: "unicode \<Rightarrow> string \<Rightarrow> string \<Rightarrow> string \<Rightarrow> migration result" where
  "parse_migration_pair U i up_content down_content =
     (case parse_script U (i @ up_file_suffix) up_content False of
        Inl e \<Rightarrow> Inl e
      | Inr up \<Rightarrow>
          (case parse_script U (i @ down_file_suffix) down_content True of
             Inl e \<Rightarrow> Inl e
           | Inr down \<Rightarrow>
               Inr \<lparr>mig_applied_at = zero_time, mig_id = i, mig_up_script = up, mig_down_script = down\<rparr>))"

declare parse_script_def [go_eval] parse_migration_pair_def [go_eval] zero_time_def [go_eval]
declare up_file_suffix_def [go_eval] down_file_suffix_def [go_eval]

section \<open>What an accepted script is\<close>

text \<open>
  A script the loader accepts: it parses, its blocks are closed, and it either carries the
  \<open>irreversible\<close> directive and no SQL, which is allowed in the down half only, or has SQL and does
  not carry the directive.
\<close>

definition accepted_script :: "unicode \<Rightarrow> bool \<Rightarrow> string \<Rightarrow> bool" where
  "accepted_script U allow_irreversible script =
     (case parse_directive_header script of
        Inl _ \<Rightarrow> False
      | Inr (directives, body) \<Rightarrow>
          is_ok (split_sql_statements U body)
          \<and> (if has_directive directives directive_irreversible
             then allow_irreversible \<and> trim_space body = [] else trim_space body \<noteq> []))"

lemma is_ok_iff: "is_ok r \<longleftrightarrow> (\<exists>x. r = Inr x)"
  by (cases r) auto

lemma validate_statement_blocks_Inr:
  "validate_statement_blocks U body = Inr u \<longleftrightarrow> is_ok (split_sql_statements U body)"
  by (auto simp: validate_statement_blocks_def is_ok_iff split: sum.splits)

lemma validate_statement_blocks_is_ok:
  "is_ok (validate_statement_blocks U body) \<longleftrightarrow> is_ok (split_sql_statements U body)"
  by (auto simp: validate_statement_blocks_def is_ok_iff split: sum.splits)

lemma parse_script_Inr:
  "parse_script U filename content allow = Inr script \<longleftrightarrow>
     script = trim_space content \<and> accepted_script U allow script"
proof (cases "parse_directive_header (trim_space content)")
  case (Inl e)
  then show ?thesis by (auto simp: parse_script_def accepted_script_def Let_def)
next
  case (Inr db)
  obtain d b where db: "db = (d, b)" by force
  have "is_ok (validate_statement_blocks U b) \<longleftrightarrow> is_ok (split_sql_statements U b)"
    by (rule validate_statement_blocks_is_ok)
  then show ?thesis
    using Inr db
    by (cases "validate_statement_blocks U b") (auto simp: parse_script_def accepted_script_def Let_def)
qed

lemma parse_migration_pair_Inr:
  "parse_migration_pair U i up down = Inr m \<longleftrightarrow>
     m = \<lparr>mig_applied_at = zero_time, mig_id = i, mig_up_script = trim_space up, mig_down_script = trim_space down\<rparr>
     \<and> accepted_script U False (trim_space up) \<and> accepted_script U True (trim_space down)"
proof (cases "parse_script U (i @ up_file_suffix) up False")
  case (Inl e)
  then have "\<not> accepted_script U False (trim_space up)"
    using parse_script_Inr [of U "i @ up_file_suffix" up False "trim_space up"] by simp
  with Inl show ?thesis by (simp add: parse_migration_pair_def)
next
  case (Inr u)
  then have u: "u = trim_space up" "accepted_script U False (trim_space up)"
    by (auto simp: parse_script_Inr)
  show ?thesis
  proof (cases "parse_script U (i @ down_file_suffix) down True")
    case (Inl e)
    then have "\<not> accepted_script U True (trim_space down)"
      using parse_script_Inr [of U "i @ down_file_suffix" down True "trim_space down"] by simp
    with Inl Inr show ?thesis by (simp add: parse_migration_pair_def)
  next
    case (Inr d)
    then have "d = trim_space down" "accepted_script U True (trim_space down)"
      by (auto simp: parse_script_Inr)
    with Inr u \<open>parse_script U (i @ up_file_suffix) up False = Inr u\<close> show ?thesis
      by (auto simp: parse_migration_pair_def)
  qed
qed

text \<open>The loader accepts what it has accepted: storing a script and loading it again is stable.\<close>

lemma parse_script_stable:
  "parse_script U filename content allow = Inr script \<Longrightarrow> parse_script U filename' script allow = Inr script"
  by (auto simp: parse_script_Inr)

end
