(* ===== verification/Executor.thy ===== *)
theory Executor
  imports Sql_Database Script_Parser
begin

text \<open>
  \<open>internal/migrator/custom_executor.go\<close>, the \<open>CustomExecutor\<close>: applying and rolling back migrations and
  keeping the bookkeeping rows, over a database \<open>D\<close> and a table reference \<open>ref\<close>.
\<close>

record applied_migration =
  am_id :: string
  am_applied_at :: int
  am_error :: "string option"
  am_down_script :: string

record execution_result =
  ex_applied :: "migration list"
  ex_rolled_back :: "migration list"

definition new_custom_executor :: "table_config \<Rightarrow> table_ref result" where
  "new_custom_executor table =
     (case resolve table of Inl e \<Rightarrow> Inl e | Inr ref \<Rightarrow> Inr ref)"

section \<open>The table\<close>

definition ensure_migrations_table :: "'w sql_db \<Rightarrow> table_ref \<Rightarrow> ctx \<Rightarrow> ('w, unit) io" where
  "ensure_migrations_table D ref c =
     go_try (exec_db D c (create_sql ref) []) [Lit ''create migrations table '', Lit ref, Lit '': ''] (\<lambda>_. ret ())"

definition no_rows :: goerr where
  "no_rows = Extern ''sql: no rows in result set''"

definition table_exists :: "'w sql_db \<Rightarrow> table_ref \<Rightarrow> ctx \<Rightarrow> ('w, bool) io" where
  "table_exists D ref c =
     go_try
       (go_bind (first_row (db_query D c exists_sql [TextArg ref]))
          (\<lambda>r. case r of None \<Rightarrow> fail no_rows | Some cells \<Rightarrow> of_result (scan_bool cells)))
       [Lit ''check for migrations table '', Lit ref, Lit '': ''] ret"

definition delete_record :: "'w sql_db \<Rightarrow> table_ref \<Rightarrow> ctx \<Rightarrow> string \<Rightarrow> ('w, bool) io" where
  "delete_record D ref c i =
     go_try (exec_db D c (delete_sql ref) [TextArg i]) [Lit ''delete migration record: ''] (\<lambda>affected.
       case affected of
         Inl t \<Rightarrow> fail (wrapf [Lit ''count deleted rows: ''] (Extern t))
       | Inr n \<Rightarrow> ret (0 < n))"

fun scan_applied :: "cell list \<Rightarrow> applied_migration result" where
  "scan_applied [CText i, CTime t, e, CText down] =
     (case e of
        CNull \<Rightarrow> Inr \<lparr>am_id = i, am_applied_at = t, am_error = None, am_down_script = down\<rparr>
      | CText x \<Rightarrow> Inr \<lparr>am_id = i, am_applied_at = t, am_error = Some x, am_down_script = down\<rparr>
      | _ \<Rightarrow> Inl scan_mismatch)"
| "scan_applied _ = Inl scan_mismatch"

fun scan_all :: "cell list list \<Rightarrow> applied_migration list \<Rightarrow> applied_migration list result" where
  "scan_all [] migrations = Inr migrations"
| "scan_all (r # rs) migrations =
     (case scan_applied r of
        Inl e \<Rightarrow> Inl (wrapf [Lit ''scan migration: ''] e)
      | Inr m \<Rightarrow> scan_all rs (migrations @ [m]))"

definition get_applied_migrations :: "'w sql_db \<Rightarrow> table_ref \<Rightarrow> ctx \<Rightarrow> ('w, applied_migration list) io" where
  "get_applied_migrations D ref c =
     go_try (lift_sql (db_query D c (select_all_sql ref) [])) [Lit ''query migrations: ''] (\<lambda>rows.
       case scan_all (rows_data rows) [] of
         Inl e \<Rightarrow> fail e
       | Inr migrations \<Rightarrow>
           (case rows_err rows of
              Some t \<Rightarrow> fail (wrapf [Lit ''rows error: ''] (Extern t))
            | None \<Rightarrow> ret migrations))"

section \<open>Pinned connections\<close>

text \<open>\<open>sqlconn.Destroy\<close> (internal/sqlconn/sqlconn.go), which \<open>releaseConn\<close> calls.\<close>

definition destroy :: "'w sql_db \<Rightarrow> nat \<Rightarrow> 'w \<Rightarrow> 'w" where
  "destroy D n w = fst (conn_close D n (conn_raw_close D n w))"

definition release_conn :: "'w sql_db \<Rightarrow> nat \<Rightarrow> 'w \<Rightarrow> 'w" where
  "release_conn D n = destroy D n"

definition on_pinned_conn :: "'w sql_db \<Rightarrow> ctx \<Rightarrow> (nat \<Rightarrow> ('w, unit) io) \<Rightarrow> ('w, unit) io" where
  "on_pinned_conn D c fn =
     io_handle (lift_sql (db_conn D c))
       (\<lambda>e. fail (Errorf [Wrap (Sent ErrNoPinnedConn),
                          Lit '': get dedicated connection for notransaction script: '', Wrap e]))
       (\<lambda>conn. go_defer (release_conn D conn) (fn conn))"

fun run_statements :: "'w sql_db \<Rightarrow> ctx \<Rightarrow> nat \<Rightarrow> int \<Rightarrow> string list \<Rightarrow> ('w, unit) io" where
  "run_statements D c conn i [] = ret ()"
| "run_statements D c conn i (s # ss) =
     (let stmt = trim_space s
      in if stmt = [] then run_statements D c conn (i + 1) ss
         else go_try (exec_conn D conn c stmt []) [Lit ''statement '', Num (i + 1), Lit '' failed: '']
                (\<lambda>_. run_statements D c conn (i + 1) ss))"

section \<open>Applying\<close>

definition unrecorded :: "string \<Rightarrow> string \<Rightarrow> goerr \<Rightarrow> goerr" where
  "unrecorded i what e = Errorf [Wrap (Sent ErrUnrecorded), Lit '': migration '', Lit i, Lit what, Wrap e]"

text \<open>The bookkeeping write of \<open>applyWithoutTransaction\<close>, detached from the caller's context.\<close>

definition record_outcome :: "'w sql_db \<Rightarrow> table_ref \<Rightarrow> migration \<Rightarrow> goerr option \<Rightarrow> ('w, unit) io" where
  "record_outcome D ref m execution_error =
     io_handle
       (exec_db D Detached (insert_sql ref)
          [TextArg (mig_id m), TextArg (mig_up_script m), TextArg (mig_down_script m),
           null_string (map_option error_string execution_error)])
       (\<lambda>ins_err. fail (Joined ((case execution_error of None \<Rightarrow> [] | Some e \<Rightarrow> [e]) @
          [unrecorded (mig_id m) '' ran outside a transaction but its bookkeeping row could not be written: '' ins_err])))
       (\<lambda>_. case execution_error of None \<Rightarrow> ret () | Some e \<Rightarrow> fail e)"

definition apply_without_transaction ::
  "'w sql_db \<Rightarrow> unicode \<Rightarrow> table_ref \<Rightarrow> ctx \<Rightarrow> migration \<Rightarrow> string \<Rightarrow> ('w, unit) io" where
  "apply_without_transaction D U ref c m up_sql =
     (case split_sql_statements U up_sql of
        Inl e \<Rightarrow> fail (wrapf [Lit ''split up script for '', Lit (mig_id m), Lit '': ''] e)
      | Inr stmts \<Rightarrow>
          io_handle (on_pinned_conn D c (\<lambda>conn. run_statements D c conn 0 stmts))
            (\<lambda>e. if error_is e ErrNoPinnedConn then fail e else record_outcome D ref m (Some e))
            (\<lambda>_. record_outcome D ref m None))"

definition apply_migration :: "'w sql_db \<Rightarrow> unicode \<Rightarrow> table_ref \<Rightarrow> ctx \<Rightarrow> migration \<Rightarrow> ('w, unit) io" where
  "apply_migration D U ref c m =
     (case parse_directive_header (mig_up_script m) of
        Inl e \<Rightarrow> fail (wrapf [Lit ''parse up script for '', Lit (mig_id m), Lit '': ''] e)
      | Inr (directives, up_sql) \<Rightarrow>
          if has_directive directives directive_no_transaction then apply_without_transaction D U ref c m up_sql
          else
            go_try (lift_sql (db_begin D c)) [Lit ''begin transaction: ''] (\<lambda>tx.
            go_defer (tx_rollback D tx)
              (go_try (exec_tx D tx c up_sql []) [Lit ''execute up script: ''] (\<lambda>_.
               go_try (exec_tx D tx c (insert_null_sql ref)
                         [TextArg (mig_id m), TextArg (mig_up_script m), TextArg (mig_down_script m)])
                      [Lit ''insert migration record: ''] (\<lambda>_.
               go_try (lift_sql (tx_commit D tx)) [Lit ''commit transaction: ''] (\<lambda>_. ret ()))))))"

fun record_rows :: "'w sql_db \<Rightarrow> table_ref \<Rightarrow> ctx \<Rightarrow> nat \<Rightarrow> migration list \<Rightarrow> ('w, unit) io" where
  "record_rows D ref c tx [] = ret ()"
| "record_rows D ref c tx (m # ms) =
     go_try (exec_tx D tx c (insert_null_sql ref)
               [TextArg (mig_id m), TextArg (mig_up_script m), TextArg (mig_down_script m)])
            [Lit ''record '', Lit (mig_id m), Lit '' as applied: ''] (\<lambda>_. record_rows D ref c tx ms)"

definition record_applied :: "'w sql_db \<Rightarrow> table_ref \<Rightarrow> ctx \<Rightarrow> migration list \<Rightarrow> ('w, unit) io" where
  "record_applied D ref c migrations =
     (if migrations = [] then ret ()
      else go_try (lift_sql (db_begin D c)) [Lit ''begin transaction: ''] (\<lambda>tx.
           go_defer (tx_rollback D tx)
             (go_bind (record_rows D ref c tx migrations) (\<lambda>_.
              go_try (lift_sql (tx_commit D tx)) [Lit ''commit transaction: ''] (\<lambda>_. ret ())))))"

section \<open>Rolling back\<close>

text \<open>\<open>QueryRowContext(selectDown, id).Scan(&downScript)\<close>; \<open>None\<close> is \<open>sql.ErrNoRows\<close>.\<close>

definition select_down :: "'w sql_db \<Rightarrow> table_ref \<Rightarrow> ctx \<Rightarrow> string \<Rightarrow> ('w, string option) io" where
  "select_down D ref c i =
     go_bind (first_row (db_query D c (select_down_sql ref) [TextArg i]))
       (\<lambda>r. case r of None \<Rightarrow> ret None | Some cells \<Rightarrow> go_bind (of_result (scan_text cells)) (\<lambda>s. ret (Some s)))"

definition mark_failed :: "'w sql_db \<Rightarrow> table_ref \<Rightarrow> string \<Rightarrow> goerr \<Rightarrow> ('w, unit) io" where
  "mark_failed D ref i cause =
     io_handle (exec_db D Detached (update_error_sql ref) [TextArg (error_string cause), TextArg i])
       (\<lambda>e. fail (unrecorded i '' failed to roll back and the failure could not be recorded either: '' e))
       (\<lambda>_. ret ())"

definition rollback_without_transaction ::
  "'w sql_db \<Rightarrow> unicode \<Rightarrow> table_ref \<Rightarrow> ctx \<Rightarrow> string \<Rightarrow> string \<Rightarrow> ('w, unit) io" where
  "rollback_without_transaction D U ref c i down_sql =
     (case split_sql_statements U down_sql of
        Inl e \<Rightarrow> fail (wrapf [Lit ''split down script for '', Lit i, Lit '': ''] e)
      | Inr stmts \<Rightarrow>
          io_handle (on_pinned_conn D c (\<lambda>conn. run_statements D c conn 0 stmts))
            (\<lambda>exec_err.
               if error_is exec_err ErrNoPinnedConn then fail exec_err
               else io_handle (mark_failed D ref i exec_err)
                      (\<lambda>mark_err. fail (Joined [exec_err, mark_err]))
                      (\<lambda>_. fail (wrapf [Lit ''execute down script: ''] exec_err)))
            (\<lambda>_.
               io_handle (exec_db D Detached (delete_sql ref) [TextArg i])
                 (\<lambda>e. fail (unrecorded i '' was rolled back but its bookkeeping row could not be removed: '' e))
                 (\<lambda>_. ret ())))"

definition rollback_migration :: "'w sql_db \<Rightarrow> unicode \<Rightarrow> table_ref \<Rightarrow> ctx \<Rightarrow> string \<Rightarrow> ('w, unit) io" where
  "rollback_migration D U ref c i =
     go_try (select_down D ref c i) [Lit ''get down script for '', Lit i, Lit '': ''] (\<lambda>down.
       case down of
         None \<Rightarrow> fail (Errorf [Lit ''migration '', Lit i, Lit '' not found in database''])
       | Some down_script \<Rightarrow>
           (case parse_directive_header down_script of
              Inl e \<Rightarrow> fail (wrapf [Lit ''parse stored down script for '', Lit i, Lit '': ''] e)
            | Inr (directives, down_sql) \<Rightarrow>
                if has_directive directives directive_no_transaction
                then rollback_without_transaction D U ref c i down_sql
                else
                  go_try (lift_sql (db_begin D c)) [Lit ''begin transaction: ''] (\<lambda>tx.
                  go_defer (tx_rollback D tx)
                    (go_try (exec_tx D tx c down_sql []) [Lit ''execute down script: ''] (\<lambda>_.
                     go_try (exec_tx D tx c (delete_sql ref) [TextArg i]) [Lit ''delete migration record: ''] (\<lambda>_.
                     go_try (lift_sql (tx_commit D tx)) [Lit ''commit transaction: ''] (\<lambda>_. ret ())))))))"

text \<open>The loop of \<open>EnsureReversible\<close>, which collects the irreversible ones.\<close>

fun collect_irreversible :: "'w sql_db \<Rightarrow> table_ref \<Rightarrow> ctx \<Rightarrow> string list \<Rightarrow> string list \<Rightarrow> ('w, string list) io" where
  "collect_irreversible D ref c [] irreversible = ret irreversible"
| "collect_irreversible D ref c (i # is) irreversible =
     go_try (select_down D ref c i) [Lit ''get down script for '', Lit i, Lit '': ''] (\<lambda>down.
       case down of
         None \<Rightarrow> collect_irreversible D ref c is irreversible
       | Some down_script \<Rightarrow>
           (case parse_directive_header down_script of
              Inl e \<Rightarrow> fail (wrapf [Lit ''parse stored down script for '', Lit i, Lit '': ''] e)
            | Inr (directives, _) \<Rightarrow>
                collect_irreversible D ref c is
                  (if has_directive directives directive_irreversible then irreversible @ [i] else irreversible)))"

definition ensure_reversible :: "'w sql_db \<Rightarrow> table_ref \<Rightarrow> ctx \<Rightarrow> string list \<Rightarrow> ('w, unit) io" where
  "ensure_reversible D ref c is =
     (if is = [] then ret ()
      else go_bind (collect_irreversible D ref c is []) (\<lambda>irreversible.
        if irreversible \<noteq> [] then
          fail (Errorf [Wrap (Sent ErrIrreversible), Lit '': '', Lit (join '', '' irreversible),
                  Lit ''; undo the change by hand, then remove the row(s) from '', Lit ref])
        else ret ()))"

section \<open>Executing a plan\<close>

fun rollback_all :: "'w sql_db \<Rightarrow> unicode \<Rightarrow> table_ref \<Rightarrow> ctx \<Rightarrow> migration list \<Rightarrow> ('w \<times> execution_result, unit) io" where
  "rollback_all D U ref c [] = ret ()"
| "rollback_all D U ref c (m # ms) =
     go_try (on_state (rollback_migration D U ref c (mig_id m))) [Lit ''rollback '', Lit (mig_id m), Lit '' failed: ''] (\<lambda>_.
     go_bind (modify (\<lambda>(w, result). (w, result\<lparr>ex_rolled_back := ex_rolled_back result @ [m]\<rparr>))) (\<lambda>_.
     rollback_all D U ref c ms))"

fun apply_all :: "'w sql_db \<Rightarrow> unicode \<Rightarrow> table_ref \<Rightarrow> ctx \<Rightarrow> id_map \<Rightarrow> migration list \<Rightarrow> ('w \<times> execution_result, unit) io" where
  "apply_all D U ref c all_migrations_map [] = ret ()"
| "apply_all D U ref c all_migrations_map (m # ms) =
     (case all_migrations_map (mig_id m) of
        None \<Rightarrow> fail (Errorf [Lit ''migration '', Lit (mig_id m), Lit '' not found in files''])
      | Some full_migration \<Rightarrow>
          go_try (on_state (apply_migration D U ref c full_migration)) [Lit ''apply '', Lit (mig_id m), Lit '' failed: ''] (\<lambda>_.
          go_bind (modify (\<lambda>(w, result). (w, result\<lparr>ex_applied := ex_applied result @ [full_migration]\<rparr>))) (\<lambda>_.
          apply_all D U ref c all_migrations_map ms)))"

definition empty_execution :: execution_result where
  "empty_execution = \<lparr>ex_applied = [], ex_rolled_back = []\<rparr>"

definition execute_plan_body ::
  "'w sql_db \<Rightarrow> unicode \<Rightarrow> table_ref \<Rightarrow> ctx \<Rightarrow> migration_plan \<Rightarrow> migration list \<Rightarrow> ('w \<times> execution_result, unit) io" where
  "execute_plan_body D U ref c plan all_migrations =
     (if to_rollback plan = [] \<and> to_apply plan = [] then ret ()
      else go_bind (on_state (ensure_reversible D ref c (ids (to_rollback plan)))) (\<lambda>_.
           go_bind (rollback_all D U ref c (to_rollback plan)) (\<lambda>_.
           apply_all D U ref c (id_map all_migrations) (to_apply plan))))"

definition execute_plan ::
  "'w sql_db \<Rightarrow> unicode \<Rightarrow> table_ref \<Rightarrow> ctx \<Rightarrow> migration_plan \<Rightarrow> migration list \<Rightarrow> 'w \<Rightarrow> 'w \<times> execution_result \<times> goerr option" where
  "execute_plan D U ref c plan all_migrations w =
     (case execute_plan_body D U ref c plan all_migrations (w, empty_execution) of
        ((w', result), r) \<Rightarrow> (w', result, err_of r))"

end
