(* ===== verification/Service.thy ===== *)
theory Service
  imports Executor
begin

text \<open>
  \<open>internal/migrator/service.go\<close>: the operations of the migration service. Its three Go interfaces are
  records of functions: the source, what one call of \<open>GetMigrations\<close> answers; the executor, over the
  database state \<open>'w\<close>; the locker, which has a state \<open>'l\<close> of its own. Log output is not modelled.
\<close>

section \<open>Interfaces and results\<close>

record 'w migration_executor =
  x_ensure_table :: "ctx \<Rightarrow> ('w, unit) io"
  x_table_exists :: "ctx \<Rightarrow> ('w, bool) io"
  x_apply :: "ctx \<Rightarrow> migration \<Rightarrow> ('w, unit) io"
  x_record_applied :: "ctx \<Rightarrow> migration list \<Rightarrow> ('w, unit) io"
  x_rollback :: "ctx \<Rightarrow> string \<Rightarrow> ('w, unit) io"
  x_applied :: "ctx \<Rightarrow> ('w, applied_migration list) io"
  x_delete_record :: "ctx \<Rightarrow> string \<Rightarrow> ('w, bool) io"
  x_ensure_reversible :: "ctx \<Rightarrow> string list \<Rightarrow> ('w, unit) io"
  x_execute_plan :: "ctx \<Rightarrow> migration_plan \<Rightarrow> migration list \<Rightarrow> 'w \<Rightarrow> 'w \<times> execution_result option \<times> goerr option"

record ('w, 'l) locker =
  lk_acquire :: "ctx \<Rightarrow> ('w \<times> 'l, unit) io"
  lk_release :: "ctx \<Rightarrow> ('w \<times> 'l, unit) io"

record ('w, 'l) service =
  sv_source :: "migration list result"
  sv_executor :: "'w migration_executor"
  sv_locker :: "('w, 'l) locker"

record run_options =
  allow_rollback :: bool
  allow_interleaved :: bool
  allow_empty_source :: bool

record reconcile_analysis =
  ra_plan :: migration_plan
  ra_blocked_by :: "goerr option"

record migrate_result =
  res_applied :: "migration list"
  res_rolled_back :: "migration list"
  res_extras_left :: "migration list"
  res_interleaved :: "migration list"

definition empty_result :: migrate_result where
  "empty_result = \<lparr>res_applied = [], res_rolled_back = [], res_extras_left = [], res_interleaved = []\<rparr>"

type_synonym ('w, 'l, 'r) svc = "('w \<times> 'l) \<times> 'r"

definition on_executor :: "('w, 'a) io \<Rightarrow> (('w, 'l, 'r) svc, 'a) io" where
  "on_executor m = on_state (on_state m)"

definition set_result :: "('r \<Rightarrow> 'r) \<Rightarrow> (('w, 'l, 'r) svc, unit) io" where
  "set_result f = modify (\<lambda>(s, r). (s, f r))"

section \<open>Helpers\<close>

definition join_ids :: "migration list \<Rightarrow> string" where
  "join_ids ms = join '', '' (ids ms)"

definition with_lock :: "('w, 'l) service \<Rightarrow> ctx \<Rightarrow> (('w, 'l, 'r) svc, unit) io \<Rightarrow> (('w, 'l, 'r) svc, unit) io" where
  "with_lock S c fn =
     go_try (on_state (lk_acquire (sv_locker S) c)) [Lit ''acquire lock: ''] (\<lambda>_.
     go_defer (\<lambda>(s, r). (fst (lk_release (sv_locker S) c s), r)) fn)"

definition record_execution :: "migrate_result \<Rightarrow> execution_result option \<Rightarrow> migration_plan \<Rightarrow> migrate_result" where
  "record_execution result executed plan =
     (case executed of
        None \<Rightarrow> result
      | Some x \<Rightarrow>
          let applied_ids = set (ids (ex_applied x))
          in result\<lparr>res_applied := ex_applied x, res_rolled_back := ex_rolled_back x,
               res_interleaved := res_interleaved result @
                 filter (\<lambda>m. mig_id m \<in> applied_ids) (plan_interleaved plan)\<rparr>)"

definition failed_migrations :: "string list \<Rightarrow> goerr" where
  "failed_migrations failed =
     Errorf [Wrap (Sent ErrFailedMigrations), Lit '': '', Lit (join '', '' failed),
       Lit ''; the schema is in a state no migration describes, so nothing will be applied or rolled back until this is resolved by hand: inspect the recorded error and the stored down_script, bring the schema to a known state, then delete the row(s)'']"

definition refuse_if_failed :: "('w, 'l) service \<Rightarrow> ctx \<Rightarrow> ('w, unit) io" where
  "refuse_if_failed S c =
     go_try (x_applied (sv_executor S) c) [Lit ''get applied migrations: ''] (\<lambda>applied.
       let failed = map am_id (filter (\<lambda>m. am_error m \<noteq> None) applied)
       in if failed = [] then ret () else fail (failed_migrations failed))"

definition applied_migrations :: "('w, 'l) service \<Rightarrow> ctx \<Rightarrow> ('w, applied_migration list) io" where
  "applied_migrations S c =
     go_try (x_table_exists (sv_executor S) c) [Lit ''check migrations table: ''] (\<lambda>exists.
       if \<not> exists then ret []
       else go_try (x_applied (sv_executor S) c) [Lit ''get applied migrations: ''] ret)"

definition migration_of :: "applied_migration \<Rightarrow> migration" where
  "migration_of a =
     \<lparr>mig_applied_at = am_applied_at a, mig_id = am_id a, mig_up_script = [], mig_down_script = []\<rparr>"

definition service_get_migrations :: "('w, 'l) service \<Rightarrow> ctx \<Rightarrow> ('w, migration list \<times> migration list) io" where
  "service_get_migrations S c =
     go_try (of_result (sv_source S)) [Lit ''get migrations from files: ''] (\<lambda>from_files.
     go_bind (applied_migrations S c) (\<lambda>applied.
     ret (from_files, map migration_of applied)))"

definition blocked_by :: "migration_plan \<Rightarrow> migration list \<Rightarrow> run_options \<Rightarrow> goerr option" where
  "blocked_by plan from_files opts =
     (if from_files = [] \<and> to_rollback plan \<noteq> [] \<and> \<not> allow_empty_source opts then
        Some (Errorf [Wrap (Sent ErrEmptySource),
          Lit '': the source contains no migrations, which would roll back all '', Num (int (length (to_rollback plan))),
          Lit '' applied migration(s); check the path or the embed.FS root (go:embed usually needs fs.Sub)''])
      else if to_rollback plan \<noteq> [] \<and> \<not> allow_rollback opts then
        Some (Errorf [Wrap (Sent ErrDivergence), Lit '': '', Lit (join_ids (to_rollback plan))])
      else if plan_interleaved plan \<noteq> [] \<and> \<not> allow_interleaved opts then
        Some (Errorf [Wrap (Sent ErrInterleaved), Lit '': '', Lit (join_ids (plan_interleaved plan))])
      else None)"

fun migrations_through :: "migration list \<Rightarrow> string \<Rightarrow> migration list result" where
  "migrations_through [] through_id = Inl (Errorf [Wrap (Sent ErrBaselineNotFound), Lit '': '', Quo through_id])"
| "migrations_through (m # ms) through_id =
     (if mig_id m = through_id then Inr [m]
      else case migrations_through ms through_id of Inl e \<Rightarrow> Inl e | Inr through \<Rightarrow> Inr (m # through))"

section \<open>The operations\<close>

text \<open>
  \<open>ExecutePlan\<close> followed by \<open>record\<close>, as both \<open>Up\<close> and \<open>Reconcile\<close> do: the result is recorded before
  the error is looked at.
\<close>

definition execute_and_record ::
  "('w, 'l) service \<Rightarrow> ctx \<Rightarrow> migration_plan \<Rightarrow> migration list \<Rightarrow> migration_plan \<Rightarrow> (('w, 'l, migrate_result) svc, unit) io" where
  "execute_and_record S c execution_plan from_files plan =
     (\<lambda>((w, l), result).
        case x_execute_plan (sv_executor S) c execution_plan from_files w of
          (w', executed, exec_err) \<Rightarrow>
            (((w', l), record_execution result executed plan),
             case exec_err of Some e \<Rightarrow> Inl (wrapf [Lit ''execute plan: ''] e) | None \<Rightarrow> Inr ()))"

definition up_body :: "('w, 'l) service \<Rightarrow> ctx \<Rightarrow> (('w, 'l, migrate_result) svc, unit) io" where
  "up_body S c =
     go_try (on_executor (x_ensure_table (sv_executor S) c)) [Lit ''ensure migrations table: ''] (\<lambda>_.
     go_bind (on_executor (refuse_if_failed S c)) (\<lambda>_.
     go_try (on_executor (service_get_migrations S c)) [Lit ''get migrations: ''] (\<lambda>(from_files, from_db).
       let plan = build_plan from_files from_db False
       in go_bind (set_result (\<lambda>r. r\<lparr>res_extras_left := to_rollback plan\<rparr>)) (\<lambda>_.
          execute_and_record S c \<lparr>to_rollback = [], to_apply = to_apply plan, plan_interleaved = []\<rparr> from_files plan))))"

definition reconcile_body :: "('w, 'l) service \<Rightarrow> ctx \<Rightarrow> run_options \<Rightarrow> (('w, 'l, migrate_result) svc, unit) io" where
  "reconcile_body S c opts =
     go_try (on_executor (x_ensure_table (sv_executor S) c)) [Lit ''ensure migrations table: ''] (\<lambda>_.
     go_bind (on_executor (refuse_if_failed S c)) (\<lambda>_.
     go_try (on_executor (service_get_migrations S c)) [Lit ''get migrations: ''] (\<lambda>(from_files, from_db).
       let plan = build_plan from_files from_db True
       in case blocked_by plan from_files opts of
            Some blocked \<Rightarrow> fail blocked
          | None \<Rightarrow> execute_and_record S c plan from_files plan)))"

fun rollback_loop :: "('w, 'l) service \<Rightarrow> ctx \<Rightarrow> applied_migration list \<Rightarrow> (('w, 'l, migrate_result) svc, unit) io" where
  "rollback_loop S c [] = ret ()"
| "rollback_loop S c (a # as) =
     go_try (on_executor (x_rollback (sv_executor S) c (am_id a))) [Lit ''rollback '', Lit (am_id a), Lit '' failed: ''] (\<lambda>_.
     go_bind (set_result (\<lambda>r. r\<lparr>res_rolled_back := res_rolled_back r @ [migration_of a]\<rparr>)) (\<lambda>_.
     rollback_loop S c as))"

definition rollback_candidates :: "int \<Rightarrow> applied_migration list \<Rightarrow> applied_migration list" where
  "rollback_candidates count applied =
     (let rollback_count = (if count \<le> 0 \<or> int (length applied) < count then length applied else nat count)
      in drop (length applied - rollback_count) applied)"

definition rollback_body :: "('w, 'l) service \<Rightarrow> ctx \<Rightarrow> int \<Rightarrow> (('w, 'l, migrate_result) svc, unit) io" where
  "rollback_body S c count =
     go_try (on_executor (x_ensure_table (sv_executor S) c)) [Lit ''ensure migrations table: ''] (\<lambda>_.
     go_bind (on_executor (refuse_if_failed S c)) (\<lambda>_.
     go_try (on_executor (x_applied (sv_executor S) c)) [Lit ''get applied migrations: ''] (\<lambda>applied.
       if applied = [] then ret ()
       else
         let candidates = rollback_candidates count applied
         in go_try (on_executor (x_ensure_reversible (sv_executor S) c (map am_id candidates)))
              [Lit ''ensure reversible: ''] (\<lambda>_. rollback_loop S c (rev candidates)))))"

definition forget_body :: "('w, 'l) service \<Rightarrow> ctx \<Rightarrow> string \<Rightarrow> (('w, 'l, unit) svc, unit) io" where
  "forget_body S c i =
     go_try (on_executor (x_table_exists (sv_executor S) c)) [Lit ''check migrations table: ''] (\<lambda>exists.
       if \<not> exists then fail (Errorf [Lit ''forget '', Lit i, Lit '': no bookkeeping table exists''])
       else go_try (on_executor (x_delete_record (sv_executor S) c i)) [Lit ''forget '', Lit i, Lit '': ''] (\<lambda>forgotten.
         if \<not> forgotten then fail (Errorf [Lit ''forget '', Lit i, Lit '': no such migration is recorded'']) else ret ()))"

definition baseline_body :: "('w, 'l) service \<Rightarrow> ctx \<Rightarrow> string \<Rightarrow> (('w, 'l, migrate_result) svc, unit) io" where
  "baseline_body S c through_id =
     go_try (on_executor (x_ensure_table (sv_executor S) c)) [Lit ''ensure migrations table: ''] (\<lambda>_.
     go_try (on_executor (x_applied (sv_executor S) c)) [Lit ''get applied migrations: ''] (\<lambda>applied.
       if applied \<noteq> [] then
         fail (Errorf [Wrap (Sent ErrAlreadyRecorded), Lit '': '', Num (int (length applied)),
           Lit '' row(s), the most recent being '', Quo (am_id (last applied)),
           Lit ''; baseline is for adopting this tool on a database it has never managed''])
       else
         go_try (of_result (sv_source S)) [Lit ''get migrations from files: ''] (\<lambda>from_files.
         go_bind (of_result (migrations_through from_files through_id)) (\<lambda>to_record.
         go_try (on_executor (x_record_applied (sv_executor S) c to_record)) [Lit ''record baseline: ''] (\<lambda>_.
         set_result (\<lambda>r. r\<lparr>res_applied := to_record\<rparr>))))))"

definition run_service ::
  "(('w, 'l, migrate_result) svc, unit) io \<Rightarrow> 'w \<times> 'l \<Rightarrow> ('w \<times> 'l) \<times> migrate_result \<times> goerr option" where
  "run_service m s = (case m (s, empty_result) of ((s', result), r) \<Rightarrow> (s', result, err_of r))"

definition up :: "('w, 'l) service \<Rightarrow> ctx \<Rightarrow> 'w \<times> 'l \<Rightarrow> ('w \<times> 'l) \<times> migrate_result \<times> goerr option" where
  "up S c = run_service (with_lock S c (up_body S c))"

definition reconcile :: "('w, 'l) service \<Rightarrow> ctx \<Rightarrow> run_options \<Rightarrow> 'w \<times> 'l \<Rightarrow> ('w \<times> 'l) \<times> migrate_result \<times> goerr option" where
  "reconcile S c opts = run_service (with_lock S c (reconcile_body S c opts))"

definition rollback :: "('w, 'l) service \<Rightarrow> ctx \<Rightarrow> int \<Rightarrow> 'w \<times> 'l \<Rightarrow> ('w \<times> 'l) \<times> migrate_result \<times> goerr option" where
  "rollback S c count = run_service (with_lock S c (rollback_body S c count))"

definition baseline :: "('w, 'l) service \<Rightarrow> ctx \<Rightarrow> string \<Rightarrow> 'w \<times> 'l \<Rightarrow> ('w \<times> 'l) \<times> migrate_result \<times> goerr option" where
  "baseline S c through_id = run_service (with_lock S c (baseline_body S c through_id))"

definition forget :: "('w, 'l) service \<Rightarrow> ctx \<Rightarrow> string \<Rightarrow> 'w \<times> 'l \<Rightarrow> ('w \<times> 'l) \<times> goerr option" where
  "forget S c i s = (case with_lock S c (forget_body S c i) (s, ()) of ((s', _), r) \<Rightarrow> (s', err_of r))"

definition build_reconcile_plan :: "('w, 'l) service \<Rightarrow> ctx \<Rightarrow> run_options \<Rightarrow> ('w, reconcile_analysis) io" where
  "build_reconcile_plan S c opts =
     go_try (service_get_migrations S c) [Lit ''get migrations: ''] (\<lambda>(from_files, from_db).
       let plan = build_plan from_files from_db True
       in ret \<lparr>ra_plan = plan, ra_blocked_by = blocked_by plan from_files opts\<rparr>)"

end
