(* ===== verification/Lock.thy ===== *)
theory Lock
  imports Executor Service
begin

text \<open>
  \<open>internal/db/postgres.go\<close>: the advisory lock that every changing operation of the service takes, on
  one pinned session of the pool. A \<open>time.Duration\<close> is its nanoseconds. The mutex \<open>lockMu\<close> makes the two
  operations atomic, which a step of the model is by itself.
\<close>

definition default_lock_id :: int where "default_lock_id = 2718281828459045235"
definition default_lock_timeout :: int where "default_lock_timeout = 5000000000"
definition lock_timeout_err_code :: string where "lock_timeout_err_code = ''55P03''"

record postgres_config =
  cfg_dsn :: string
  cfg_host :: string
  cfg_port :: string
  cfg_user :: string
  cfg_password :: string
  cfg_db_name :: string
  cfg_ssl_mode :: string
  cfg_lock_timeout :: int
  cfg_lock_timeout_set :: bool
  cfg_lock_id :: int

text \<open>The settings of a \<open>Postgres\<close> and the fields that its operations change.\<close>

record postgres =
  pg_lock_timeout :: int
  pg_lock_id :: int

record lock_state =
  lock_conn :: "nat option"
  is_lock_acquired :: bool

definition new_postgres_from_db :: "postgres_config \<Rightarrow> postgres \<times> lock_state" where
  "new_postgres_from_db cfg =
     (let lock_timeout = (if \<not> cfg_lock_timeout_set cfg \<and> cfg_lock_timeout cfg = 0
                          then default_lock_timeout else cfg_lock_timeout cfg);
          lock_id = (if cfg_lock_id cfg = 0 then default_lock_id else cfg_lock_id cfg)
      in (\<lparr>pg_lock_timeout = lock_timeout, pg_lock_id = lock_id\<rparr>, \<lparr>lock_conn = None, is_lock_acquired = False\<rparr>))"

section \<open>Durations\<close>

text \<open>\<open>Duration.Milliseconds\<close>, which truncates towards zero, and \<open>Duration.String\<close>.\<close>

definition milliseconds :: "int \<Rightarrow> int" where
  "milliseconds d = (if d < 0 then - ((- d) div 1000000) else d div 1000000)"

definition frac_string :: "nat \<Rightarrow> nat \<Rightarrow> string" where
  "frac_string v prec =
     (let fp = show_nat (v mod 10 ^ prec);
          digits = rev (dropWhile (\<lambda>c. c = CHR ''0'') (rev (replicate (prec - length fp) (CHR ''0'') @ fp)))
      in show_nat (v div 10 ^ prec) @ (if v mod 10 ^ prec = 0 then [] else ''.'' @ digits))"

definition unsigned_duration_string :: "nat \<Rightarrow> string" where
  "unsigned_duration_string u =
     (if u = 0 then ''0s''
      else if u < 1000 then show_nat u @ ''ns''
      else if u < 1000000 then frac_string u 3 @ [CHR 0xC2, CHR 0xB5, CHR ''s'']
      else if u < 1000000000 then frac_string u 6 @ ''ms''
      else
        let minutes = u div 60000000000; rest = u mod 60000000000
        in (if minutes \<ge> 60 then show_nat (minutes div 60) @ ''h'' else [])
           @ (if minutes > 0 then show_nat (minutes mod 60) @ ''m'' else []) @ frac_string rest 9 @ ''s'')"

definition duration_string :: "int \<Rightarrow> string" where
  "duration_string d =
     (if d < 0 then ''-'' @ unsigned_duration_string (nat (- d)) else unsigned_duration_string (nat d))"

section \<open>Taking the lock\<close>

definition is_lock_timeout :: "goerr \<Rightarrow> bool" where
  "is_lock_timeout e = sublist lock_timeout_err_code (error_string e)"

definition lock_error :: "postgres \<Rightarrow> bool \<Rightarrow> goerr \<Rightarrow> goerr" where
  "lock_error p ctx_ended e =
     (if is_lock_timeout e then
        Errorf [Wrap (Sent ErrLockTimeout), Lit '' after '', Lit (duration_string (pg_lock_timeout p)),
          Lit '': another migration process is holding it'']
      else if pg_lock_timeout p = 0 \<and> ctx_ended then
        wrapf [Lit ''acquire advisory lock: waiting indefinitely (lock timeout 0) until the context ended: ''] e
      else wrapf [Lit ''acquire advisory lock: ''] e)"

definition lock_on_conn :: "postgres \<Rightarrow> 'w sql_db \<Rightarrow> ctx \<Rightarrow> nat \<Rightarrow> ('w, unit) io" where
  "lock_on_conn p D c conn =
     go_try (lift_sql (conn_begin D conn c)) [Lit ''begin lock transaction: ''] (\<lambda>tx.
     go_defer (tx_rollback D tx)
       (go_try (exec_tx D tx c set_lock_timeout_sql [TextArg (show_int (milliseconds (pg_lock_timeout p)))])
               [Lit ''set lock timeout: ''] (\<lambda>_.
        io_handle (exec_tx D tx c advisory_lock_sql [IntArg (pg_lock_id p)])
          (\<lambda>e w. fail (lock_error p (ctx_done D c w) e) w)
          (\<lambda>_. go_try (lift_sql (tx_commit D tx)) [Lit ''commit lock transaction: ''] (\<lambda>_. ret ())))))"

definition release_all_and_close :: "'w sql_db \<Rightarrow> nat \<Rightarrow> 'w \<Rightarrow> 'w" where
  "release_all_and_close D conn w =
     (case exec_conn D conn Detached advisory_unlock_all_sql [] w of
        (w', Inl _) \<Rightarrow> destroy D conn w'
      | (w', Inr _) \<Rightarrow> fst (conn_close D conn w'))"

definition acquire_lock :: "postgres \<Rightarrow> 'w sql_db \<Rightarrow> ctx \<Rightarrow> ('w \<times> lock_state, unit) io" where
  "acquire_lock p D c =
     (\<lambda>(w, s).
        if is_lock_acquired s then fail (Sent ErrLockAlreadyAcquired) (w, s)
        else if db_max_open D w = 1 then fail (Sent ErrPoolTooSmall) (w, s)
        else
          go_try (on_state (lift_sql (db_conn D c))) [Lit ''get dedicated connection for lock: ''] (\<lambda>conn.
          io_handle (on_state (lock_on_conn p D c conn))
            (\<lambda>e. go_bind (modify (\<lambda>(w, s). (release_all_and_close D conn w, s))) (\<lambda>_. fail e))
            (\<lambda>_. modify (\<lambda>(w, s). (w, s\<lparr>lock_conn := Some conn, is_lock_acquired := True\<rparr>)))) (w, s))"

section \<open>Releasing it\<close>

definition unlock_conn :: "postgres \<Rightarrow> 'w sql_db \<Rightarrow> nat \<Rightarrow> ('w, unit) io" where
  "unlock_conn p D conn =
     io_handle
       (go_bind (first_row (conn_query D conn Detached advisory_unlock_sql [IntArg (pg_lock_id p)]))
          (\<lambda>r. case r of None \<Rightarrow> fail no_rows | Some cells \<Rightarrow> of_result (scan_bool cells)))
       (\<lambda>e. go_bind (modify (destroy D conn)) (\<lambda>_. fail (wrapf [Lit ''release advisory lock: ''] e)))
       (\<lambda>unlocked.
          if \<not> unlocked then go_bind (modify (\<lambda>w. fst (conn_close D conn w))) (\<lambda>_. fail (Sent ErrLockNotHeld))
          else go_try (lift_sql (conn_close D conn)) [Lit ''return lock connection to pool: ''] (\<lambda>_. ret ()))"

definition release_lock :: "postgres \<Rightarrow> 'w sql_db \<Rightarrow> ctx \<Rightarrow> ('w \<times> lock_state, unit) io" where
  "release_lock p D c =
     (\<lambda>(w, s).
        case (is_lock_acquired s, lock_conn s) of
          (True, Some conn) \<Rightarrow>
            on_state (unlock_conn p D conn) (w, s\<lparr>lock_conn := None, is_lock_acquired := False\<rparr>)
        | _ \<Rightarrow> fail (Sent ErrLockNotAcquired) (w, s))"

definition postgres_locker :: "postgres \<Rightarrow> 'w sql_db \<Rightarrow> ('w, lock_state) locker" where
  "postgres_locker p D = \<lparr>lk_acquire = acquire_lock p D, lk_release = release_lock p D\<rparr>"

definition held_conn :: "lock_state \<Rightarrow> nat option" where
  "held_conn s = (if is_lock_acquired s then lock_conn s else None)"

declare milliseconds_def [go_eval] new_postgres_from_db_def [go_eval] held_conn_def [go_eval]

lemma wp_fail_here [wp_simps]: "wp (\<lambda>w. fail (f w) w) Q E w = E (f w) w"
  by (simp add: wp_def fail_def)

end
