(* ===== verification/Ledger.thy ===== *)
theory Ledger
  imports Sql_Database Script_Parser
begin

text \<open>
  What applying and rolling back a migration promise, stated on the view of the server: which rows and
  which scripts are there afterwards, on success and on failure. The executor implements this
  specification, the service is proved against it.
\<close>

section \<open>Scripts\<close>

text \<open>The SQL texts that running a script sends, and whether it runs outside a transaction.\<close>

definition script_no_tx :: "string \<Rightarrow> bool" where
  "script_no_tx script =
     (case parse_directive_header script of
        Inl _ \<Rightarrow> False | Inr (directives, _) \<Rightarrow> has_directive directives directive_no_transaction)"

definition script_irreversible :: "string \<Rightarrow> bool" where
  "script_irreversible script =
     (case parse_directive_header script of
        Inl _ \<Rightarrow> False | Inr (directives, _) \<Rightarrow> has_directive directives directive_irreversible)"

definition script_steps :: "unicode \<Rightarrow> string \<Rightarrow> string list" where
  "script_steps U script =
     (case parse_directive_header script of
        Inl _ \<Rightarrow> []
      | Inr (directives, body) \<Rightarrow>
          if has_directive directives directive_no_transaction
          then (case split_sql_statements U body of Inl _ \<Rightarrow> [] | Inr stmts \<Rightarrow> stmts)
          else [body])"

definition tidy_script :: "unicode \<Rightarrow> (string \<Rightarrow> bool) \<Rightarrow> string \<Rightarrow> bool" where
  "tidy_script U tidy script \<longleftrightarrow> (\<forall>s \<in> set (script_steps U script). tidy s)"

definition tidy_rows :: "unicode \<Rightarrow> (string \<Rightarrow> bool) \<Rightarrow> db_view \<Rightarrow> bool" where
  "tidy_rows U tidy v \<longleftrightarrow> (\<forall>rs. v_rows v = Some rs \<longrightarrow> (\<forall>r \<in> set rs. tidy_script U tidy (row_down r)))"

definition tidy_migrations :: "unicode \<Rightarrow> (string \<Rightarrow> bool) \<Rightarrow> migration list \<Rightarrow> bool" where
  "tidy_migrations U tidy ms \<longleftrightarrow> (\<forall>m \<in> set ms. tidy_script U tidy (mig_up_script m))"

declare script_no_tx_def [go_eval] script_irreversible_def [go_eval] script_steps_def [go_eval]
declare tidy_script_def [go_eval] tidy_migrations_def [go_eval]

section \<open>One migration\<close>

abbreviation recorded :: "migration \<Rightarrow> string option \<Rightarrow> db_view \<Rightarrow> db_view \<Rightarrow> bool" where
  "recorded m err \<equiv> inserted (mig_id m) (mig_up_script m) (mig_down_script m) err"

definition did_apply :: "unicode \<Rightarrow> migration \<Rightarrow> db_view \<Rightarrow> db_view \<Rightarrow> bool" where
  "did_apply U m v v' \<longleftrightarrow> recorded m None (ran (script_steps U (mig_up_script m)) v) v'"

definition did_rollback :: "unicode \<Rightarrow> string \<Rightarrow> db_view \<Rightarrow> db_view \<Rightarrow> bool" where
  "did_rollback U i v v' \<longleftrightarrow>
     (\<exists>rs r. v_rows v = Some rs \<and> r \<in> set rs \<and> row_id r = i
        \<and> v' = deleted i (ran (script_steps U (row_down r)) v))"

text \<open>
  A failed transactional script leaves everything as it was, unless the answer to its commit was lost.
  A failed one outside a transaction leaves the effects of its first statements, and then either a row
  that carries the error, or \<open>ErrUnrecorded\<close>.
\<close>

definition apply_failed :: "unicode \<Rightarrow> migration \<Rightarrow> goerr \<Rightarrow> db_view \<Rightarrow> db_view \<Rightarrow> bool" where
  "apply_failed U m e v v' \<longleftrightarrow>
     v' = v
     \<or> \<not> script_no_tx (mig_up_script m) \<and> did_apply U m v v'
     \<or> script_no_tx (mig_up_script m)
       \<and> (\<exists>k. let v1 = ran (take k (script_steps U (mig_up_script m))) v in
            recorded m (Some (error_string e)) v1 v'
            \<or> error_is e ErrUnrecorded \<and> (v' = v1 \<or> (\<exists>err. recorded m err v1 v')))"

definition rollback_failed :: "unicode \<Rightarrow> string \<Rightarrow> goerr \<Rightarrow> db_view \<Rightarrow> db_view \<Rightarrow> bool" where
  "rollback_failed U i e v v' \<longleftrightarrow>
     v' = v
     \<or> (\<exists>rs r. v_rows v = Some rs \<and> r \<in> set rs \<and> row_id r = i
        \<and> (if script_no_tx (row_down r) then
             (\<exists>k x. let v1 = ran (take k (script_steps U (row_down r))) v in
                v' = marked i x v1 \<and> error_string e = ''execute down script: '' @ x
                \<or> error_is e ErrUnrecorded \<and> v' \<in> {v1, marked i x v1, deleted i v1})
           else did_rollback U i v v'))"

section \<open>Several migrations, in order\<close>

inductive rolled_back :: "unicode \<Rightarrow> string list \<Rightarrow> db_view \<Rightarrow> db_view \<Rightarrow> bool" for U where
  rolled_back_none: "rolled_back U [] v v"
| rolled_back_next: "rolled_back U is v v1 \<Longrightarrow> did_rollback U i v1 v2 \<Longrightarrow> rolled_back U (is @ [i]) v v2"

inductive applied :: "unicode \<Rightarrow> migration list \<Rightarrow> db_view \<Rightarrow> db_view \<Rightarrow> bool" for U where
  applied_none: "applied U [] v v"
| applied_next: "applied U ms v v1 \<Longrightarrow> did_apply U m v1 v2 \<Longrightarrow> applied U (ms @ [m]) v v2"

inductive baselined :: "migration list \<Rightarrow> db_view \<Rightarrow> db_view \<Rightarrow> bool" where
  baselined_none: "baselined [] v v"
| baselined_next: "baselined ms v v1 \<Longrightarrow> recorded m None v1 v2 \<Longrightarrow> baselined (ms @ [m]) v v2"

inductive_simps rolled_back_Nil [simp]: "rolled_back U [] v v'"
inductive_simps applied_Nil [simp]: "applied U [] v v'"
inductive_simps baselined_Nil [simp]: "baselined [] v v'"

definition same_sessions :: "db_view \<Rightarrow> db_view \<Rightarrow> bool" where
  "same_sessions v v' \<longleftrightarrow> v_locks v' = v_locks v \<and> v_out v' = v_out v"

lemma same_sessions_refl [simp]: "same_sessions v v"
  by (simp add: same_sessions_def)

lemma same_sessions_trans: "same_sessions a b \<Longrightarrow> same_sessions b c \<Longrightarrow> same_sessions a c"
  by (simp add: same_sessions_def)

lemma same_sessions_unstranded: "same_sessions v v' \<Longrightarrow> unstranded v' = unstranded v"
  by (simp add: same_sessions_def unstranded_def)

lemma view_ops_simps [simp]:
  "v_rows (ran ss v) = v_rows v" "v_ran (ran ss v) = v_ran v @ ss"
  "v_locks (ran ss v) = v_locks v" "v_out (ran ss v) = v_out v"
  "ran [] v = v" "ran ts (ran ss v) = ran (ss @ ts) v"
  "v_rows (deleted i v) = map_option (filter (\<lambda>r. row_id r \<noteq> i)) (v_rows v)" "v_ran (deleted i v) = v_ran v"
  "v_locks (deleted i v) = v_locks v" "v_out (deleted i v) = v_out v"
  "v_ran (marked i x v) = v_ran v" "v_locks (marked i x v) = v_locks v" "v_out (marked i x v) = v_out v"
  "v_ran (table_created v) = v_ran v" "v_locks (table_created v) = v_locks v" "v_out (table_created v) = v_out v"
  by (simp_all add: ran_def deleted_def marked_def table_created_def split: option.split)

lemma view_ops_sessions [frame]:
  "inserted i up down err v v' \<Longrightarrow> same_sessions v v'"
  "did_apply U m v v' \<Longrightarrow> same_sessions v v'"
  "did_rollback U i v v' \<Longrightarrow> same_sessions v v'"
  by (auto simp: same_sessions_def inserted_def did_apply_def did_rollback_def)

lemma steps_sessions [frame]:
  "rolled_back U is v v' \<Longrightarrow> same_sessions v v'"
  "applied U ms v v' \<Longrightarrow> same_sessions v v'"
  "baselined ms v v' \<Longrightarrow> same_sessions v v'"
proof -
  show "rolled_back U is v v' \<Longrightarrow> same_sessions v v'"
    by (induction rule: rolled_back.induct) (auto intro: same_sessions_trans frame)
  show "applied U ms v v' \<Longrightarrow> same_sessions v v'"
    by (induction rule: applied.induct) (auto intro: same_sessions_trans frame)
  show "baselined ms v v' \<Longrightarrow> same_sessions v v'"
    by (induction rule: baselined.induct) (auto intro: same_sessions_trans frame)
qed

lemma failed_sessions [frame]:
  "apply_failed U m e v v' \<Longrightarrow> same_sessions v v'"
  "rollback_failed U i e v v' \<Longrightarrow> same_sessions v v'"
  by (auto simp: apply_failed_def rollback_failed_def Let_def same_sessions_def inserted_def did_apply_def
      did_rollback_def split: if_splits)

section \<open>What a sequence of steps does\<close>

text \<open>
  Rolling back removes exactly the rows named, and has run their stored scripts in that order;
  applying appends one healthy row per migration, in order, that stores its scripts.
\<close>

definition stored_down :: "row list \<Rightarrow> string \<Rightarrow> string" where
  "stored_down rs i = (case find (\<lambda>r. row_id r = i) rs of Some r \<Rightarrow> row_down r | None \<Rightarrow> [])"

lemma stored_down_eq: "distinct (row_ids rs) \<Longrightarrow> r \<in> set rs \<Longrightarrow> stored_down rs (row_id r) = row_down r"
  by (induction rs) (auto simp: stored_down_def)

lemma rolled_back_rows:
  "rolled_back U is v v' \<Longrightarrow> v_rows v = Some rs \<Longrightarrow> distinct (row_ids rs) \<Longrightarrow>
     v_rows v' = Some (filter (\<lambda>r. row_id r \<notin> set is) rs) \<and> set is \<subseteq> set (row_ids rs) \<and> distinct is
     \<and> v_ran v' = v_ran v @ concat (map (\<lambda>i. script_steps U (stored_down rs i)) is)"
proof (induction rule: rolled_back.induct)
  case (rolled_back_next "is" v v1 i v2)
  then obtain r where r: "r \<in> set rs" "row_id r \<notin> set is" "row_id r = i"
    "v2 = deleted i (ran (script_steps U (row_down r)) v1)"
    by (auto simp: did_rollback_def)
  with rolled_back_next show ?case
    by (auto simp: stored_down_eq intro: filter_cong)
qed auto

definition stores :: "migration \<Rightarrow> row \<Rightarrow> bool" where
  "stores m r \<longleftrightarrow> row_id r = mig_id m \<and> row_up r = mig_up_script m \<and> row_down r = mig_down_script m \<and> row_error r = None"

lemma stores_ids: "list_all2 stores ms rs \<Longrightarrow> row_ids rs = ids ms"
  by (induction rule: list_all2_induct) (auto simp: stores_def)

lemma applied_rows:
  "applied U ms v v' \<Longrightarrow> v_rows v = Some rs \<Longrightarrow>
     \<exists>new. v_rows v' = Some (rs @ new) \<and> list_all2 stores ms new \<and> set (ids ms) \<inter> set (row_ids rs) = {}
       \<and> distinct (ids ms) \<and> v_ran v' = v_ran v @ concat (map (\<lambda>m. script_steps U (mig_up_script m)) ms)"
proof (induction rule: applied.induct)
  case (applied_next ms v v1 m v2)
  then obtain new where new: "v_rows v1 = Some (rs @ new)" "list_all2 stores ms new"
    "set (ids ms) \<inter> set (row_ids rs) = {}" "distinct (ids ms)"
    "v_ran v1 = v_ran v @ concat (map (\<lambda>m. script_steps U (mig_up_script m)) ms)" by blast
  from applied_next(2) new(1) obtain tm where
    a: "mig_id m \<notin> set (row_ids (rs @ new))" "v2 = ran (script_steps U (mig_up_script m)) v1
      \<lparr>v_rows := Some ((rs @ new) @ [\<lparr>row_id = mig_id m, row_up = mig_up_script m, row_down = mig_down_script m,
         row_error = None, row_time = tm\<rparr>])\<rparr>"
    by (auto simp: did_apply_def inserted_def)
  let ?r = "\<lparr>row_id = mig_id m, row_up = mig_up_script m, row_down = mig_down_script m, row_error = None, row_time = tm\<rparr>"
  have "list_all2 stores (ms @ [m]) (new @ [?r])"
    using new(2) by (simp add: list_all2_appendI stores_def)
  with new a stores_ids [OF new(2)] show ?case
    by (intro exI [of _ "new @ [?r]"]) auto
qed simp

lemma baselined_rows:
  "baselined ms v v' \<Longrightarrow> v_rows v = Some rs \<Longrightarrow>
     \<exists>new. v_rows v' = Some (rs @ new) \<and> list_all2 stores ms new \<and> v_ran v' = v_ran v"
proof (induction rule: baselined.induct)
  case (baselined_next ms v v1 m v2)
  then obtain new where new: "v_rows v1 = Some (rs @ new)" "list_all2 stores ms new" "v_ran v1 = v_ran v" by blast
  let ?r = "\<lambda>tm. \<lparr>row_id = mig_id m, row_up = mig_up_script m, row_down = mig_down_script m, row_error = None, row_time = tm\<rparr>"
  from baselined_next(2) new(1) obtain tm where a: "v2 = v1\<lparr>v_rows := Some ((rs @ new) @ [?r tm])\<rparr>"
    by (auto simp: inserted_def)
  have "list_all2 stores (ms @ [m]) (new @ [?r tm])"
    using new(2) by (simp add: list_all2_appendI stores_def)
  with new a show ?case
    by (intro exI [of _ "new @ [?r tm]"]) auto
qed simp

section \<open>Plans\<close>

definition reversible_rows :: "string list \<Rightarrow> db_view \<Rightarrow> bool" where
  "reversible_rows is v \<longleftrightarrow>
     (\<forall>rs. v_rows v = Some rs \<longrightarrow> (\<forall>r \<in> set rs. row_id r \<in> set is \<longrightarrow> \<not> script_irreversible (row_down r)))"

definition plan_done :: "unicode \<Rightarrow> migration_plan \<Rightarrow> db_view \<Rightarrow> db_view \<Rightarrow> bool" where
  "plan_done U plan v v' \<longleftrightarrow>
     (\<exists>vr. rolled_back U (ids (to_rollback plan)) v vr \<and> applied U (to_apply plan) vr v')"

text \<open>
  A run that stopped with \<open>e\<close>: the reported prefixes \<open>rb\<close> and \<open>ap\<close> of the plan completed, and beyond
  them at most the failed effects of the next step.
\<close>

definition step_failed ::
  "unicode \<Rightarrow> migration_plan \<Rightarrow> migration list \<Rightarrow> migration list \<Rightarrow> goerr \<Rightarrow> db_view \<Rightarrow> db_view \<Rightarrow> bool" where
  "step_failed U plan rb ap e v v' \<longleftrightarrow>
     (\<exists>m rest ps cause. e = wrapf ps cause
        \<and> (to_rollback plan = rb @ m # rest \<and> ap = [] \<and> rollback_failed U (mig_id m) cause v v'
           \<or> rb = to_rollback plan \<and> to_apply plan = ap @ m # rest \<and> apply_failed U m cause v v'))"

definition plan_failed ::
  "unicode \<Rightarrow> migration_plan \<Rightarrow> migration list \<Rightarrow> migration list \<Rightarrow> goerr \<Rightarrow> db_view \<Rightarrow> db_view \<Rightarrow> bool" where
  "plan_failed U plan rb ap e v v' \<longleftrightarrow>
     rb = [] \<and> ap = [] \<and> v' = v
     \<or> reversible_rows (ids (to_rollback plan)) v
       \<and> (\<exists>vr va. rolled_back U (ids rb) v vr \<and> applied U ap vr va \<and> step_failed U plan rb ap e va v')"

lemma rolled_back_subset:
  "rolled_back U is v v' \<Longrightarrow> v_rows v = Some rs \<Longrightarrow> \<exists>rs'. v_rows v' = Some rs' \<and> set rs' \<subseteq> set rs"
  by (induction rule: rolled_back.induct) (auto simp: did_rollback_def)

lemma rolled_back_tidy: "rolled_back U is v v' \<Longrightarrow> tidy_rows U tidy v \<Longrightarrow> tidy_rows U tidy v'"
  by (induction rule: rolled_back.induct) (auto simp: tidy_rows_def did_rollback_def)

lemma plan_done_sessions [frame]: "plan_done U plan v v' \<Longrightarrow> same_sessions v v'"
  unfolding plan_done_def using steps_sessions(1,2) same_sessions_trans by metis

lemma step_failed_sessions [frame]: "step_failed U plan rb ap e v v' \<Longrightarrow> same_sessions v v'"
  unfolding step_failed_def using failed_sessions by blast

lemma plan_failed_sessions [frame]:
  assumes "plan_failed U plan rb ap e v v'"
  shows "same_sessions v v'"
proof (cases "v' = v")
  case False
  then obtain vr va where "rolled_back U (ids rb) v vr" "applied U ap vr va" "step_failed U plan rb ap e va v'"
    using assms unfolding plan_failed_def by blast
  then show ?thesis by (metis steps_sessions(1,2) step_failed_sessions same_sessions_trans)
qed simp

text \<open>What running a plan asks of the scripts, and of the list the full migrations are looked up in.\<close>

definition plan_runnable ::
  "unicode \<Rightarrow> (string \<Rightarrow> bool) \<Rightarrow> migration_plan \<Rightarrow> migration list \<Rightarrow> db_view \<Rightarrow> bool" where
  "plan_runnable U tidy plan all_migrations v \<longleftrightarrow>
     tidy_migrations U tidy (to_apply plan) \<and> (\<forall>m \<in> set (to_apply plan). id_map all_migrations (mig_id m) = Some m)
     \<and> (to_rollback plan \<noteq> [] \<longrightarrow> tidy_rows U tidy v)"

section \<open>Sessions\<close>

text \<open>The specification does not depend on who holds the lock or which sessions are checked out.\<close>

definition with_sessions :: "(nat \<times> int) list \<Rightarrow> nat set \<Rightarrow> db_view \<Rightarrow> db_view" where
  "with_sessions locks out v = v\<lparr>v_locks := locks, v_out := out\<rparr>"

lemma with_sessions_simps [simp]:
  "v_rows (with_sessions L B v) = v_rows v" "v_ran (with_sessions L B v) = v_ran v"
  "v_locks (with_sessions L B v) = L" "v_out (with_sessions L B v) = B"
  "with_sessions L B (with_sessions L' B' v) = with_sessions L B v"
  "with_sessions L B (ran ss v) = ran ss (with_sessions L B v)"
  "with_sessions L B (deleted i v) = deleted i (with_sessions L B v)"
  "with_sessions L B (marked i x v) = marked i x (with_sessions L B v)"
  "with_sessions L B (table_created v) = table_created (with_sessions L B v)"
  by (auto simp: with_sessions_def ran_def deleted_def marked_def table_created_def split: option.splits)

lemma with_sessions_self: "with_sessions (v_locks v) (v_out v) v = v"
  by (simp add: with_sessions_def)

lemma inserted_sessions: "inserted i up down err v v' \<Longrightarrow>
    inserted i up down err (with_sessions L B v) (with_sessions L B v')"
  unfolding inserted_def with_sessions_def by (cases v) auto

lemma did_apply_with_sessions: "did_apply U m v v' \<Longrightarrow> did_apply U m (with_sessions L B v) (with_sessions L B v')"
  unfolding did_apply_def by (drule inserted_sessions [where L = L and B = B]) simp

lemma did_rollback_with_sessions:
  "did_rollback U i v v' \<Longrightarrow> did_rollback U i (with_sessions L B v) (with_sessions L B v')"
  unfolding did_rollback_def by auto

lemma steps_with_sessions:
  "rolled_back U is v v' \<Longrightarrow> rolled_back U is (with_sessions L B v) (with_sessions L B v')"
  "applied U ms v v' \<Longrightarrow> applied U ms (with_sessions L B v) (with_sessions L B v')"
  "baselined ms v v' \<Longrightarrow> baselined ms (with_sessions L B v) (with_sessions L B v')"
proof -
  show "rolled_back U is v v' \<Longrightarrow> rolled_back U is (with_sessions L B v) (with_sessions L B v')"
    by (induction rule: rolled_back.induct) (auto intro: rolled_back.intros did_rollback_with_sessions)
  show "applied U ms v v' \<Longrightarrow> applied U ms (with_sessions L B v) (with_sessions L B v')"
    by (induction rule: applied.induct) (auto intro: applied.intros did_apply_with_sessions)
  show "baselined ms v v' \<Longrightarrow> baselined ms (with_sessions L B v) (with_sessions L B v')"
    by (induction rule: baselined.induct) (auto intro: baselined.intros inserted_sessions)
qed

lemma apply_failed_with_sessions:
  assumes "apply_failed U m e v v'"
  shows "apply_failed U m e (with_sessions L B v) (with_sessions L B v')"
proof (cases "script_no_tx (mig_up_script m)")
  case False
  with assms show ?thesis by (auto simp: apply_failed_def intro: did_apply_with_sessions)
next
  case True
  let ?f = "\<lambda>k. ran (take k (script_steps U (mig_up_script m))) v"
  consider "v' = v" | k where "recorded m (Some (error_string e)) (?f k) v'"
    | k where "error_is e ErrUnrecorded" "v' = ?f k" | k err where "error_is e ErrUnrecorded" "recorded m err (?f k) v'"
    using assms True unfolding apply_failed_def Let_def by blast
  then show ?thesis
  proof cases
    case 2
    from inserted_sessions [OF this, of L B] True show ?thesis by (auto simp: apply_failed_def Let_def)
  next
    case 4
    from inserted_sessions [OF 4(2), of L B] 4 True show ?thesis by (auto simp: apply_failed_def Let_def)
  qed (use True in \<open>auto simp: apply_failed_def Let_def\<close>)
qed

lemma rollback_failed_with_sessions:
  assumes "rollback_failed U i e v v'"
  shows "rollback_failed U i e (with_sessions L B v) (with_sessions L B v')"
proof (cases "v' = v")
  case False
  with assms obtain rs r where r: "v_rows v = Some rs" "r \<in> set rs" "row_id r = i"
    and f: "if script_no_tx (row_down r) then
             (\<exists>k x. let v1 = ran (take k (script_steps U (row_down r))) v in
                v' = marked i x v1 \<and> error_string e = ''execute down script: '' @ x
                \<or> error_is e ErrUnrecorded \<and> v' \<in> {v1, marked i x v1, deleted i v1})
           else did_rollback U i v v'"
    unfolding rollback_failed_def by blast
  from f have "if script_no_tx (row_down r) then
             (\<exists>k x. let v1 = ran (take k (script_steps U (row_down r))) (with_sessions L B v) in
                with_sessions L B v' = marked i x v1 \<and> error_string e = ''execute down script: '' @ x
                \<or> error_is e ErrUnrecorded \<and> with_sessions L B v' \<in> {v1, marked i x v1, deleted i v1})
           else did_rollback U i (with_sessions L B v) (with_sessions L B v')"
    by (cases "script_no_tx (row_down r)")
      (simp_all only: if_True if_False Let_def, force, rule did_rollback_with_sessions)
  with r show ?thesis unfolding rollback_failed_def by auto
qed (simp add: rollback_failed_def)

lemma reversible_rows_with_sessions [simp]: "reversible_rows is (with_sessions L B v) = reversible_rows is v"
  by (simp add: reversible_rows_def)

lemma plan_done_with_sessions:
  "plan_done U plan v v' \<Longrightarrow> plan_done U plan (with_sessions L B v) (with_sessions L B v')"
  unfolding plan_done_def using steps_with_sessions by blast

lemma step_failed_with_sessions:
  assumes "step_failed U plan rb ap e v v'"
  shows "step_failed U plan rb ap e (with_sessions L B v) (with_sessions L B v')"
proof -
  obtain m rest ps cause where e: "e = wrapf ps cause"
    and c: "to_rollback plan = rb @ m # rest \<and> ap = [] \<and> rollback_failed U (mig_id m) cause v v'
           \<or> rb = to_rollback plan \<and> to_apply plan = ap @ m # rest \<and> apply_failed U m cause v v'"
    using assms unfolding step_failed_def by blast
  from c have "to_rollback plan = rb @ m # rest \<and> ap = []
        \<and> rollback_failed U (mig_id m) cause (with_sessions L B v) (with_sessions L B v')
      \<or> rb = to_rollback plan \<and> to_apply plan = ap @ m # rest
        \<and> apply_failed U m cause (with_sessions L B v) (with_sessions L B v')"
    by (elim disjE conjE) (simp_all add: rollback_failed_with_sessions apply_failed_with_sessions)
  with e show ?thesis unfolding step_failed_def by blast
qed

lemma plan_failed_with_sessions:
  assumes "plan_failed U plan rb ap e v v'"
  shows "plan_failed U plan rb ap e (with_sessions L B v) (with_sessions L B v')"
proof (cases "rb = [] \<and> ap = [] \<and> v' = v")
  case False
  then obtain vr va where r: "reversible_rows (ids (to_rollback plan)) v" and s: "rolled_back U (ids rb) v vr"
    "applied U ap vr va" "step_failed U plan rb ap e va v'"
    using assms unfolding plan_failed_def by blast
  from r have "reversible_rows (ids (to_rollback plan)) (with_sessions L B v)" by simp
  moreover note steps_with_sessions(1) [OF s(1), of L B] steps_with_sessions(2) [OF s(2), of L B]
    step_failed_with_sessions [OF s(3), of L B]
  ultimately show ?thesis unfolding plan_failed_def by blast
qed (simp add: plan_failed_def)

end
