(* ===== verification/Executor_Correct.thy ===== *)
theory Executor_Correct
  imports Executor Ledger
begin

text \<open>
  The executor implements the ledger specification over any database that keeps the laws of
  \<open>sql_database\<close>: one lemma per operation, on success and on failure.
\<close>

section \<open>Statements and queries\<close>

lemma wp_lift_sql_extern:
  "wp (lift_sql m) Q E w \<Longrightarrow> wp (lift_sql m) Q (\<lambda>e w'. E e w' \<and> (\<exists>t. e = Extern t)) w"
  by (auto simp: wp_lift_sql split: prod.splits sum.splits)

lemma wp_lift_sql_fst: "wp (lift_sql m) (\<lambda>_. P) (\<lambda>_. P) w \<Longrightarrow> P (fst (m w))"
  by (auto simp: wp_lift_sql split: prod.splits sum.splits)

lemma wp_first_row:
  assumes "wp (lift_sql m) (\<lambda>rows w'. P w' \<and> answers rows expected) (\<lambda>_. P) w"
  shows "wp (first_row m) (\<lambda>r w'. P w' \<and> r = (case expected of [] \<Rightarrow> None | x # _ \<Rightarrow> Some x)) (\<lambda>_. P) w"
  unfolding first_row_def wp_simps
  by (rule wp_mono [OF assms])
    (auto simp: wp_simps answers_def prefix_def split: list.splits option.splits)

definition applied_of :: "row \<Rightarrow> applied_migration" where
  "applied_of r = \<lparr>am_id = row_id r, am_applied_at = row_time r, am_error = row_error r, am_down_script = row_down r\<rparr>"

lemma applied_of_simps [simp]:
  "am_id (applied_of r) = row_id r" "am_error (applied_of r) = row_error r"
  "am_down_script (applied_of r) = row_down r" "am_applied_at (applied_of r) = row_time r"
  by (simp_all add: applied_of_def)

lemma scan_applied_cells: "scan_applied (row_cells r) = Inr (applied_of r)"
  by (cases "row_error r") (simp_all add: row_cells_def applied_of_def)

lemma scan_all_cells: "scan_all (map row_cells rs) acc = Inr (acc @ map applied_of rs)"
  by (induction rs arbitrary: acc) (simp_all add: scan_applied_cells)

lemma find_filter: "find P xs = (case filter P xs of [] \<Rightarrow> None | x # _ \<Rightarrow> Some x)"
  by (induction xs) auto

context sql_database begin

lemma ensure_table_wp:
  "wp (ensure_migrations_table D ref c) (\<lambda>_ w'. view w' = table_created (view w))
     (\<lambda>_ w'. view w' \<in> {view w, table_created (view w)}) w"
  unfolding ensure_migrations_table_def wp_simps by (rule wp_mono [OF create_law]) auto

lemma table_exists_wp:
  "wp (table_exists D ref c) (\<lambda>b w'. view w' = view w \<and> b = (v_rows (view w) \<noteq> None)) (\<lambda>_ w'. view w' = view w) w"
  unfolding table_exists_def wp_simps
  by (rule wp_mono [OF wp_first_row [OF exists_law]]) (auto simp: wp_simps)

lemma get_applied_wp:
  "wp (get_applied_migrations D ref c)
     (\<lambda>ms w'. view w' = view w \<and> (\<exists>rs. v_rows (view w) = Some rs \<and> ms = map applied_of rs)) (\<lambda>_ w'. view w' = view w) w"
  unfolding get_applied_migrations_def wp_simps
proof (rule wp_mono [OF select_all_law], goal_cases)
  case (1 rows w')
  then obtain rs where rs: "v_rows (view w) = Some rs" "answers rows (map row_cells rs)" "view w' = view w" by blast
  obtain rs' where "rows_data rows = map row_cells rs'" "rows_err rows = None \<Longrightarrow> map row_cells rs' = map row_cells rs"
    using rs(2) by (auto simp: answers_def prefix_def map_eq_append_conv append_eq_map_conv)
  then show ?case
    using rs scan_all_cells [of rs' "[]"] scan_all_cells [of rs "[]"] by (auto simp: wp_simps split: option.splits)
qed simp

lemma select_down_wp:
  "wp (select_down D ref c i)
     (\<lambda>s w'. view w' = view w
        \<and> (\<exists>rs. v_rows (view w) = Some rs \<and> s = map_option row_down (find (\<lambda>r. row_id r = i) rs)))
     (\<lambda>_ w'. view w' = view w) w"
proof (cases "v_rows (view w)")
  case None
  with select_down_law [of c i w] show ?thesis
    unfolding select_down_def first_row_def wp_simps by (auto elim!: wp_mono)
next
  case (Some rs)
  then have "wp (lift_sql (db_query D c (select_down_sql ref) [TextArg i]))
      (\<lambda>rows w'. view w' = view w \<and> answers rows (map (\<lambda>r. [CText (row_down r)]) (filter (\<lambda>r. row_id r = i) rs)))
      (\<lambda>_ w'. view w' = view w) w"
    using select_down_law [of c i w] by simp
  from wp_first_row [OF this] show ?thesis
    unfolding select_down_def wp_simps
    by (rule wp_mono) (auto simp: Some wp_simps find_filter split: list.splits)
qed

lemma delete_record_wp:
  "wp (delete_record D ref c i)
     (\<lambda>b w'. view w' = deleted i (view w) \<and> (\<exists>rs. v_rows (view w) = Some rs \<and> b = (i \<in> set (row_ids rs))))
     (\<lambda>_ w'. view w' \<in> {view w, deleted i (view w)}) w"
  unfolding delete_record_def wp_simps
  by (rule wp_mono [OF delete_law]) (auto simp: wp_simps filter_empty_conv)

section \<open>Pinned connections\<close>

lemma view_release: "view (release_conn D n w) = checked_in n (unlocked n (view w))"
  using wp_lift_sql_fst [OF close_law [of n "conn_raw_close D n w"]]
  by (simp add: release_conn_def destroy_def raw_close_law)

lemma run_statements_wp:
  assumes "\<forall>s \<in> set ss. tidy s \<and> trim_space s = s \<and> s \<noteq> []"
  shows "wp (run_statements D c n i ss) (\<lambda>_ w'. view w' = ran ss (view w))
     (\<lambda>e w'. \<not> error_is e ErrNoPinnedConn \<and> (\<exists>k. view w' = ran (take k ss) (view w))) w"
  using assms
proof (induction ss arbitrary: i w)
  case Nil
  then show ?case by (simp add: wp_simps)
next
  case (Cons s ss)
  have "wp (exec_conn D n c s []) (\<lambda>_ w'. view w' = ran [s] (view w))
      (\<lambda>e w'. view w' \<in> {view w, ran [s] (view w)} \<and> (\<exists>t. e = Extern t)) w"
    using wp_lift_sql_extern [OF conn_script_law] Cons.prems by simp
  then have "wp (exec_conn D n c s []) (\<lambda>_. wp (run_statements D c n (i + 1) ss)
        (\<lambda>_ w'. view w' = ran (s # ss) (view w))
        (\<lambda>e w'. \<not> error_is e ErrNoPinnedConn \<and> (\<exists>k. view w' = ran (take k (s # ss)) (view w))))
      (\<lambda>e w'. \<not> error_is (wrapf [Lit ''statement '', Num (i + 1), Lit '' failed: ''] e) ErrNoPinnedConn
         \<and> (\<exists>k. view w' = ran (take k (s # ss)) (view w))) w"
  proof (rule wp_mono, goal_cases)
    case (1 a w1)
    have "wp (run_statements D c n (i + 1) ss) (\<lambda>_ w'. view w' = ran ss (view w1))
       (\<lambda>e w'. \<not> error_is e ErrNoPinnedConn \<and> (\<exists>k. view w' = ran (take k ss) (view w1))) w1"
      using Cons by simp
    then show ?case
      by (rule wp_mono) (auto simp: 1 intro: exI [of _ "Suc k" for k])
  next
    case (2 e w1)
    then show ?case by (auto intro: exI [of _ 0] exI [of _ "Suc 0"])
  qed
  then show ?case using Cons.prems by (simp add: Let_def wp_simps)
qed

lemma pinned_statements_wp:
  assumes "\<forall>s \<in> set ss. tidy s \<and> trim_space s = s \<and> s \<noteq> []" "unstranded (view w)"
  shows "wp (on_pinned_conn D c (\<lambda>conn. run_statements D c conn i ss)) (\<lambda>_ w'. view w' = ran ss (view w))
     (\<lambda>e w'. if error_is e ErrNoPinnedConn then view w' = view w else \<exists>k. view w' = ran (take k ss) (view w)) w"
  unfolding on_pinned_conn_def wp_simps
proof (rule wp_mono [OF conn_law], goal_cases)
  case (1 n w1)
  have "unlocked n (ran t (view w1)) = ran t (view w1)" for t
    using 1 assms(2) by (intro unlocked_absent) (auto simp: ran_def unstranded_def)
  then have restored: "checked_in n (unlocked n (ran t (view w1))) = ran t (view w)" for t
    using 1 by (simp add: checked_in_def ran_def)
  show ?case
    by (rule wp_mono [OF run_statements_wp [OF assms(1)]]) (auto simp: view_release restored)
qed simp

section \<open>Applying\<close>

lemma unrecorded_is [simp]: "error_is (unrecorded i what e) ErrUnrecorded"
  by (simp add: unrecorded_def)

lemma record_outcome_None_wp:
  "wp (record_outcome D ref m None) (\<lambda>_ w'. recorded m None (view w) (view w'))
     (\<lambda>e w'. error_is e ErrUnrecorded \<and> (view w' = view w \<or> recorded m None (view w) (view w'))) w"
  unfolding record_outcome_def wp_simps
  by (simp, rule wp_mono [OF insert_law [where err = None]]) (auto simp: wp_simps)

lemma record_outcome_Some_wp:
  "wp (record_outcome D ref m (Some e0)) (\<lambda>_ _. False)
     (\<lambda>e w'. e = e0 \<and> recorded m (Some (error_string e0)) (view w) (view w')
        \<or> error_is e ErrUnrecorded \<and> (view w' = view w \<or> recorded m (Some (error_string e0)) (view w) (view w'))) w"
  unfolding record_outcome_def wp_simps
  by (simp, rule wp_mono [OF insert_law [where err = "Some (error_string e0)"]]) (auto simp: wp_simps)

lemma steps_of_no_tx:
  assumes "parse_directive_header script = Inr (d, body)" "has_directive d directive_no_transaction"
    "split_sql_statements U body = Inr ss"
  shows "script_steps U script = ss" "script_no_tx script"
    "tidy_script U tidy' script \<Longrightarrow> \<forall>s \<in> set ss. tidy' s \<and> trim_space s = s \<and> s \<noteq> []"
  using assms split_statements_proper [OF assms(3)]
  by (auto simp: script_steps_def script_no_tx_def tidy_script_def)

lemma steps_of_tx:
  assumes "parse_directive_header script = Inr (d, body)" "\<not> has_directive d directive_no_transaction"
  shows "script_steps U script = [body]" "\<not> script_no_tx script" "tidy_script U tidy' script \<Longrightarrow> tidy' body"
  using assms by (auto simp: script_steps_def script_no_tx_def tidy_script_def)

lemma apply_without_transaction_wp:
  assumes "parse_directive_header (mig_up_script m) = Inr (d, body)" "has_directive d directive_no_transaction"
    "tidy_script U tidy (mig_up_script m)" "unstranded (view w)"
  shows "wp (apply_without_transaction D U ref c m body) (\<lambda>_ w'. did_apply U m (view w) (view w'))
     (\<lambda>e w'. apply_failed U m e (view w) (view w')) w"
proof (cases "split_sql_statements U body")
  case (Inl e)
  then show ?thesis by (simp add: apply_without_transaction_def wp_simps apply_failed_def)
next
  case (Inr ss)
  note st = steps_of_no_tx [OF assms(1,2) Inr]
  show ?thesis
    unfolding apply_without_transaction_def Inr sum.case wp_simps
  proof (rule wp_mono [OF pinned_statements_wp [OF st(3) [OF assms(3)] assms(4)]], goal_cases)
    case (1 a w1)
    show ?case
      by (rule wp_mono [OF record_outcome_None_wp])
        (use 1 st(1,2) in \<open>auto simp: did_apply_def apply_failed_def Let_def intro!: exI [of _ "length ss"]\<close>)
  next
    case (2 e w1)
    show ?case
    proof (cases "error_is e ErrNoPinnedConn")
      case True
      with 2 show ?thesis by (simp add: wp_simps apply_failed_def)
    next
      case False
      with 2 obtain k where k: "view w1 = ran (take k ss) (view w)" by auto
      show ?thesis
        unfolding if_not_P [OF False]
        by (rule wp_mono [OF record_outcome_Some_wp])
          (use k st(1,2) in \<open>auto simp: apply_failed_def Let_def\<close>)
    qed
  qed
qed

lemma publish_tx: "v' = publish t v \<Longrightarrow> same_sessions v t \<Longrightarrow> v' = t"
  by (auto simp: publish_def same_sessions_def)

lemma same_sessions_ran [simp]: "same_sessions v (ran ss v)"
  by (simp add: same_sessions_def)

lemma same_sessions_deleted [simp]: "same_sessions v (deleted i v)"
  by (simp add: same_sessions_def)

lemma apply_migration_wp:
  assumes "tidy_script U tidy (mig_up_script m)" "unstranded (view w)"
  shows "wp (apply_migration D U ref c m) (\<lambda>_ w'. did_apply U m (view w) (view w'))
     (\<lambda>e w'. apply_failed U m e (view w) (view w')) w"
proof (cases "parse_directive_header (mig_up_script m)")
  case (Inl e)
  then show ?thesis by (simp add: apply_migration_def wp_simps apply_failed_def)
next
  case (Inr db)
  obtain d body where db: "db = (d, body)" by force
  show ?thesis
  proof (cases "has_directive d directive_no_transaction")
    case True
    then show ?thesis
      using apply_without_transaction_wp [OF Inr [unfolded db] True assms] Inr db
      by (simp add: apply_migration_def)
  next
    case False
    note st = steps_of_tx [OF Inr [unfolded db] False]
    have tidy: "tidy body" by (rule st(3) [OF assms(1)])
    show ?thesis
      unfolding apply_migration_def Inr db sum.case prod.case if_not_P [OF False] wp_simps
    proof (rule wp_mono [OF begin_law], goal_cases)
      case (1 tx w1)
      show ?case
      proof (rule wp_mono [OF tx_script_law [OF tidy]], goal_cases)
        case (1 a w2)
        show ?case
        proof (rule wp_mono [OF tx_insert_law], goal_cases)
          case (1 a w3)
          have tx: "did_apply U m (view w) (tx_view w3 tx)" and v: "view w3 = view w"
            using 1 \<open>view w2 = _ \<and> _\<close> \<open>view w1 = _ \<and> _\<close> by (simp_all add: did_apply_def st(1))
          have pub: "publish (tx_view w3 tx) (view w3) = tx_view w3 tx"
            using publish_tx [OF refl] view_ops_sessions(2) [OF tx] v by metis
          show ?case
            by (rule wp_mono [OF commit_law])
              (use tx v pub st(2) in \<open>auto simp: rollback_law apply_failed_def\<close>)
        qed (use \<open>view w2 = _ \<and> _\<close> \<open>view w1 = _ \<and> _\<close> in \<open>simp add: rollback_law apply_failed_def\<close>)
      qed (use 1 in \<open>simp add: rollback_law apply_failed_def\<close>)
    qed (simp add: apply_failed_def)
  qed
qed

section \<open>Recording without running\<close>

lemma record_rows_wp:
  "baselined done v (tx_view w tx) \<Longrightarrow> view w = v \<Longrightarrow>
   wp (record_rows D ref c tx ms) (\<lambda>_ w'. view w' = v \<and> baselined (done @ ms) v (tx_view w' tx)) (\<lambda>_ w'. view w' = v) w"
proof (induction ms arbitrary: "done" w)
  case Nil
  then show ?case by (simp add: wp_simps)
next
  case (Cons m ms)
  show ?case
    unfolding record_rows.simps wp_simps
  proof (rule wp_mono [OF tx_insert_law], goal_cases)
    case (1 a w1)
    have "baselined (done @ [m]) v (tx_view w1 tx)"
      using baselined_next [OF Cons.prems(1)] 1 by blast
    from Cons.IH [OF this] show ?case using 1 Cons.prems(2) by simp
  qed (use Cons.prems in simp)
qed

lemma record_applied_wp:
  "wp (record_applied D ref c ms) (\<lambda>_ w'. baselined ms (view w) (view w'))
     (\<lambda>_ w'. view w' = view w \<or> baselined ms (view w) (view w')) w"
proof (cases "ms = []")
  case True
  then show ?thesis by (simp add: record_applied_def wp_simps)
next
  case False
  show ?thesis
    unfolding record_applied_def if_not_P [OF False] wp_simps
  proof (rule wp_mono [OF begin_law], goal_cases)
    case (1 tx w1)
    have none: "baselined [] (view w) (tx_view w1 tx)" using 1 by simp
    show ?case
    proof (rule wp_mono [OF record_rows_wp [OF none]], goal_cases)
      case (2 a w2)
      then have b: "baselined ms (view w) (tx_view w2 tx)" and v: "view w2 = view w" by simp_all
      have pub: "publish (tx_view w2 tx) (view w2) = tx_view w2 tx"
        using publish_tx [OF refl] steps_sessions(3) [OF b] v by metis
      show ?case
        by (rule wp_mono [OF commit_law]) (use b v pub in \<open>auto simp: rollback_law\<close>)
    qed (use 1 in \<open>simp_all add: rollback_law\<close>)
  qed simp
qed

section \<open>Rolling back\<close>

lemma find_row: "find (\<lambda>r. row_id r = i) rs = Some r \<Longrightarrow> r \<in> set rs \<and> row_id r = i"
  by (auto simp: find_Some_iff)

lemma rollback_without_transaction_wp:
  assumes "v_rows (view w) = Some rs" "r \<in> set rs" "row_id r = i"
    "parse_directive_header (row_down r) = Inr (d, body)" "has_directive d directive_no_transaction"
    "tidy_script U tidy (row_down r)" "unstranded (view w)"
  shows "wp (rollback_without_transaction D U ref c i body) (\<lambda>_ w'. did_rollback U i (view w) (view w'))
     (\<lambda>e w'. rollback_failed U i e (view w) (view w')) w"
proof (cases "split_sql_statements U body")
  case (Inl e)
  then show ?thesis by (simp add: rollback_without_transaction_def wp_simps rollback_failed_def)
next
  case (Inr ss)
  note st = steps_of_no_tx [OF assms(4,5) Inr]
  have did: "did_rollback U i (view w) (deleted i (ran ss (view w)))"
    unfolding did_rollback_def using assms(1-3) st(1) by blast
  have failed: "rollback_failed U i e (view w) v'"
    if "v' = marked i x (ran (take k ss) (view w)) \<and> error_string e = ''execute down script: '' @ x
      \<or> error_is e ErrUnrecorded \<and> v' \<in> {ran (take k ss) (view w), marked i x (ran (take k ss) (view w)),
          deleted i (ran (take k ss) (view w))}" for e v' k x
    unfolding rollback_failed_def Let_def
    by (rule disjI2, rule exI [of _ rs], rule exI [of _ r]) (use that st(1,2) assms(1-3) in auto)
  show ?thesis
    unfolding rollback_without_transaction_def Inr sum.case wp_simps
  proof (rule wp_mono [OF pinned_statements_wp [OF st(3) [OF assms(6)] assms(7)]], goal_cases)
    case (1 a w1)
    show ?case
      by (rule wp_mono [OF delete_law])
        (use 1 did failed [where k = "length ss"] in \<open>auto simp: wp_simps\<close>)
  next
    case (2 e w1)
    show ?case
    proof (cases "error_is e ErrNoPinnedConn")
      case True
      with 2 show ?thesis by (simp add: wp_simps rollback_failed_def)
    next
      case False
      with 2 obtain k where k: "view w1 = ran (take k ss) (view w)" by auto
      show ?thesis
        unfolding if_not_P [OF False] mark_failed_def wp_simps
        by (rule wp_mono [OF update_law])
          (use k failed [where k = k and x = "error_string e"] in \<open>auto simp: wp_simps\<close>)
    qed
  qed
qed

lemma rollback_migration_wp:
  assumes "tidy_rows U tidy (view w)" "unstranded (view w)"
  shows "wp (rollback_migration D U ref c i) (\<lambda>_ w'. did_rollback U i (view w) (view w'))
     (\<lambda>e w'. rollback_failed U i e (view w) (view w')) w"
  unfolding rollback_migration_def wp_simps
proof (rule wp_mono [OF select_down_wp], goal_cases)
  case (1 s w1)
  then obtain rs where v: "view w1 = view w" "v_rows (view w) = Some rs"
    and s: "s = map_option row_down (find (\<lambda>r. row_id r = i) rs)" by blast
  show ?case
  proof (cases "find (\<lambda>r. row_id r = i) rs")
    case None
    then show ?thesis using s v by (simp add: wp_simps rollback_failed_def)
  next
    case (Some r)
    note r = find_row [OF Some]
    have tidy: "tidy_script U tidy (row_down r)" using assms(1) v(2) r by (simp add: tidy_rows_def)
    have srow: "s = Some (row_down r)" using s Some by simp
    show ?thesis
    proof (cases "parse_directive_header (row_down r)")
      case (Inl e)
      then show ?thesis using srow v by (simp add: wp_simps rollback_failed_def)
    next
      case (Inr db)
      obtain d body where db: "db = (d, body)" by force
      show ?thesis
      proof (cases "has_directive d directive_no_transaction")
        case True
        show ?thesis
          using rollback_without_transaction_wp [of w1 rs r i d body U c] v r tidy assms(2) Inr db True srow
          by (simp add: wp_simps)
      next
        case False
        note st = steps_of_tx [OF Inr [unfolded db] False]
        have did: "did_rollback U i (view w) (deleted i (ran [body] (view w)))"
          unfolding did_rollback_def using v(2) r st(1) [of U] by metis
        have failed: "rollback_failed U i e (view w) (deleted i (ran [body] (view w)))" for e
          unfolding rollback_failed_def using v(2) r st(2) did by auto
        have same: "rollback_failed U i e (view w) (view w)" for e
          by (simp add: rollback_failed_def)
        show ?thesis
          unfolding srow option.case Inr db sum.case prod.case if_not_P [OF False] wp_simps
        proof (rule wp_mono [OF begin_law], goal_cases)
          case (1 tx w2)
          show ?case
          proof (rule wp_mono [OF tx_script_law [OF st(3) [OF tidy]]], goal_cases)
            case (1 a w3)
            show ?case
            proof (rule wp_mono [OF tx_delete_law], goal_cases)
              case (1 a w4)
              have tx: "tx_view w4 tx = deleted i (ran [body] (view w))" "view w4 = view w"
                using 1 \<open>view w3 = _ \<and> _\<close> \<open>view w2 = _ \<and> _\<close> v by simp_all
              have pub: "publish (tx_view w4 tx) (view w4) = deleted i (ran [body] (view w))"
                unfolding tx by (simp add: publish_def deleted_def ran_def)
              show ?case
                by (rule wp_mono [OF commit_law]) (use tx pub did failed same in \<open>auto simp: rollback_law\<close>)
            qed (use \<open>view w3 = _ \<and> _\<close> \<open>view w2 = _ \<and> _\<close> v same in \<open>simp add: rollback_law\<close>)
          qed (use 1 v same in \<open>simp add: rollback_law\<close>)
        qed (use v same in simp)
      qed
    qed
  qed
qed (simp add: rollback_failed_def)

end

end
