(* ===== verification/Plan_Execution.thy ===== *)
theory Plan_Execution
  imports Executor_Correct
begin

text \<open>
  \<open>EnsureReversible\<close> and \<open>ExecutePlan\<close> implement the specification of a plan.
\<close>

context sql_database begin

section \<open>The pre-flight check\<close>

lemma collect_irreversible_wp:
  "view w = v \<Longrightarrow>
   wp (collect_irreversible D ref c is acc)
     (\<lambda>irr w'. view w' = v \<and> (irr = [] \<longrightarrow> acc = [] \<and> reversible_rows is v))
     (\<lambda>_ w'. view w' = v) w"
proof (induction "is" arbitrary: acc w)
  case Nil
  then show ?case by (simp add: wp_simps reversible_rows_def)
next
  case (Cons i "is")
  show ?case
    unfolding collect_irreversible.simps wp_simps
  proof (rule wp_mono [OF select_down_wp], goal_cases)
    case (1 s w1)
    then obtain rs where v: "view w1 = v" "v_rows v = Some rs"
      and s: "s = map_option row_down (find (\<lambda>r. row_id r = i) rs)" using Cons.prems by blast
    have pk: "distinct (row_ids rs)" using primary_key [of w1] v by simp
    note IH = Cons.IH [OF v(1)]
    show ?case
    proof (cases "find (\<lambda>r. row_id r = i) rs")
      case None
      then have "reversible_rows is v \<Longrightarrow> reversible_rows (i # is) v"
        using v(2) by (auto simp: reversible_rows_def find_None_iff)
      then show ?thesis using s None by (auto intro: wp_mono [OF IH])
    next
      case (Some r)
      have eq: "r' = r" if "r' \<in> set rs" "row_id r' = i" for r'
        using find_row [OF Some] that pk by (metis distinct_map inj_on_def)
      show ?thesis
      proof (cases "parse_directive_header (row_down r)")
        case (Inl e)
        then show ?thesis using s Some v by (simp add: wp_simps)
      next
        case (Inr db)
        obtain d body where db: "db = (d, body)" by force
        have "\<not> has_directive d directive_irreversible \<Longrightarrow> reversible_rows is v \<Longrightarrow> reversible_rows (i # is) v"
          using v(2) eq Inr db by (auto simp: reversible_rows_def script_irreversible_def)
        then show ?thesis
          using s Some Inr db by (auto intro!: wp_mono [OF IH])
      qed
    qed
  qed (use Cons.prems in simp)
qed

lemma ensure_reversible_wp:
  "wp (ensure_reversible D ref c is) (\<lambda>_ w'. view w' = view w \<and> reversible_rows is (view w))
     (\<lambda>_ w'. view w' = view w) w"
proof (cases "is = []")
  case True
  then show ?thesis by (simp add: ensure_reversible_def wp_simps reversible_rows_def)
next
  case False
  show ?thesis
    unfolding ensure_reversible_def if_not_P [OF False] wp_simps
    by (rule wp_mono [OF collect_irreversible_wp [OF refl]]) (auto simp: wp_simps)
qed

section \<open>The two loops\<close>

lemma rollback_all_wp:
  assumes "ms \<noteq> [] \<longrightarrow> tidy_rows U tidy v" "unstranded v" "reversible_rows (ids (to_rollback plan)) v"
  shows "rolled_back U (ids (ex_rolled_back res)) v (view w) \<Longrightarrow> ex_applied res = [] \<Longrightarrow>
    to_rollback plan = ex_rolled_back res @ ms \<Longrightarrow>
    wp (rollback_all D U ref c ms)
      (\<lambda>_ (w', res'). rolled_back U (ids (to_rollback plan)) v (view w') \<and> ex_applied res' = []
         \<and> ex_rolled_back res' = to_rollback plan)
      (\<lambda>e (w', res'). plan_failed U plan (ex_rolled_back res') (ex_applied res') e v (view w')) (w, res)"
  using assms(1)
proof (induction ms arbitrary: res w)
  case Nil
  then show ?case by (simp add: wp_simps)
next
  case (Cons m ms)
  have t: "tidy_rows U tidy (view w)" by (rule rolled_back_tidy [OF Cons.prems(1)]) (use Cons.prems(4) in simp)
  have u: "unstranded (view w)"
    using same_sessions_unstranded [OF steps_sessions(1) [OF Cons.prems(1)]] assms(2) by simp
  show ?case
    unfolding rollback_all.simps wp_simps
  proof (rule wp_mono [OF rollback_migration_wp [OF t u]], goal_cases)
    case (1 a w1)
    let ?res = "res\<lparr>ex_rolled_back := ex_rolled_back res @ [m]\<rparr>"
    have "rolled_back U (ids (ex_rolled_back ?res)) v (view w1)"
      using rolled_back_next [OF Cons.prems(1) 1] by simp
    from Cons.IH [OF this] Cons.prems show ?case by (simp add: wp_simps)
  next
    case (2 e w1)
    then show ?case using Cons.prems assms(3) unfolding plan_failed_def step_failed_def by auto
  qed
qed

lemma apply_all_wp:
  assumes "unstranded vr" "rolled_back U (ids (to_rollback plan)) v vr" "tidy_migrations U tidy (to_apply plan)"
    "\<forall>m \<in> set (to_apply plan). all (mig_id m) = Some m" "reversible_rows (ids (to_rollback plan)) v"
  shows "applied U (ex_applied res) vr (view w) \<Longrightarrow> ex_rolled_back res = to_rollback plan \<Longrightarrow>
    to_apply plan = ex_applied res @ ms \<Longrightarrow>
    wp (apply_all D U ref c all ms)
      (\<lambda>_ (w', res'). applied U (to_apply plan) vr (view w') \<and> ex_applied res' = to_apply plan
         \<and> ex_rolled_back res' = to_rollback plan)
      (\<lambda>e (w', res'). plan_failed U plan (ex_rolled_back res') (ex_applied res') e v (view w')) (w, res)"
proof (induction ms arbitrary: res w)
  case Nil
  then show ?case by (simp add: wp_simps)
next
  case (Cons m ms)
  have m: "all (mig_id m) = Some m" "tidy_script U tidy (mig_up_script m)"
    using Cons.prems(3) assms(3,4) by (auto simp: tidy_migrations_def)
  have u: "unstranded (view w)"
    using same_sessions_unstranded [OF steps_sessions(2) [OF Cons.prems(1)]] assms(1) by simp
  show ?case
    unfolding apply_all.simps m(1) option.case wp_simps
  proof (rule wp_mono [OF apply_migration_wp [OF m(2) u]], goal_cases)
    case (1 a w1)
    let ?res = "res\<lparr>ex_applied := ex_applied res @ [m]\<rparr>"
    have "applied U (ex_applied ?res) vr (view w1)"
      using applied_next [OF Cons.prems(1) 1] by simp
    from Cons.IH [OF this] Cons.prems show ?case by (simp add: wp_simps)
  next
    case (2 e w1)
    have "apply_failed U m e (view w) (view w1) \<Longrightarrow>
        plan_failed U plan (ex_rolled_back res) (ex_applied res)
          (wrapf [Lit ''apply '', Lit (mig_id m), Lit '' failed: ''] e) v (view w1)"
      unfolding plan_failed_def step_failed_def using Cons.prems assms(2,5) by auto
    with 2 show ?case by simp
  qed
qed

section \<open>The whole plan\<close>

lemma execute_plan_body_wp:
  assumes "plan_runnable U tidy plan all (view w)" "unstranded (view w)"
  shows "wp (execute_plan_body D U ref c plan all)
    (\<lambda>_ (w', res). plan_done U plan (view w) (view w') \<and> reversible_rows (ids (to_rollback plan)) (view w)
       \<and> ex_applied res = to_apply plan \<and> ex_rolled_back res = to_rollback plan)
    (\<lambda>e (w', res). plan_failed U plan (ex_rolled_back res) (ex_applied res) e (view w) (view w')) (w, empty_execution)"
proof (cases "to_rollback plan = [] \<and> to_apply plan = []")
  case True
  then show ?thesis
    by (simp add: execute_plan_body_def wp_simps plan_done_def empty_execution_def reversible_rows_def)
next
  case False
  show ?thesis
    unfolding execute_plan_body_def if_not_P [OF False] wp_simps
  proof (rule wp_mono [OF ensure_reversible_wp], goal_cases)
    case (1 a w1)
    then have v: "view w1 = view w" and rev: "reversible_rows (ids (to_rollback plan)) (view w)" by simp_all
    have "wp (rollback_all D U ref c (to_rollback plan))
      (\<lambda>_ (w', res'). rolled_back U (ids (to_rollback plan)) (view w) (view w') \<and> ex_applied res' = []
         \<and> ex_rolled_back res' = to_rollback plan)
      (\<lambda>e (w', res'). plan_failed U plan (ex_rolled_back res') (ex_applied res') e (view w) (view w'))
      (w1, empty_execution)"
      by (rule rollback_all_wp) (use assms v rev in \<open>simp_all add: empty_execution_def plan_runnable_def\<close>)
    then show ?case
    proof (rule wp_mono, goal_cases)
      case (1 a s)
      obtain w2 res where s: "s = (w2, res)" by force
      have rb: "rolled_back U (ids (to_rollback plan)) (view w) (view w2)" "ex_applied res = []"
        "ex_rolled_back res = to_rollback plan" using 1 s by simp_all
      have u: "unstranded (view w2)"
        using same_sessions_unstranded [OF steps_sessions(1) [OF rb(1)]] assms(2) by simp
      have "wp (apply_all D U ref c (id_map all) (to_apply plan))
        (\<lambda>_ (w', res'). applied U (to_apply plan) (view w2) (view w') \<and> ex_applied res' = to_apply plan
           \<and> ex_rolled_back res' = to_rollback plan)
        (\<lambda>e (w', res'). plan_failed U plan (ex_rolled_back res') (ex_applied res') e (view w) (view w')) (w2, res)"
        by (rule apply_all_wp [OF u rb(1)]) (use assms(1) rb rev in \<open>simp_all add: plan_runnable_def\<close>)
      then show ?case
        unfolding s by (rule wp_mono) (use rb(1) rev in \<open>auto simp: plan_done_def\<close>)
    qed
  qed (auto simp: plan_failed_def empty_execution_def)
qed

lemma execute_plan_spec:
  assumes "plan_runnable U tidy plan all (view w)" "unstranded (view w)"
    "execute_plan D U ref c plan all w = (w', res, err)"
  shows "case err of
      None \<Rightarrow> plan_done U plan (view w) (view w') \<and> reversible_rows (ids (to_rollback plan)) (view w)
        \<and> ex_applied res = to_apply plan \<and> ex_rolled_back res = to_rollback plan
    | Some e \<Rightarrow> plan_failed U plan (ex_rolled_back res) (ex_applied res) e (view w) (view w')"
  using execute_plan_body_wp [OF assms(1,2), of c] assms(3)
  by (auto simp: execute_plan_def wp_def err_of_def split: prod.splits sum.splits)

end

end
