(* ===== verification/Service_Correct.thy ===== *)
theory Service_Correct
  imports Service Ledger Executor_Correct
begin

text \<open>
  The contracts of the service's interfaces as locales, and the properties of the service's operations
  proved once from them. The contract of the executor is the ledger specification; the contract of the
  locker is that a successful acquisition pins one session that holds the lock, under its key and no one else's, and
  that a failed one and every release leave no session behind that does.
\<close>

section \<open>Contracts\<close>

locale executor_contract =
  fixes E :: "'w migration_executor" and U :: unicode and view :: "'w \<Rightarrow> db_view" and tidy :: "string \<Rightarrow> bool"
  assumes ensure_table_law: "wp (x_ensure_table E c) (\<lambda>_ w'. view w' = table_created (view w))
      (\<lambda>_ w'. view w' \<in> {view w, table_created (view w)}) w"
    and table_exists_law: "wp (x_table_exists E c)
      (\<lambda>b w'. view w' = view w \<and> b = (v_rows (view w) \<noteq> None)) (\<lambda>_ w'. view w' = view w) w"
    and applied_law: "wp (x_applied E c)
      (\<lambda>ms w'. view w' = view w \<and> (\<exists>rs. v_rows (view w) = Some rs \<and> ms = map applied_of rs)) (\<lambda>_ w'. view w' = view w) w"
    and record_applied_law: "wp (x_record_applied E c ms) (\<lambda>_ w'. baselined ms (view w) (view w'))
      (\<lambda>_ w'. view w' = view w \<or> baselined ms (view w) (view w')) w"
    and rollback_law: "tidy_rows U tidy (view w) \<Longrightarrow> unstranded (view w) \<Longrightarrow>
      wp (x_rollback E c i) (\<lambda>_ w'. did_rollback U i (view w) (view w'))
        (\<lambda>e w'. rollback_failed U i e (view w) (view w')) w"
    and delete_record_law: "wp (x_delete_record E c i)
      (\<lambda>b w'. view w' = deleted i (view w) \<and> (\<exists>rs. v_rows (view w) = Some rs \<and> b = (i \<in> set (row_ids rs))))
      (\<lambda>_ w'. view w' \<in> {view w, deleted i (view w)}) w"
    and ensure_reversible_law: "wp (x_ensure_reversible E c is)
      (\<lambda>_ w'. view w' = view w \<and> reversible_rows is (view w)) (\<lambda>_ w'. view w' = view w) w"
    and execute_plan_law: "plan_runnable U tidy plan all (view w) \<Longrightarrow> unstranded (view w) \<Longrightarrow>
      x_execute_plan E c plan all w = (w', executed, err) \<Longrightarrow>
      \<exists>x. executed = Some x \<and> (case err of
          None \<Rightarrow> plan_done U plan (view w) (view w') \<and> reversible_rows (ids (to_rollback plan)) (view w)
            \<and> ex_applied x = to_apply plan \<and> ex_rolled_back x = to_rollback plan
        | Some e \<Rightarrow> plan_failed U plan (ex_rolled_back x) (ex_applied x) e (view w) (view w'))"

locale locker_contract =
  fixes L :: "('w, 'l) locker" and view :: "'w \<Rightarrow> db_view" and held :: "'l \<Rightarrow> nat option" and key :: int
  assumes acquire_law: "held l = None \<Longrightarrow> unstranded (view w) \<Longrightarrow>
      wp (lk_acquire L c)
        (\<lambda>_ (w', l'). \<exists>n. held l' = Some n \<and> n \<notin> v_out (view w) \<and> key \<notin> snd ` set (v_locks (view w))
           \<and> view w' = with_sessions ((n, key) # v_locks (view w)) (insert n (v_out (view w))) (view w))
        (\<lambda>_ (w', l'). held l' = None \<and> view w' = view w) (w, l)"
    and release_law: "held l = Some n \<Longrightarrow> v_locks (view w) = (n, key) # others \<Longrightarrow> n \<notin> fst ` set others \<Longrightarrow>
      lk_release L c (w, l) = ((w', l'), r) \<Longrightarrow>
      held l' = None \<and> view w' = with_sessions others (v_out (view w) - {n}) (view w)"

locale service_contract = executor_contract E U view tidy + locker_contract L view held key
  for E :: "'w migration_executor" and U view tidy and L :: "('w, 'l) locker" and held key +
  fixes S :: "('w, 'l) service"
  assumes executor_is: "sv_executor S = E" and locker_is: "sv_locker S = L"

section \<open>Ledger facts the operations share\<close>

definition rows_of :: "db_view \<Rightarrow> row list" where
  "rows_of v = (case v_rows v of None \<Rightarrow> [] | Some rs \<Rightarrow> rs)"

definition healthy :: "row list \<Rightarrow> bool" where
  "healthy rs \<longleftrightarrow> (\<forall>r \<in> set rs. row_error r = None)"

definition db_of :: "row list \<Rightarrow> migration list" where
  "db_of rs = map (\<lambda>r. migration_of (applied_of r)) rs"

lemma db_of_ids [simp]: "ids (db_of rs) = row_ids rs"
  by (simp add: db_of_def migration_of_def comp_def)

lemma rows_created [simp]: "v_rows (table_created v) = Some (rows_of v)"
  by (auto simp: table_created_def rows_of_def split: option.split)

lemma table_created_idem [simp]: "table_created (table_created v) = table_created v"
  by (auto simp: table_created_def split: option.split)

lemma wp_on_executor [wp_simps]:
  "wp (on_executor m) Q E ((w, l), r) = wp m (\<lambda>a w'. Q a ((w', l), r)) (\<lambda>e w'. E e ((w', l), r)) w"
  by (simp add: on_executor_def wp_simps)

lemma wp_set_result [wp_simps]: "wp (set_result f) Q E (s, r) = Q () (s, f r)"
  by (simp add: set_result_def wp_simps)

context service_contract begin

lemma refuse_if_failed_wp:
  "wp (refuse_if_failed S c)
     (\<lambda>_ w'. view w' = view w \<and> (\<exists>rs. v_rows (view w) = Some rs \<and> healthy rs)) (\<lambda>_ w'. view w' = view w) w"
  unfolding refuse_if_failed_def wp_simps executor_is
  by (rule wp_mono [OF applied_law])
    (auto simp: wp_simps Let_def healthy_def filter_empty_conv)

lemma applied_migrations_wp:
  "wp (applied_migrations S c)
     (\<lambda>ms w'. view w' = view w \<and> ms = map applied_of (rows_of (view w))) (\<lambda>_ w'. view w' = view w) w"
  unfolding applied_migrations_def wp_simps executor_is
proof (rule wp_mono [OF table_exists_law], goal_cases)
  case (1 b w1)
  show ?case
  proof (cases b)
    case False
    with 1 show ?thesis by (simp add: wp_simps rows_of_def)
  next
    case True
    have "wp (x_applied E c) (\<lambda>ms w'. view w' = view w \<and> ms = map applied_of (rows_of (view w)))
        (\<lambda>_ w'. view w' = view w) w1"
      by (rule wp_mono [OF applied_law]) (use 1 in \<open>auto simp: rows_of_def\<close>)
    with True show ?thesis by (simp add: wp_simps)
  qed
qed simp

lemma get_migrations_wp:
  "wp (service_get_migrations S c)
     (\<lambda>(files, db) w'. view w' = view w \<and> sv_source S = Inr files \<and> db = db_of (rows_of (view w)))
     (\<lambda>_ w'. view w' = view w) w"
proof (cases "sv_source S")
  case (Inl e)
  then show ?thesis by (simp add: service_get_migrations_def wp_simps)
next
  case (Inr files)
  have "wp (applied_migrations S c)
      (\<lambda>ms w'. view w' = view w \<and> map migration_of ms = db_of (rows_of (view w))) (\<lambda>_ w'. view w' = view w) w"
    by (rule wp_mono [OF applied_migrations_wp]) (auto simp: db_of_def)
  then show ?thesis using Inr by (simp add: service_get_migrations_def wp_simps)
qed

lemma execute_and_record_wp:
  assumes "plan_runnable U tidy exec_plan files (view w)" "unstranded (view w)"
  shows "wp (execute_and_record S c exec_plan files plan)
    (\<lambda>_ ((w', l'), r'). l' = l \<and> plan_done U exec_plan (view w) (view w')
       \<and> reversible_rows (ids (to_rollback exec_plan)) (view w)
       \<and> r' = record_execution r (Some \<lparr>ex_applied = to_apply exec_plan, ex_rolled_back = to_rollback exec_plan\<rparr>) plan)
    (\<lambda>e ((w', l'), r'). l' = l \<and> (\<exists>x ps cause. e = wrapf ps cause \<and> r' = record_execution r (Some x) plan
       \<and> plan_failed U exec_plan (ex_rolled_back x) (ex_applied x) cause (view w) (view w'))) ((w, l), r)"
proof -
  obtain w' executed err where run: "x_execute_plan E c exec_plan files w = (w', executed, err)"
    by (cases "x_execute_plan E c exec_plan files w") auto
  obtain x where "executed = Some x" and spec: "case err of
          None \<Rightarrow> plan_done U exec_plan (view w) (view w') \<and> reversible_rows (ids (to_rollback exec_plan)) (view w)
            \<and> ex_applied x = to_apply exec_plan \<and> ex_rolled_back x = to_rollback exec_plan
        | Some e \<Rightarrow> plan_failed U exec_plan (ex_rolled_back x) (ex_applied x) e (view w) (view w')"
    using execute_plan_law [OF assms run] by blast
  then show ?thesis
    using run by (cases err) (auto simp: wp_def execute_and_record_def executor_is record_execution_def)
qed

lemma with_lock_wp:
  assumes "held l = None" "unstranded (view w)"
    and "\<And>w1 l1 n. view w1 = with_sessions ((n, key) # v_locks (view w)) (insert n (v_out (view w))) (view w) \<Longrightarrow>
      unstranded (view w1) \<Longrightarrow>
      wp fn (\<lambda>a ((w', l'), r'). l' = l1 \<and> same_sessions (view w1) (view w')
               \<and> Q a (with_sessions (v_locks (view w)) (v_out (view w)) (view w')) r')
            (\<lambda>e ((w', l'), r'). l' = l1 \<and> same_sessions (view w1) (view w')
               \<and> F e (with_sessions (v_locks (view w)) (v_out (view w)) (view w')) r') ((w1, l1), r)"
    and "\<And>e. F (wrapf [Lit ''acquire lock: ''] e) (view w) r"
  shows "wp (with_lock S c fn)
    (\<lambda>a ((w', l'), r'). held l' = None \<and> same_sessions (view w) (view w') \<and> Q a (view w') r')
    (\<lambda>e ((w', l'), r'). held l' = None \<and> same_sessions (view w) (view w') \<and> F e (view w') r') ((w, l), r)"
  unfolding with_lock_def wp_simps locker_is
proof (rule wp_mono [OF acquire_law [OF assms(1,2)]], goal_cases)
  case (1 a s)
  obtain w1 l1 where s: "s = (w1, l1)" by force
  obtain n where n: "held l1 = Some n" "n \<notin> v_out (view w)"
    "view w1 = with_sessions ((n, key) # v_locks (view w)) (insert n (v_out (view w))) (view w)" using 1 s by auto
  have u: "unstranded (view w1)" using assms(2) by (simp add: unstranded_def n(3))
  have fresh: "n \<notin> fst ` set (v_locks (view w))" using assms(2) n(2) by (auto simp: unstranded_def)
  have release: "held l' = None \<and> view w' = with_sessions (v_locks (view w)) (v_out (view w)) (view w2)"
    if "lk_release L c (w2, l1) = ((w', l'), r)" "same_sessions (view w1) (view w2)" for w2 w' l' r
    using release_law [OF n(1) _ fresh that(1)] that(2) n(2,3) by (simp add: same_sessions_def)
  have same: "same_sessions (view w) (with_sessions (v_locks (view w)) (v_out (view w)) v2)" for v2
    by (simp add: same_sessions_def)
  show ?case
    unfolding s
  proof (rule wp_mono [OF assms(3) [OF n(3) u]], goal_cases)
    case (1 a s)
    obtain w2 l2 r2 where "s = ((w2, l2), r2)" by (metis prod.exhaust)
    moreover obtain w' l' res where "lk_release L c (w2, l1) = ((w', l'), res)" by (metis prod.exhaust)
    ultimately show ?case using 1 release same by auto
  next
    case (2 e s)
    obtain w2 l2 r2 where "s = ((w2, l2), r2)" by (metis prod.exhaust)
    moreover obtain w' l' res where "lk_release L c (w2, l1) = ((w', l'), res)" by (metis prod.exhaust)
    ultimately show ?case using 2 release same by auto
  qed
qed (use assms(4) in auto)

end

end
