(* ===== verification/Service_Ops.thy ===== *)
theory Service_Ops
  imports Service_Correct
begin

text \<open>
  Up, Reconcile, Rollback, Baseline and Forget: what each leaves behind, proved from the contracts.
\<close>

section \<open>Outcomes\<close>

text \<open>
  A run of \<open>plan\<close> that failed: it changed nothing but created the table, or stopped within the plan,
  which it only started on a ledger without failed rows; the result reports what completed.
\<close>

definition unchanged :: "db_view \<Rightarrow> db_view \<Rightarrow> migrate_result \<Rightarrow> bool" where
  "unchanged v v' r \<longleftrightarrow> v' \<in> {v, table_created v} \<and> res_applied r = [] \<and> res_rolled_back r = []"

definition run_failed :: "unicode \<Rightarrow> migration_plan \<Rightarrow> db_view \<Rightarrow> db_view \<Rightarrow> migrate_result \<Rightarrow> goerr \<Rightarrow> bool" where
  "run_failed U plan v v' r e \<longleftrightarrow>
     unchanged v v' r
     \<or> healthy (rows_of v) \<and> (\<exists>cause. (e = cause \<or> (\<exists>ps. e = wrapf ps cause))
          \<and> plan_failed U plan (res_rolled_back r) (res_applied r) cause (table_created v) v')"

definition up_plan :: "migration list \<Rightarrow> row list \<Rightarrow> migration_plan" where
  "up_plan files rs =
     \<lparr>to_rollback = [], to_apply = filter (\<lambda>m. mig_id m \<notin> set (row_ids rs)) files, plan_interleaved = []\<rparr>"

definition reconcile_plan :: "migration list \<Rightarrow> row list \<Rightarrow> migration_plan" where
  "reconcile_plan files rs = build_plan files (db_of rs) True"

text \<open>The last \<open>count\<close> rows, or all of them.\<close>

definition last_rows :: "int \<Rightarrow> row list \<Rightarrow> row list" where
  "last_rows count rs =
     (if count \<le> 0 \<or> int (length rs) < count then rs else drop (length rs - nat count) rs)"

definition rollback_plan :: "int \<Rightarrow> row list \<Rightarrow> migration_plan" where
  "rollback_plan count rs = \<lparr>to_rollback = rev (db_of (last_rows count rs)), to_apply = [], plan_interleaved = []\<rparr>"

lemma rollback_candidates_rows:
  "map migration_of (rollback_candidates count (map applied_of rs)) = db_of (last_rows count rs)"
  by (simp add: rollback_candidates_def last_rows_def db_of_def drop_map Let_def comp_def)

definition source_ok :: "unicode \<Rightarrow> (string \<Rightarrow> bool) \<Rightarrow> migration list result \<Rightarrow> bool" where
  "source_ok U tidy src \<longleftrightarrow> (\<forall>files. src = Inr files \<longrightarrow> distinct (ids files) \<and> tidy_migrations U tidy files)"

lemma rows_of_with_sessions [simp]: "rows_of (with_sessions L B v) = rows_of v"
  by (simp add: rows_of_def)

lemma run_failedI:
  "plan_failed U plan (res_rolled_back r) (res_applied r) cause (table_created v) v' \<Longrightarrow> healthy (rows_of v) \<Longrightarrow>
     e = cause \<or> (\<exists>ps. e = wrapf ps cause) \<Longrightarrow> run_failed U plan v v' r e"
  unfolding run_failed_def by blast

lemma run_failed_with_sessions:
  assumes "run_failed U plan v v' r e"
  shows "run_failed U plan (with_sessions L B v) (with_sessions L B v') r e"
proof (cases "unchanged v v' r")
  case True
  then show ?thesis by (auto simp: run_failed_def unchanged_def)
next
  case False
  with assms obtain cause where "healthy (rows_of v)" "e = cause \<or> (\<exists>ps. e = wrapf ps cause)"
    and f: "plan_failed U plan (res_rolled_back r) (res_applied r) cause (table_created v) v'"
    unfolding run_failed_def by blast
  with plan_failed_with_sessions [OF f, of L B] show ?thesis unfolding run_failed_def by auto
qed

lemma interleaved_applied:
  "filter (\<lambda>m. mig_id m \<in> set (ids (to_apply (build_plan files db b)))) (plan_interleaved (build_plan files db b))
     = plan_interleaved (build_plan files db b)"
  by (rule filter_True) auto

lemma to_apply_lookup:
  assumes "distinct (ids files)"
  shows "\<forall>m \<in> set (to_apply (build_plan files db b)). id_map files (mig_id m) = Some m"
  using id_map_Some [OF assms] by simp

lemma runnable_plan:
  assumes "source_ok U tidy src" "src = Inr files" "\<not> b \<or> tidy_rows U tidy v"
  shows "plan_runnable U tidy \<lparr>to_rollback = if b then to_rollback (build_plan files db b) else [],
      to_apply = to_apply (build_plan files db b), plan_interleaved = i\<rparr> files v"
  using assms to_apply_lookup [of files db b]
  by (auto simp: plan_runnable_def source_ok_def tidy_migrations_def)

lemma tidy_rows_created: "tidy_rows U tidy v \<Longrightarrow> tidy_rows U tidy (table_created v)"
  by (cases "v_rows v") (auto simp: tidy_rows_def rows_of_def)

lemma same_sessions_created [simp]: "same_sessions v (table_created v)"
  by (simp add: same_sessions_def)

lemma run_failed_sessions: "run_failed U plan v v' r e \<Longrightarrow> same_sessions v v'"
  unfolding run_failed_def unchanged_def
  by (auto intro: same_sessions_trans [OF same_sessions_created] plan_failed_sessions)

lemma unstranded_created [simp]: "unstranded (table_created v) = unstranded v"
  by (simp add: unstranded_def)

lemma record_execution_simps [simp]:
  "res_applied (record_execution r (Some x) plan) = ex_applied x"
  "res_rolled_back (record_execution r (Some x) plan) = ex_rolled_back x"
  "res_extras_left (record_execution r (Some x) plan) = res_extras_left r"
  "res_interleaved (record_execution r (Some x) plan) = res_interleaved r @
     filter (\<lambda>m. mig_id m \<in> set (ids (ex_applied x))) (plan_interleaved plan)"
  by (simp_all add: record_execution_def Let_def)

context service_contract begin

lemma preamble_wp:
  assumes "\<And>w'. view w' = table_created (view w) \<Longrightarrow> healthy (rows_of (view w)) \<Longrightarrow> wp k Q F ((w', l), r)"
    and "\<And>e w'. view w' \<in> {view w, table_created (view w)} \<Longrightarrow> F e ((w', l), r)"
  shows "wp (go_try (on_executor (x_ensure_table E c)) ps (\<lambda>_. go_bind (on_executor (refuse_if_failed S c)) (\<lambda>_. k)))
    Q F ((w, l), r)"
  unfolding wp_simps
proof (rule wp_mono [OF ensure_table_law], goal_cases)
  case (1 a w1)
  show ?case
    by (rule wp_mono [OF refuse_if_failed_wp]) (use 1 assms in auto)
qed (use assms(2) in simp)

section \<open>Up\<close>

lemma up_body_wp:
  assumes "source_ok U tidy (sv_source S)" "unstranded (view w)"
  shows "wp (up_body S c)
    (\<lambda>_ ((w', l'), r'). l' = l \<and> healthy (rows_of (view w)) \<and> (\<exists>files. sv_source S = Inr files
       \<and> plan_done U (up_plan files (rows_of (view w))) (table_created (view w)) (view w')
       \<and> res_applied r' = to_apply (up_plan files (rows_of (view w))) \<and> res_rolled_back r' = []
       \<and> res_extras_left r' = to_rollback (build_plan files (db_of (rows_of (view w))) False)
       \<and> res_interleaved r' = plan_interleaved (build_plan files (db_of (rows_of (view w))) False)))
    (\<lambda>e ((w', l'), r'). l' = l \<and> (unchanged (view w) (view w') r' \<or> (\<exists>files. sv_source S = Inr files
       \<and> run_failed U (up_plan files (rows_of (view w))) (view w) (view w') r' e))) ((w, l), empty_result)"
  unfolding up_body_def executor_is
proof (rule preamble_wp, goal_cases)
  case (1 w1)
  let ?rs = "rows_of (view w)"
  show ?case
    unfolding wp_simps
  proof (rule wp_mono [OF get_migrations_wp], goal_cases)
    case (1 fd w2)
    obtain files db where fd: "fd = (files, db)" by force
    have v: "view w2 = table_created (view w)" "sv_source S = Inr files" "db = db_of ?rs"
      using 1 \<open>view w1 = _\<close> fd by (auto simp: rows_of_def)
    let ?plan = "build_plan files db False"
    have exec: "\<lparr>to_rollback = [], to_apply = to_apply ?plan, plan_interleaved = []\<rparr> = up_plan files ?rs"
      by (simp add: up_plan_def v(3))
    have run: "plan_runnable U tidy (up_plan files ?rs) files (view w2)"
      using runnable_plan [OF assms(1) v(2), of False "view w2" db "[]"] exec by simp
    have int: "filter (\<lambda>m. mig_id m \<in> set (ids (to_apply (up_plan files ?rs)))) (plan_interleaved ?plan) = plan_interleaved ?plan"
      using interleaved_applied [of files db False] by (simp only: exec [symmetric] migration_plan.simps)
    show ?case
      unfolding fd prod.case Let_def wp_simps exec
    proof (rule wp_mono [OF execute_and_record_wp [OF run]], goal_cases)
      case (2 a s)
      then show ?case using v \<open>healthy _\<close> int by (auto simp: empty_result_def up_plan_def)
    next
      case (3 e s)
      then show ?case using v \<open>healthy _\<close> by (auto intro!: run_failedI simp: empty_result_def)
    qed (use v assms(2) in simp)
  qed (use 1 in \<open>auto simp: unchanged_def empty_result_def\<close>)
qed (auto simp: run_failed_def unchanged_def empty_result_def)

section \<open>Reconcile\<close>

lemma reconcile_body_wp:
  assumes "source_ok U tidy (sv_source S)" "unstranded (view w)" "tidy_rows U tidy (view w)"
  shows "wp (reconcile_body S c opts)
    (\<lambda>_ ((w', l'), r'). l' = l \<and> healthy (rows_of (view w)) \<and> (\<exists>files. sv_source S = Inr files
       \<and> blocked_by (reconcile_plan files (rows_of (view w))) files opts = None
       \<and> plan_done U (reconcile_plan files (rows_of (view w))) (table_created (view w)) (view w')
       \<and> reversible_rows (ids (to_rollback (reconcile_plan files (rows_of (view w))))) (table_created (view w))
       \<and> r' = \<lparr>res_applied = to_apply (reconcile_plan files (rows_of (view w))),
           res_rolled_back = to_rollback (reconcile_plan files (rows_of (view w))), res_extras_left = [],
           res_interleaved = plan_interleaved (reconcile_plan files (rows_of (view w)))\<rparr>))
    (\<lambda>e ((w', l'), r'). l' = l \<and> (unchanged (view w) (view w') r' \<or> (\<exists>files. sv_source S = Inr files
       \<and> blocked_by (reconcile_plan files (rows_of (view w))) files opts = None
       \<and> run_failed U (reconcile_plan files (rows_of (view w))) (view w) (view w') r' e)))
    ((w, l), empty_result)"
  unfolding reconcile_body_def executor_is
proof (rule preamble_wp, goal_cases)
  case (1 w1)
  let ?rs = "rows_of (view w)"
  show ?case
    unfolding wp_simps
  proof (rule wp_mono [OF get_migrations_wp], goal_cases)
    case (1 fd w2)
    obtain files db where fd: "fd = (files, db)" by force
    have v: "view w2 = table_created (view w)" "sv_source S = Inr files" "db = db_of ?rs"
      using 1 \<open>view w1 = _\<close> fd by (auto simp: rows_of_def)
    let ?plan = "build_plan files db True"
    have plan: "?plan = reconcile_plan files ?rs" by (simp add: reconcile_plan_def v(3))
    show ?case
    proof (cases "blocked_by ?plan files opts")
      case (Some blocked)
      have "blocked_by ?plan files opts = Some blocked" by (rule Some)
      then show ?thesis
        using v by (auto simp: fd wp_simps run_failed_def unchanged_def empty_result_def)
    next
      case None
      have "?plan = \<lparr>to_rollback = to_rollback ?plan, to_apply = to_apply ?plan, plan_interleaved = plan_interleaved ?plan\<rparr>"
        by simp
      then have run: "plan_runnable U tidy ?plan files (view w2)"
        using runnable_plan [OF assms(1) v(2), of True "view w2" db "plan_interleaved ?plan"]
          tidy_rows_created [OF assms(3)] v(1) by (simp only: if_True simp_thms)
      have result: "record_execution empty_result (Some \<lparr>ex_applied = to_apply ?plan, ex_rolled_back = to_rollback ?plan\<rparr>) ?plan
          = \<lparr>res_applied = to_apply ?plan, res_rolled_back = to_rollback ?plan, res_extras_left = [],
             res_interleaved = plan_interleaved ?plan\<rparr>"
        using interleaved_applied [of files db True]
        by (simp del: to_apply_eq to_rollback_eq plan_interleaved_eq
            add: record_execution_def empty_result_def)
      show ?thesis
        unfolding fd prod.case Let_def None option.case
      proof (rule wp_mono [OF execute_and_record_wp [OF run]], goal_cases)
        case (2 a s)
        then show ?case
          using v(1,2) \<open>healthy _\<close> None [unfolded plan] result [unfolded plan] unfolding plan by auto
      next
        case (3 e s)
        then show ?case
          using v(1,2) \<open>healthy _\<close> None [unfolded plan] unfolding plan by (auto intro!: run_failedI)
      qed (use v assms(2) in simp)
    qed
  qed (use 1 in \<open>auto simp: run_failed_def unchanged_def empty_result_def\<close>)
qed (auto simp: run_failed_def unchanged_def empty_result_def)

section \<open>Rollback\<close>

lemma rollback_loop_wp:
  assumes "tidy_rows U tidy v" "unstranded v" "healthy (rows_of v0)" "v = table_created v0" "to_apply plan = []"
    "reversible_rows (ids (to_rollback plan)) v"
  shows "rolled_back U (ids (res_rolled_back r)) v (view w) \<Longrightarrow> res_applied r = [] \<Longrightarrow>
    to_rollback plan = res_rolled_back r @ map migration_of as \<Longrightarrow>
    wp (rollback_loop S c as)
      (\<lambda>_ ((w', l'), r'). l' = l \<and> plan_done U plan v (view w') \<and> res_applied r' = []
         \<and> res_rolled_back r' = to_rollback plan)
      (\<lambda>e ((w', l'), r'). l' = l \<and> run_failed U plan v0 (view w') r' e) ((w, l), r)"
proof (induction as arbitrary: r w)
  case Nil
  then show ?case using assms(5) by (simp add: wp_simps plan_done_def)
next
  case (Cons a as)
  have t: "tidy_rows U tidy (view w)" by (rule rolled_back_tidy [OF Cons.prems(1) assms(1)])
  have u: "unstranded (view w)"
    using same_sessions_unstranded [OF steps_sessions(1) [OF Cons.prems(1)]] assms(2) by simp
  show ?case
    unfolding rollback_loop.simps wp_simps executor_is
  proof (rule wp_mono [OF rollback_law [OF t u]], goal_cases)
    case (1 x w1)
    let ?r = "r\<lparr>res_rolled_back := res_rolled_back r @ [migration_of a]\<rparr>"
    have "rolled_back U (ids (res_rolled_back ?r)) v (view w1)"
      using rolled_back_next [OF Cons.prems(1) 1] by (simp add: migration_of_def)
    from Cons.IH [OF this] Cons.prems show ?case by simp
  next
    case (2 e w1)
    let ?e = "wrapf [Lit ''rollback '', Lit (am_id a), Lit '' failed: ''] e"
    have "plan_failed U plan (res_rolled_back r) (res_applied r) ?e (table_created v0) (view w1)"
      unfolding plan_failed_def step_failed_def
      using 2 Cons.prems assms(4,6) by (auto simp: migration_of_def)
    then have "run_failed U plan v0 (view w1) r ?e"
      by (rule run_failedI [OF _ assms(3)]) simp
    then show ?case by simp
  qed
qed

lemma rollback_body_wp:
  assumes "unstranded (view w)" "tidy_rows U tidy (view w)"
  shows "wp (rollback_body S c count)
    (\<lambda>_ ((w', l'), r'). l' = l \<and> healthy (rows_of (view w))
       \<and> plan_done U (rollback_plan count (rows_of (view w))) (table_created (view w)) (view w')
       \<and> reversible_rows (ids (to_rollback (rollback_plan count (rows_of (view w))))) (table_created (view w))
       \<and> res_applied r' = [] \<and> res_rolled_back r' = to_rollback (rollback_plan count (rows_of (view w))))
    (\<lambda>e ((w', l'), r'). l' = l \<and> run_failed U (rollback_plan count (rows_of (view w))) (view w) (view w') r' e)
    ((w, l), empty_result)"
  unfolding rollback_body_def executor_is
proof (rule preamble_wp, goal_cases)
  case (1 w1)
  let ?rs = "rows_of (view w)" and ?plan = "rollback_plan count (rows_of (view w))"
  let ?as = "map applied_of ?rs"
  show ?case
    unfolding wp_simps
  proof (rule wp_mono [OF applied_law], goal_cases)
    case (1 ms w2)
    then have v: "view w2 = table_created (view w)" "ms = ?as" using \<open>view w1 = _\<close> by auto
    show ?case
    proof (cases "?rs = []")
      case True
      then show ?thesis
        using v \<open>healthy _\<close>
        by (simp add: wp_simps rollback_plan_def last_rows_def plan_done_def db_of_def reversible_rows_def empty_result_def)
    next
      case False
      have cand: "map migration_of (rev (rollback_candidates count ?as)) = to_rollback ?plan"
        by (simp add: rollback_plan_def rollback_candidates_rows [symmetric] rev_map)
      have ids: "set (map am_id (rollback_candidates count ?as)) = set (ids (to_rollback ?plan))"
        unfolding cand [symmetric] by (auto simp: migration_of_def)
      have loop: "wp (rollback_loop S c (rev (rollback_candidates count ?as)))
          (\<lambda>_ ((w', l'), r'). l' = l \<and> plan_done U ?plan (table_created (view w)) (view w') \<and> res_applied r' = []
             \<and> res_rolled_back r' = to_rollback ?plan)
          (\<lambda>e ((w', l'), r'). l' = l \<and> run_failed U ?plan (view w) (view w') r' e) ((w3, l), empty_result)"
        if "view w3 = table_created (view w)" "reversible_rows (ids (to_rollback ?plan)) (table_created (view w))" for w3
        by (rule rollback_loop_wp [OF tidy_rows_created [OF assms(2)] _ _ refl])
          (use assms(1) \<open>healthy _\<close> cand that in \<open>simp_all add: empty_result_def rollback_plan_def\<close>)
      have ne: "?as \<noteq> []" using False by simp
      show ?thesis
        unfolding v(2) if_not_P [OF ne] Let_def wp_simps
      proof (rule wp_mono [OF ensure_reversible_law], goal_cases)
        case (1 a w3)
        then have "view w3 = table_created (view w)"
          and "reversible_rows (ids (to_rollback ?plan)) (table_created (view w))"
          using v ids by (auto simp: reversible_rows_def)
        with \<open>healthy _\<close> show ?case by (auto intro: wp_mono [OF loop])
      qed (use v in \<open>auto simp: run_failed_def unchanged_def empty_result_def\<close>)
    qed
  qed (use 1 in \<open>auto simp: run_failed_def unchanged_def empty_result_def\<close>)
qed (auto simp: run_failed_def unchanged_def empty_result_def)

section \<open>Baseline and Forget\<close>

lemma baseline_body_wp:
  "wp (baseline_body S c through_id)
    (\<lambda>_ ((w', l'), r'). l' = l \<and> rows_of (view w) = [] \<and> (\<exists>files through. sv_source S = Inr files
       \<and> migrations_through files through_id = Inr through \<and> baselined through (table_created (view w)) (view w')
       \<and> r' = empty_result\<lparr>res_applied := through\<rparr>))
    (\<lambda>e ((w', l'), r'). l' = l \<and> r' = empty_result
       \<and> (view w' \<in> {view w, table_created (view w)}
          \<or> rows_of (view w) = [] \<and> (\<exists>files through. sv_source S = Inr files
              \<and> migrations_through files through_id = Inr through \<and> baselined through (table_created (view w)) (view w'))))
    ((w, l), empty_result)"
  unfolding baseline_body_def executor_is wp_simps
proof (rule wp_mono [OF ensure_table_law], goal_cases)
  case (1 a w1)
  show ?case
  proof (rule wp_mono [OF applied_law], goal_cases)
    case (1 ms w2)
    then have v: "view w2 = table_created (view w)" "ms = map applied_of (rows_of (view w))"
      using \<open>view w1 = _\<close> by auto
    show ?case
    proof (cases "ms = []")
      case False
      then show ?thesis using v by (simp add: wp_simps)
    next
      case True
      then have none: "rows_of (view w) = []" using v by simp
      show ?thesis
      proof (cases "sv_source S")
        case (Inl e)
        with True v show ?thesis by (simp add: wp_simps)
      next
        case (Inr files)
        show ?thesis
        proof (cases "migrations_through files through_id")
          case (Inl e)
          with True v \<open>sv_source S = Inr files\<close> show ?thesis by (simp add: wp_simps)
        next
          case (Inr through)
          have "wp (x_record_applied E c through) (\<lambda>_ w'. baselined through (table_created (view w)) (view w'))
            (\<lambda>_ w'. view w' = table_created (view w) \<or> baselined through (table_created (view w)) (view w')) w2"
            using record_applied_law [of c through w2] v(1) by simp
          with True v none Inr \<open>sv_source S = Inr files\<close> show ?thesis
            by (auto simp: wp_simps elim!: wp_mono)
        qed
      qed
    qed
  qed (use 1 in simp)
qed auto

lemma forget_body_wp:
  "wp (forget_body S c i)
    (\<lambda>_ ((w', l'), r'). l' = l \<and> i \<in> set (row_ids (rows_of (view w))) \<and> view w' = deleted i (view w))
    (\<lambda>e ((w', l'), r'). l' = l \<and> view w' \<in> {view w, deleted i (view w)}) ((w, l), ())"
  unfolding forget_body_def executor_is wp_simps
proof (rule wp_mono [OF table_exists_law], goal_cases)
  case (1 b w1)
  then have v: "view w1 = view w" "b = (v_rows (view w) \<noteq> None)" by simp_all
  show ?case
  proof (cases b)
    case False
    with v show ?thesis by (simp add: wp_simps)
  next
    case True
    have "wp (x_delete_record E c i)
      (\<lambda>b w'. view w' = deleted i (view w) \<and> b = (i \<in> set (row_ids (rows_of (view w)))))
      (\<lambda>_ w'. view w' \<in> {view w, deleted i (view w)}) w1"
      by (rule wp_mono [OF delete_record_law]) (use v in \<open>auto simp: rows_of_def\<close>)
    with True show ?thesis by (auto simp: wp_simps elim!: wp_mono)
  qed
qed simp

end

end
