(* ===== verification/Service_Spec.thy ===== *)
theory Service_Spec
  imports Service_Ops
begin

text \<open>
  The service's operations as a whole, lock included: what each call leaves on the server and reports,
  whether it succeeds or fails. The lock is free again after every one of them.
\<close>

section \<open>Outcomes of a successful call\<close>

definition up_done :: "unicode \<Rightarrow> migration list result \<Rightarrow> db_view \<Rightarrow> db_view \<Rightarrow> migrate_result \<Rightarrow> bool" where
  "up_done U src v v' r \<longleftrightarrow>
     healthy (rows_of v) \<and> (\<exists>files. src = Inr files
       \<and> plan_done U (up_plan files (rows_of v)) (table_created v) v'
       \<and> res_applied r = to_apply (up_plan files (rows_of v)) \<and> res_rolled_back r = []
       \<and> res_extras_left r = to_rollback (build_plan files (db_of (rows_of v)) False)
       \<and> res_interleaved r = plan_interleaved (build_plan files (db_of (rows_of v)) False))"

definition reconcile_done ::
  "unicode \<Rightarrow> migration list result \<Rightarrow> run_options \<Rightarrow> db_view \<Rightarrow> db_view \<Rightarrow> migrate_result \<Rightarrow> bool" where
  "reconcile_done U src opts v v' r \<longleftrightarrow>
     healthy (rows_of v) \<and> (\<exists>files. src = Inr files
       \<and> blocked_by (reconcile_plan files (rows_of v)) files opts = None
       \<and> plan_done U (reconcile_plan files (rows_of v)) (table_created v) v'
       \<and> reversible_rows (ids (to_rollback (reconcile_plan files (rows_of v)))) (table_created v)
       \<and> r = \<lparr>res_applied = to_apply (reconcile_plan files (rows_of v)),
           res_rolled_back = to_rollback (reconcile_plan files (rows_of v)), res_extras_left = [],
           res_interleaved = plan_interleaved (reconcile_plan files (rows_of v))\<rparr>)"

definition rollback_done :: "unicode \<Rightarrow> int \<Rightarrow> db_view \<Rightarrow> db_view \<Rightarrow> migrate_result \<Rightarrow> bool" where
  "rollback_done U count v v' r \<longleftrightarrow>
     healthy (rows_of v) \<and> plan_done U (rollback_plan count (rows_of v)) (table_created v) v'
     \<and> reversible_rows (ids (to_rollback (rollback_plan count (rows_of v)))) (table_created v)
     \<and> res_applied r = [] \<and> res_rolled_back r = to_rollback (rollback_plan count (rows_of v))"

definition up_failed ::
  "unicode \<Rightarrow> migration list result \<Rightarrow> db_view \<Rightarrow> db_view \<Rightarrow> migrate_result \<Rightarrow> goerr \<Rightarrow> bool" where
  "up_failed U src v v' r e \<longleftrightarrow>
     unchanged v v' r \<or> (\<exists>files. src = Inr files \<and> run_failed U (up_plan files (rows_of v)) v v' r e)"

definition reconcile_failed ::
  "unicode \<Rightarrow> migration list result \<Rightarrow> run_options \<Rightarrow> db_view \<Rightarrow> db_view \<Rightarrow> migrate_result \<Rightarrow> goerr \<Rightarrow> bool" where
  "reconcile_failed U src opts v v' r e \<longleftrightarrow>
     unchanged v v' r
     \<or> (\<exists>files. src = Inr files \<and> blocked_by (reconcile_plan files (rows_of v)) files opts = None
          \<and> run_failed U (reconcile_plan files (rows_of v)) v v' r e)"

definition baseline_written :: "migration list result \<Rightarrow> string \<Rightarrow> db_view \<Rightarrow> db_view \<Rightarrow> migration list \<Rightarrow> bool" where
  "baseline_written src through_id v v' through \<longleftrightarrow>
     rows_of v = [] \<and> (\<exists>files. src = Inr files \<and> migrations_through files through_id = Inr through)
     \<and> baselined through (table_created v) v'"

lemmas outcome_defs = up_done_def reconcile_done_def rollback_done_def up_failed_def reconcile_failed_def
  baseline_written_def

section \<open>Outcomes do not depend on the sessions\<close>

definition session_closed :: "(db_view \<Rightarrow> db_view \<Rightarrow> bool) \<Rightarrow> bool" where
  "session_closed P \<longleftrightarrow> (\<forall>v v'. P v v' \<longrightarrow> same_sessions v v' \<and> (\<forall>L B. P (with_sessions L B v) (with_sessions L B v')))"

named_theorems session_intros

lemma session_closedI:
  "(\<And>v v'. P v v' \<Longrightarrow> same_sessions v v') \<Longrightarrow> (\<And>v v' L B. P v v' \<Longrightarrow> P (with_sessions L B v) (with_sessions L B v'))
     \<Longrightarrow> session_closed P"
  by (simp add: session_closed_def)

lemma plan_done_created:
  "plan_done U plan (table_created v) v' \<Longrightarrow> same_sessions v v'"
  "plan_done U plan (table_created v) v' \<Longrightarrow> plan_done U plan (table_created (with_sessions L B v)) (with_sessions L B v')"
  using same_sessions_trans [OF same_sessions_created] plan_done_sessions plan_done_with_sessions by force+

lemma reversible_rows_created [simp]:
  "reversible_rows is (table_created (with_sessions L B v)) = reversible_rows is (table_created v)"
  by (simp add: reversible_rows_def)

lemma closed_up_done [session_intros]: "session_closed (\<lambda>v v'. up_done U src v v' r)"
  by (rule session_closedI) (auto simp: up_done_def intro: plan_done_created)

lemma closed_reconcile_done [session_intros]: "session_closed (\<lambda>v v'. reconcile_done U src opts v v' r)"
  by (rule session_closedI) (auto simp: reconcile_done_def intro: plan_done_created)

lemma closed_rollback_done [session_intros]: "session_closed (\<lambda>v v'. rollback_done U count v v' r)"
  by (rule session_closedI) (auto simp: rollback_done_def intro: plan_done_created)

lemma closed_unchanged [session_intros]: "session_closed (\<lambda>v v'. unchanged v v' r)"
  by (rule session_closedI) (auto simp: unchanged_def)

lemma closed_run_failed: "session_closed (\<lambda>v v'. run_failed U plan v v' r e)"
  by (rule session_closedI) (auto intro: run_failed_sessions run_failed_with_sessions)

lemma closed_up_failed [session_intros]: "session_closed (\<lambda>v v'. up_failed U src v v' r e)"
  using closed_unchanged [of r] closed_run_failed [of U _ r e]
  unfolding session_closed_def up_failed_def rows_of_with_sessions by blast

lemma closed_rollback_failed [session_intros]:
  "session_closed (\<lambda>v v'. run_failed U (rollback_plan count (rows_of v)) v v' r e)"
  by (rule session_closedI) (auto intro: run_failed_sessions run_failed_with_sessions)

lemma with_sessions_in: "v' \<in> {v, table_created v} \<Longrightarrow>
    with_sessions L B v' \<in> {with_sessions L B v, table_created (with_sessions L B v)}"
  by auto

lemma closed_reconcile_failed [session_intros]: "session_closed (\<lambda>v v'. reconcile_failed U src opts v v' r e)"
  using closed_unchanged [of r] closed_run_failed [of U _ r e]
  unfolding session_closed_def reconcile_failed_def rows_of_with_sessions by blast

lemma closed_baseline_written [session_intros]: "session_closed (\<lambda>v v'. baseline_written src i v v' ms)"
proof (rule session_closedI)
  fix v v' :: db_view and L B
  assume b: "baseline_written src i v v' ms"
  then show "same_sessions v v'"
    by (auto simp: baseline_written_def intro: same_sessions_trans [OF same_sessions_created] steps_sessions(3))
  have "baselined ms (with_sessions L B (table_created v)) (with_sessions L B v')"
    using b steps_with_sessions(3) [of ms "table_created v" v' L B] by (simp add: baseline_written_def)
  with b show "baseline_written src i (with_sessions L B v) (with_sessions L B v') ms"
    by (simp add: baseline_written_def)
qed

lemma closed_baseline_failed [session_intros]:
  "session_closed (\<lambda>v v'. v' \<in> {v, table_created v} \<or> (\<exists>ms. baseline_written src i v v' ms))"
proof (rule session_closedI)
  fix v v' :: db_view and L B
  assume b: "v' \<in> {v, table_created v} \<or> (\<exists>ms. baseline_written src i v v' ms)"
  then show "same_sessions v v'"
    using closed_baseline_written [of src i] unfolding session_closed_def by auto
  show "with_sessions L B v' \<in> {with_sessions L B v, table_created (with_sessions L B v)}
      \<or> (\<exists>ms. baseline_written src i (with_sessions L B v) (with_sessions L B v') ms)"
    using b closed_baseline_written [of src i] with_sessions_in unfolding session_closed_def by blast
qed

lemma closed_deleted [session_intros]:
  "session_closed (\<lambda>v v'. P (rows_of v) \<and> v' = deleted i v)"
  "session_closed (\<lambda>v v'. v' \<in> {v, deleted i v})"
  unfolding session_closed_def by (auto simp: same_sessions_def)

context service_contract begin

lemma locked_wp:
  assumes "held l = None" "unstranded (view w)"
    and "\<And>w1 l1 L B. view w1 = with_sessions L B (view w) \<Longrightarrow> unstranded (view w1) \<Longrightarrow>
      wp fn (\<lambda>a ((w', l'), r'). l' = l1 \<and> P r' (view w1) (view w'))
            (\<lambda>e ((w', l'), r'). l' = l1 \<and> F e r' (view w1) (view w')) ((w1, l1), r)"
    and "\<And>r. session_closed (P r)" "\<And>e r. session_closed (F e r)" "\<And>e. F e r (view w) (view w)"
  shows "wp (with_lock S c fn)
    (\<lambda>a ((w', l'), r'). held l' = None \<and> same_sessions (view w) (view w') \<and> P r' (view w) (view w'))
    (\<lambda>e ((w', l'), r'). held l' = None \<and> same_sessions (view w) (view w') \<and> F e r' (view w) (view w')) ((w, l), r)"
proof (rule with_lock_wp [where Q = "\<lambda>a v' r'. P r' (view w) v'" and F = "\<lambda>e v' r'. F e r' (view w) v'",
      OF assms(1,2) _ assms(6)], goal_cases)
  case (1 w1 l1 n)
  have same: "with_sessions (v_locks (view w)) (v_out (view w)) (view w1) = view w"
    using 1 with_sessions_self [of "view w"] by simp
  have P: "P r' (view w1) v' \<Longrightarrow> same_sessions (view w1) v' \<and> P r' (view w) (with_sessions (v_locks (view w)) (v_out (view w)) v')" for r' v'
    using assms(4) [of r'] same unfolding session_closed_def by metis
  have F: "F e r' (view w1) v' \<Longrightarrow> same_sessions (view w1) v' \<and> F e r' (view w) (with_sessions (v_locks (view w)) (v_out (view w)) v')" for e r' v'
    using assms(5) [of e r'] same unfolding session_closed_def by metis
  show ?case
    by (rule wp_mono [OF assms(3) [OF 1(1,2)]]) (use P F in auto)
qed

lemma run_service_cases:
  assumes "wp m (\<lambda>a (s, r). Q s r) (\<lambda>e (s, r). F e s r) (s, empty_result)" "run_service m s = (s', r, err)"
  shows "case err of None \<Rightarrow> Q s' r | Some e \<Rightarrow> F e s' r"
  using assms by (auto simp: run_service_def wp_def err_of_def split: prod.splits sum.splits)

section \<open>The operations\<close>

lemma up_spec:
  assumes "held l = None" "unstranded (view w)" "source_ok U tidy (sv_source S)"
    "up S c (w, l) = ((w', l'), r, err)"
  shows "held l' = None \<and> same_sessions (view w) (view w')
    \<and> (case err of None \<Rightarrow> up_done U (sv_source S) (view w) (view w') r
                 | Some e \<Rightarrow> up_failed U (sv_source S) (view w) (view w') r e)"
proof -
  have "wp (with_lock S c (up_body S c))
    (\<lambda>a ((w', l'), r'). held l' = None \<and> same_sessions (view w) (view w') \<and> up_done U (sv_source S) (view w) (view w') r')
    (\<lambda>e ((w', l'), r'). held l' = None \<and> same_sessions (view w) (view w') \<and> up_failed U (sv_source S) (view w) (view w') r' e)
    ((w, l), empty_result)"
  proof (rule locked_wp [OF assms(1,2)], goal_cases)
    case (1 w1 l1 L B)
    show ?case
      by (rule wp_mono [OF up_body_wp [OF assms(3) 1(2)]]) (auto simp: up_done_def up_failed_def)
  next
    case (4 e)
    show ?case by (auto simp: up_failed_def run_failed_def unchanged_def empty_result_def)
  qed (rule session_intros)+
  then show ?thesis
    using assms(4) by (auto simp: up_def run_service_def wp_def err_of_def split: prod.splits sum.splits)
qed

lemma reconcile_spec:
  assumes "held l = None" "unstranded (view w)" "source_ok U tidy (sv_source S)" "tidy_rows U tidy (view w)"
    "reconcile S c opts (w, l) = ((w', l'), r, err)"
  shows "held l' = None \<and> same_sessions (view w) (view w')
    \<and> (case err of None \<Rightarrow> reconcile_done U (sv_source S) opts (view w) (view w') r
                 | Some e \<Rightarrow> reconcile_failed U (sv_source S) opts (view w) (view w') r e)"
proof -
  have "wp (with_lock S c (reconcile_body S c opts))
    (\<lambda>a ((w', l'), r'). held l' = None \<and> same_sessions (view w) (view w')
       \<and> reconcile_done U (sv_source S) opts (view w) (view w') r')
    (\<lambda>e ((w', l'), r'). held l' = None \<and> same_sessions (view w) (view w')
       \<and> reconcile_failed U (sv_source S) opts (view w) (view w') r' e) ((w, l), empty_result)"
  proof (rule locked_wp [OF assms(1,2)], goal_cases)
    case (1 w1 l1 L B)
    have t: "tidy_rows U tidy (view w1)" using assms(4) 1(1) by (simp add: tidy_rows_def)
    show ?case
      by (rule wp_mono [OF reconcile_body_wp [OF assms(3) 1(2) t]])
        (auto simp: reconcile_done_def reconcile_failed_def)
  next
    case (4 e)
    show ?case by (auto simp: reconcile_failed_def run_failed_def unchanged_def empty_result_def)
  qed (rule session_intros)+
  then show ?thesis
    using assms(5) by (auto simp: reconcile_def run_service_def wp_def err_of_def split: prod.splits sum.splits)
qed

lemma rollback_spec:
  assumes "held l = None" "unstranded (view w)" "tidy_rows U tidy (view w)"
    "rollback S c count (w, l) = ((w', l'), r, err)"
  shows "held l' = None \<and> same_sessions (view w) (view w')
    \<and> (case err of None \<Rightarrow> rollback_done U count (view w) (view w') r
                 | Some e \<Rightarrow> run_failed U (rollback_plan count (rows_of (view w))) (view w) (view w') r e)"
proof -
  have "wp (with_lock S c (rollback_body S c count))
    (\<lambda>a ((w', l'), r'). held l' = None \<and> same_sessions (view w) (view w') \<and> rollback_done U count (view w) (view w') r')
    (\<lambda>e ((w', l'), r'). held l' = None \<and> same_sessions (view w) (view w')
       \<and> run_failed U (rollback_plan count (rows_of (view w))) (view w) (view w') r' e) ((w, l), empty_result)"
  proof (rule locked_wp [OF assms(1,2)], goal_cases)
    case (1 w1 l1 L B)
    have t: "tidy_rows U tidy (view w1)" using assms(3) 1(1) by (simp add: tidy_rows_def)
    show ?case
      by (rule wp_mono [OF rollback_body_wp [OF 1(2) t]]) (auto simp: rollback_done_def)
  next
    case (4 e)
    show ?case by (auto simp: run_failed_def unchanged_def empty_result_def)
  qed (rule session_intros)+
  then show ?thesis
    using assms(4) by (auto simp: rollback_def run_service_def wp_def err_of_def split: prod.splits sum.splits)
qed

lemma baseline_spec:
  assumes "held l = None" "unstranded (view w)" "baseline S c i (w, l) = ((w', l'), r, err)"
  shows "held l' = None \<and> same_sessions (view w) (view w')
    \<and> (case err of None \<Rightarrow> baseline_written (sv_source S) i (view w) (view w') (res_applied r)
                 | Some e \<Rightarrow> view w' \<in> {view w, table_created (view w)}
                     \<or> (\<exists>ms. baseline_written (sv_source S) i (view w) (view w') ms))"
proof -
  have "wp (with_lock S c (baseline_body S c i))
    (\<lambda>a ((w', l'), r'). held l' = None \<and> same_sessions (view w) (view w')
       \<and> baseline_written (sv_source S) i (view w) (view w') (res_applied r'))
    (\<lambda>e ((w', l'), r'). held l' = None \<and> same_sessions (view w) (view w')
       \<and> (view w' \<in> {view w, table_created (view w)} \<or> (\<exists>ms. baseline_written (sv_source S) i (view w) (view w') ms)))
    ((w, l), empty_result)"
  proof (rule locked_wp [OF assms(1,2), where F = "\<lambda>e r v v'. v' \<in> {v, table_created v} \<or> (\<exists>ms. baseline_written (sv_source S) i v v' ms)"],
      goal_cases)
    case (1 w1 l1 L B)
    show ?case
      by (rule wp_mono [OF baseline_body_wp]) (auto simp: baseline_written_def empty_result_def)
  qed (rule session_intros | simp)+
  then show ?thesis
    using assms(3) by (auto simp: baseline_def run_service_def wp_def err_of_def split: prod.splits sum.splits)
qed

lemma forget_spec:
  assumes "held l = None" "unstranded (view w)" "forget S c i (w, l) = ((w', l'), err)"
  shows "held l' = None \<and> same_sessions (view w) (view w')
    \<and> (case err of None \<Rightarrow> i \<in> set (row_ids (rows_of (view w))) \<and> view w' = deleted i (view w)
                 | Some e \<Rightarrow> view w' \<in> {view w, deleted i (view w)})"
proof -
  have "wp (with_lock S c (forget_body S c i))
    (\<lambda>a ((w', l'), r'). held l' = None \<and> same_sessions (view w) (view w')
       \<and> (i \<in> set (row_ids (rows_of (view w))) \<and> view w' = deleted i (view w)))
    (\<lambda>e ((w', l'), r'). held l' = None \<and> same_sessions (view w) (view w') \<and> view w' \<in> {view w, deleted i (view w)})
    ((w, l), ())"
    by (rule locked_wp [OF assms(1,2) forget_body_wp]) (rule session_intros | simp)+
  then show ?thesis
    using assms(3) by (auto simp: forget_def wp_def err_of_def split: prod.splits sum.splits)
qed

end

end
