(* ===== verification/Providers.thy ===== *)
theory Providers
  imports Lock Plan_Execution Service_Spec
begin

text \<open>
  The code's own providers keep the contracts of the service: \<open>CustomExecutor\<close> that of the executor and
  \<open>Postgres\<close> that of the locker, over every database that keeps the laws of \<open>sql_database\<close>.
\<close>

definition custom_executor :: "'w sql_db \<Rightarrow> unicode \<Rightarrow> table_ref \<Rightarrow> 'w migration_executor" where
  "custom_executor D U ref =
     \<lparr>x_ensure_table = ensure_migrations_table D ref, x_table_exists = table_exists D ref,
      x_apply = apply_migration D U ref, x_record_applied = record_applied D ref,
      x_rollback = rollback_migration D U ref, x_applied = get_applied_migrations D ref,
      x_delete_record = delete_record D ref, x_ensure_reversible = ensure_reversible D ref,
      x_execute_plan = (\<lambda>c plan all w. case execute_plan D U ref c plan all w of (w', x, e) \<Rightarrow> (w', Some x, e))\<rparr>"

text \<open>\<open>NewService\<close> with the arguments that \<open>newService\<close> gives it.\<close>

definition new_service ::
  "migration list result \<Rightarrow> unicode \<Rightarrow> 'w sql_db \<Rightarrow> table_ref \<Rightarrow> postgres \<Rightarrow> ('w, lock_state) service" where
  "new_service src U D ref p =
     \<lparr>sv_source = src, sv_executor = custom_executor D U ref, sv_locker = postgres_locker p D\<rparr>"

context sql_database begin

section \<open>The executor\<close>

lemma execute_plan_contract:
  assumes "plan_runnable U tidy plan all (view w)" "unstranded (view w)"
    "x_execute_plan (custom_executor D U ref) c plan all w = (w', executed, err)"
  shows "\<exists>x. executed = Some x \<and> (case err of
          None \<Rightarrow> plan_done U plan (view w) (view w') \<and> reversible_rows (ids (to_rollback plan)) (view w)
            \<and> ex_applied x = to_apply plan \<and> ex_rolled_back x = to_rollback plan
        | Some e \<Rightarrow> plan_failed U plan (ex_rolled_back x) (ex_applied x) e (view w) (view w'))"
proof -
  obtain w2 x e where run: "execute_plan D U ref c plan all w = (w2, x, e)" by (metis prod.exhaust)
  from execute_plan_spec [OF assms(1,2) run] assms(3) run show ?thesis
    by (auto simp: custom_executor_def)
qed

lemma custom_executor_contract: "executor_contract (custom_executor D U ref) U view tidy"
proof (unfold_locales, goal_cases)
  case (8 plan all w c w' executed err)
  then show ?case by (rule execute_plan_contract)
qed (unfold custom_executor_def migration_executor.select_convs,
    (rule ensure_table_wp table_exists_wp get_applied_wp record_applied_wp delete_record_wp ensure_reversible_wp
     | rule rollback_migration_wp, assumption+)+)

section \<open>The locker\<close>

lemma lock_on_conn_wp:
  "wp (lock_on_conn p D c n)
     (\<lambda>_ w'. no_other_holds n (pg_lock_id p) (view w) \<and> view w' = locked n (pg_lock_id p) (view w))
     (\<lambda>_ w'. view w' \<in> {view w, locked n (pg_lock_id p) (view w)}) w"
  unfolding lock_on_conn_def wp_simps
proof (rule wp_mono [OF conn_begin_law], goal_cases)
  case (1 t w1)
  show ?case
  proof (rule wp_mono [OF lock_timeout_law], goal_cases)
    case (1 a w2)
    then have v: "view w2 = view w" "tx_view w2 t = view w" "tx_session w2 t = n"
      using \<open>view w1 = _ \<and> _\<close> by simp_all
    show ?case
    proof (rule wp_mono [OF lock_law], goal_cases)
      case (1 a w3)
      then have v3: "no_other_holds n (pg_lock_id p) (view w)" "view w3 = locked n (pg_lock_id p) (view w)"
        "tx_view w3 t = view w"
        using v by simp_all
      have "publish (tx_view w3 t) (view w3) = locked n (pg_lock_id p) (view w)"
        by (simp add: v3 publish_def locked_def)
      then show ?case
        by (intro wp_mono [OF commit_law]) (use v3 in \<open>auto simp: rollback_law\<close>)
    qed (use v in \<open>auto simp: wp_simps rollback_law\<close>)
  qed (use 1 in \<open>simp add: rollback_law\<close>)
qed simp

lemma view_close: "view (fst (conn_close D n w)) = checked_in n (view w)"
  by (rule wp_lift_sql_fst [OF close_law])

lemma view_destroy: "view (destroy D n w) = checked_in n (unlocked n (view w))"
  using view_release by (simp add: release_conn_def)

lemma unlocked_twice [simp]: "unlocked n (unlocked n v) = unlocked n v"
  by (simp add: unlocked_def)

lemma view_release_all: "view (release_all_and_close D n w) = checked_in n (unlocked n (view w))"
  using unlock_all_law [of n Detached w]
  by (auto simp: release_all_and_close_def wp_def view_close view_destroy split: prod.splits sum.splits)

lemma acquire_lock_wp:
  assumes "held_conn l = None" "unstranded (view w)"
  shows "wp (acquire_lock p D c)
    (\<lambda>_ (w', l'). \<exists>n. held_conn l' = Some n \<and> n \<notin> v_out (view w) \<and> pg_lock_id p \<notin> snd ` set (v_locks (view w))
       \<and> view w' = with_sessions ((n, pg_lock_id p) # v_locks (view w)) (insert n (v_out (view w))) (view w))
    (\<lambda>_ (w', l'). held_conn l' = None \<and> view w' = view w) (w, l)"
proof (cases "is_lock_acquired l \<or> db_max_open D w = 1")
  case True
  then show ?thesis using assms(1) by (auto simp: acquire_lock_def wp_def fail_def)
next
  case False
  have "wp (go_try (on_state (lift_sql (db_conn D c))) [Lit ''get dedicated connection for lock: ''] (\<lambda>conn.
          io_handle (on_state (lock_on_conn p D c conn))
            (\<lambda>e. go_bind (modify (\<lambda>(w, s). (release_all_and_close D conn w, s))) (\<lambda>_. fail e))
            (\<lambda>_. modify (\<lambda>(w, s). (w, s\<lparr>lock_conn := Some conn, is_lock_acquired := True\<rparr>)))))
    (\<lambda>_ (w', l'). \<exists>n. held_conn l' = Some n \<and> n \<notin> v_out (view w) \<and> pg_lock_id p \<notin> snd ` set (v_locks (view w))
       \<and> view w' = with_sessions ((n, pg_lock_id p) # v_locks (view w)) (insert n (v_out (view w))) (view w))
    (\<lambda>_ (w', l'). held_conn l' = None \<and> view w' = view w) (w, l)"
    unfolding wp_simps
  proof (rule wp_mono [OF conn_law], goal_cases)
    case (1 n w1)
    then have n: "n \<notin> v_out (view w)" "\<forall>h \<in> set (v_locks (view w)). fst h \<noteq> n"
      and v1: "view w1 = (view w)\<lparr>v_out := insert n (v_out (view w))\<rparr>"
      using assms(2) by (auto simp: unstranded_def)
    have undone: "checked_in n (unlocked n (view w1)) = view w"
      using n by (subst unlocked_absent) (simp_all add: v1 checked_in_def)
    show ?case
      unfolding wp_simps
    proof (rule wp_mono [OF lock_on_conn_wp], goal_cases)
      case (1 a w2)
      then show ?case using n v1 by (fastforce simp: wp_simps held_conn_def with_sessions_def locked_def no_other_holds_def)
    next
      case (2 e w2)
      then show ?case using assms(1) undone v1 by (auto simp: wp_simps view_release_all)
    qed
  qed (use assms(1) in simp)
  then show ?thesis using False by (simp add: acquire_lock_def wp_def)
qed

lemma unlock_conn_wp:
  assumes "v_locks (view w) = (n, pg_lock_id p) # others" "n \<notin> fst ` set others"
  shows "wp (unlock_conn p D n) (\<lambda>_ w'. view w' = with_sessions others (v_out (view w) - {n}) (view w))
     (\<lambda>_ w'. view w' = with_sessions others (v_out (view w) - {n}) (view w)) w"
proof -
  let ?v = "with_sessions others (v_out (view w) - {n}) (view w)" and ?u = "unlocked_key n (pg_lock_id p) (view w)"
  have key: "checked_in n ?u = ?v"
    by (simp add: assms(1) unlocked_key_def checked_in_def with_sessions_def)
  have "filter (\<lambda>h. fst h \<noteq> n) others = others" using assms(2) by (force simp: filter_id_conv)
  then have "unlocked n v = ?u" if "v \<in> {view w, ?u}" for v
    using that assms(1) by (auto simp: unlocked_def unlocked_key_def)
  then have destroyed: "view (destroy D n w1) = ?v" if "view w1 \<in> {view w, ?u}" for w1
    using that key by (metis view_destroy)
  have closed: "wp (lift_sql (conn_close D n)) (\<lambda>_ w'. view w' = ?v) (\<lambda>_ w'. view w' = ?v) w1" if "view w1 = ?u" for w1
    using close_law [of n w1] that key by simp
  show ?thesis
    unfolding unlock_conn_def first_row_def wp_simps
  proof (rule wp_mono [OF unlock_law], goal_cases)
    case (1 rows w1)
    with destroyed closed assms(1) show ?case
      by (auto simp: wp_simps answers_def prefix_Cons split: option.splits)
  next
    case (2 e w1)
    with destroyed show ?case by (auto simp: wp_simps)
  qed
qed

lemma release_lock_law:
  assumes "held_conn l = Some n" "v_locks (view w) = (n, pg_lock_id p) # others" "n \<notin> fst ` set others"
    and "release_lock p D c (w, l) = ((w', l'), r)"
  shows "held_conn l' = None \<and> view w' = with_sessions others (v_out (view w) - {n}) (view w)"
  using assms(1,4) unlock_conn_wp [OF assms(2,3)]
  by (auto simp: held_conn_def release_lock_def on_state_def wp_def split: if_splits prod.splits sum.splits)

lemma postgres_locker_contract: "locker_contract (postgres_locker p D) view held_conn (pg_lock_id p)"
  unfolding postgres_locker_def by unfold_locales (simp_all only: locker.select_convs, rule acquire_lock_wp, assumption+,
      rule release_lock_law, assumption+)

end

text \<open>The two contracts, and the service built on them.\<close>

sublocale sql_database \<subseteq> ex: executor_contract "custom_executor D U ref" U view tidy for U
  by (rule custom_executor_contract)

sublocale sql_database \<subseteq> lk: locker_contract "postgres_locker p D" view held_conn "pg_lock_id p" for p
  by (rule postgres_locker_contract)

sublocale sql_database \<subseteq> sv: service_contract "custom_executor D U ref" U view tidy "postgres_locker p D" held_conn
    "pg_lock_id p" "new_service src U D ref p" for src U p
  by unfold_locales (simp_all add: new_service_def)

text \<open>The service's operations over the code's own providers.\<close>

lemma new_service_source [simp]: "sv_source (new_service src U D ref p) = src"
  by (simp add: new_service_def)

context sql_database begin

lemmas serve_up = sv.up_spec [where src = src and U = U and p = p, unfolded new_service_source] for src U p
lemmas serve_reconcile = sv.reconcile_spec [where src = src and U = U and p = p, unfolded new_service_source] for src U p
lemmas serve_rollback = sv.rollback_spec [where src = src and U = U and p = p, unfolded new_service_source] for src U p
lemmas serve_baseline = sv.baseline_spec [where src = src and U = U and p = p, unfolded new_service_source] for src U p
lemmas serve_forget = sv.forget_spec [where src = src and U = U and p = p, unfolded new_service_source] for src U p
lemmas serve_get_migrations =
  sv.get_migrations_wp [where src = src and U = U and p = p, unfolded new_service_source] for src U p

end

end
