(* ===== verification/Reference_Database.thy ===== *)
theory Reference_Database
  imports Providers
begin

text \<open>
  A server that keeps the laws of \<open>sql_database\<close>: it shows that they can hold together, and runs the model
  on concrete inputs. A script is opaque text; statements fail when the caller's context is cancelled,
  when the statement is invalid, and, under a context that is \<open>faulty\<close>, as a list of faults says: refused, or
  executed with the answer lost.
\<close>

datatype fault = Refused string | Lost string

record ref_world =
  rw_view :: db_view
  rw_txs :: "nat \<Rightarrow> db_view"
  rw_sessions :: "nat \<Rightarrow> nat"
  rw_next :: nat
  rw_clock :: int
  rw_faults :: "fault option list"
  rw_cancelled :: bool

text \<open>The primary key: rows with a repeated ID are not a state of the table.\<close>

definition keyed :: "db_view \<Rightarrow> db_view" where
  "keyed v = v\<lparr>v_rows := map_option (\<lambda>rs. if distinct (row_ids rs) then rs else []) (v_rows v)\<rparr>"

definition ref_view :: "ref_world \<Rightarrow> db_view" where "ref_view w = keyed (rw_view w)"
definition ref_tx_view :: "ref_world \<Rightarrow> nat \<Rightarrow> db_view" where "ref_tx_view w t = keyed (rw_txs w t)"

definition tick :: "ref_world \<Rightarrow> ref_world" where
  "tick w = w\<lparr>rw_faults := tl (rw_faults w), rw_clock := rw_clock w + 1\<rparr>"

definition fault_at :: "(ctx \<Rightarrow> bool) \<Rightarrow> ctx \<Rightarrow> ref_world \<Rightarrow> fault option" where
  "fault_at faulty c w =
     (if rw_cancelled w \<and> c = Caller then Some (Refused ''context canceled'')
      else if faulty c \<and> rw_faults w \<noteq> [] then hd (rw_faults w) else None)"

definition ref_op :: "(ctx \<Rightarrow> bool) \<Rightarrow> ctx \<Rightarrow> (ref_world \<Rightarrow> string + 'a \<times> ref_world) \<Rightarrow> (ref_world, 'a) sql_io" where
  "ref_op faulty c f w =
     (case f w of
        Inl t \<Rightarrow> (tick w, Inl t)
      | Inr (a, w') \<Rightarrow>
          (case fault_at faulty c w of
             None \<Rightarrow> (tick w', Inr a)
           | Some (Refused t) \<Rightarrow> (tick w, Inl t)
           | Some (Lost t) \<Rightarrow> (tick w', Inl t)))"

section \<open>Statements\<close>

definition no_table :: string where "no_table = ''relation does not exist''"
definition bad_statement :: string where "bad_statement = ''syntax error''"

definition ref_insert :: "string \<Rightarrow> string \<Rightarrow> string \<Rightarrow> string option \<Rightarrow> int \<Rightarrow> db_view \<Rightarrow> string + sql_result \<times> db_view" where
  "ref_insert i u d err now v =
     (case v_rows v of
        None \<Rightarrow> Inl no_table
      | Some rs \<Rightarrow>
          if i \<in> set (row_ids rs) then Inl ''duplicate key value violates unique constraint''
          else Inr (Inr 1, v\<lparr>v_rows := Some (rs @ [\<lparr>row_id = i, row_up = u, row_down = d, row_error = err,
                 row_time = now\<rparr>])\<rparr>))"

definition ref_exec :: "table_ref \<Rightarrow> string \<Rightarrow> sql_arg list \<Rightarrow> int \<Rightarrow> db_view \<Rightarrow> string + sql_result \<times> db_view" where
  "ref_exec ref q args now v =
     (if q = create_sql ref then Inr (Inr 0, table_created v)
      else if q = insert_sql ref \<or> q = insert_null_sql ref then
        (case args of
           [TextArg i, TextArg u, TextArg d] \<Rightarrow> ref_insert i u d None now v
         | [TextArg i, TextArg u, TextArg d, NullArg] \<Rightarrow> ref_insert i u d None now v
         | [TextArg i, TextArg u, TextArg d, TextArg e] \<Rightarrow> ref_insert i u d (Some e) now v
         | _ \<Rightarrow> Inl bad_statement)
      else if q = delete_sql ref then
        (case (args, v_rows v) of
           ([TextArg i], Some rs) \<Rightarrow> Inr (Inr (length (filter (\<lambda>r. row_id r = i) rs)), deleted i v)
         | _ \<Rightarrow> Inl no_table)
      else if q = update_error_sql ref then
        (case (args, v_rows v) of ([TextArg e, TextArg i], Some rs) \<Rightarrow> Inr (Inr 1, marked i e v) | _ \<Rightarrow> Inl no_table)
      else if args = [] then Inr (Inr 0, ran [q] v)
      else Inl bad_statement)"

definition ref_tidy :: "table_ref \<Rightarrow> string \<Rightarrow> bool" where
  "ref_tidy ref q \<longleftrightarrow>
     q \<notin> {create_sql ref, insert_sql ref, insert_null_sql ref, delete_sql ref, update_error_sql ref,
        advisory_unlock_all_sql, advisory_lock_sql, set_lock_timeout_sql}"

definition rows_answer :: "cell list list \<Rightarrow> sql_rows" where
  "rows_answer rows = \<lparr>rows_data = rows, rows_err = None\<rparr>"

definition ref_query :: "table_ref \<Rightarrow> string \<Rightarrow> sql_arg list \<Rightarrow> ref_world \<Rightarrow> string + sql_rows \<times> ref_world" where
  "ref_query ref q args w =
     (let rows = v_rows (ref_view w)
      in if q = exists_sql then Inr (rows_answer [[CBool (rows \<noteq> None)]], w)
         else case (rows, args) of
             (Some rs, [TextArg i]) \<Rightarrow>
               if q = select_down_sql ref
               then Inr (rows_answer (map (\<lambda>r. [CText (row_down r)]) (filter (\<lambda>r. row_id r = i) rs)), w)
               else Inl bad_statement
           | (Some rs, []) \<Rightarrow> if q = select_all_sql ref then Inr (rows_answer (map row_cells rs), w) else Inl bad_statement
           | _ \<Rightarrow> Inl no_table)"

definition ref_pool_exec :: "table_ref \<Rightarrow> string \<Rightarrow> sql_arg list \<Rightarrow> ref_world \<Rightarrow> string + sql_result \<times> ref_world" where
  "ref_pool_exec ref q args w =
     (case ref_exec ref q args (rw_clock w) (ref_view w) of
        Inl t \<Rightarrow> Inl t | Inr (n, v) \<Rightarrow> Inr (n, w\<lparr>rw_view := v\<rparr>))"

definition ref_tx_exec :: "table_ref \<Rightarrow> nat \<Rightarrow> string \<Rightarrow> sql_arg list \<Rightarrow> ref_world \<Rightarrow> string + sql_result \<times> ref_world" where
  "ref_tx_exec ref t q args w =
     (if q = set_lock_timeout_sql then Inr (Inr 0, w)
      else if q = advisory_lock_sql then
        (let v = ref_view w; n = rw_sessions w t
         in case args of
              [IntArg k] \<Rightarrow>
                if no_other_holds n k v then Inr (Inr 0, w\<lparr>rw_view := locked n k v\<rparr>)
                else Inl ''ERROR: canceling statement due to lock timeout (SQLSTATE 55P03)''
            | _ \<Rightarrow> Inl bad_statement)
      else case ref_exec ref q args (rw_clock w) (ref_tx_view w t) of
        Inl e \<Rightarrow> Inl e | Inr (n, v) \<Rightarrow> Inr (n, w\<lparr>rw_txs := (rw_txs w)(t := v)\<rparr>))"

definition ref_begin :: "nat \<Rightarrow> ref_world \<Rightarrow> string + nat \<times> ref_world" where
  "ref_begin n w =
     (let t = rw_next w
      in Inr (t, w\<lparr>rw_next := t + 1, rw_txs := (rw_txs w)(t := rw_view w), rw_sessions := (rw_sessions w)(t := n)\<rparr>))"

definition ref_commit :: "nat \<Rightarrow> ref_world \<Rightarrow> string + unit \<times> ref_world" where
  "ref_commit t w = Inr ((), w\<lparr>rw_view := publish (ref_tx_view w t) (ref_view w)\<rparr>)"

definition ref_conn :: "ref_world \<Rightarrow> string + nat \<times> ref_world" where
  "ref_conn w =
     (let n = rw_next w; v = ref_view w
      in if n \<in> v_out v then Inl ''no connection''
         else Inr (n, w\<lparr>rw_next := n + 1, rw_view := v\<lparr>v_out := insert n (v_out v)\<rparr>\<rparr>))"

definition ref_conn_exec :: "table_ref \<Rightarrow> nat \<Rightarrow> string \<Rightarrow> sql_arg list \<Rightarrow> ref_world \<Rightarrow> string + sql_result \<times> ref_world" where
  "ref_conn_exec ref n q args w =
     (if q = advisory_unlock_all_sql then Inr (Inr 0, w\<lparr>rw_view := unlocked n (ref_view w)\<rparr>)
      else ref_pool_exec ref q args w)"

definition ref_conn_query :: "nat \<Rightarrow> string \<Rightarrow> sql_arg list \<Rightarrow> ref_world \<Rightarrow> string + sql_rows \<times> ref_world" where
  "ref_conn_query n q args w =
     (case args of
        [IntArg k] \<Rightarrow>
          if q = advisory_unlock_sql
          then Inr (rows_answer [[CBool ((n, k) \<in> set (v_locks (ref_view w)))]], w\<lparr>rw_view := unlocked_key n k (ref_view w)\<rparr>)
          else Inl bad_statement
      | _ \<Rightarrow> Inl bad_statement)"

definition ref_db :: "(ctx \<Rightarrow> bool) \<Rightarrow> table_ref \<Rightarrow> ref_world sql_db" where
  "ref_db faulty ref =
     \<lparr>db_max_open = (\<lambda>_. 0),
      db_exec = (\<lambda>c q args. ref_op faulty c (ref_pool_exec ref q args)),
      db_query = (\<lambda>c q args. ref_op faulty c (ref_query ref q args)),
      db_begin = (\<lambda>c. ref_op faulty c (ref_begin 0)),
      db_conn = (\<lambda>c w. case fault_at faulty c w of
          None \<Rightarrow> ref_op faulty c ref_conn w | Some _ \<Rightarrow> (tick w, Inl ''no connection'')),
      tx_exec = (\<lambda>t c q args. ref_op faulty c (ref_tx_exec ref t q args)),
      tx_commit = (\<lambda>t. ref_op faulty Detached (ref_commit t)),
      tx_rollback = (\<lambda>t w. w),
      conn_exec = (\<lambda>n c q args. ref_op faulty c (ref_conn_exec ref n q args)),
      conn_query = (\<lambda>n c q args. ref_op faulty c (ref_conn_query n q args)),
      conn_begin = (\<lambda>n c. ref_op faulty c (ref_begin n)),
      conn_raw_close = (\<lambda>n w. w\<lparr>rw_view := unlocked n (ref_view w)\<rparr>),
      conn_close = (\<lambda>n w. (w\<lparr>rw_view := checked_in n (ref_view w)\<rparr>, Inr ())),
      ctx_done = (\<lambda>c w. rw_cancelled w \<and> c = Caller)\<rparr>"

section \<open>It keeps the laws\<close>

definition key_ok :: "db_view \<Rightarrow> bool" where
  "key_ok v \<longleftrightarrow> (\<forall>rs. v_rows v = Some rs \<longrightarrow> distinct (row_ids rs))"

lemma keyed_ok [simp]: "key_ok (keyed v)"
  by (auto simp: key_ok_def keyed_def)

lemma keyed_id [simp]: "key_ok v \<Longrightarrow> keyed v = v"
  by (cases v; cases "v_rows v") (auto simp: key_ok_def keyed_def)

lemma view_key_ok [simp]: "key_ok (ref_view w)" "key_ok (ref_tx_view w t)"
  by (simp_all add: ref_view_def ref_tx_view_def)

lemma key_ok_ops [simp]:
  "key_ok v \<Longrightarrow> key_ok (ran ss v)" "key_ok v \<Longrightarrow> key_ok (deleted i v)" "key_ok v \<Longrightarrow> key_ok (marked i e v)"
  "key_ok v \<Longrightarrow> key_ok (table_created v)" "key_ok v \<Longrightarrow> key_ok (unlocked n v)" "key_ok v \<Longrightarrow> key_ok (unlocked_key n k v)"
  "key_ok v \<Longrightarrow> key_ok (locked n k v)" "key_ok v \<Longrightarrow> key_ok (checked_in n v)"
  "key_ok t \<Longrightarrow> key_ok (publish t v)" "key_ok v \<Longrightarrow> key_ok (v\<lparr>v_locks := L\<rparr>)" "key_ok v \<Longrightarrow> key_ok (v\<lparr>v_out := B\<rparr>)"
  by (auto simp: key_ok_def marked_def unlocked_def unlocked_key_def locked_def checked_in_def publish_def table_created_def
      distinct_map_filter comp_def if_distrib split: option.splits cong: if_cong)

lemma view_update [simp]:
  "key_ok v \<Longrightarrow> ref_view (w\<lparr>rw_view := v\<rparr>) = v" "ref_view (w\<lparr>rw_txs := T\<rparr>) = ref_view w"
  "ref_view (w\<lparr>rw_next := n\<rparr>) = ref_view w" "ref_view (w\<lparr>rw_sessions := s\<rparr>) = ref_view w"
  "ref_view (tick w) = ref_view w" "ref_tx_view (tick w) t = ref_tx_view w t"
  "ref_tx_view (w\<lparr>rw_view := v\<rparr>) t = ref_tx_view w t"
  "rw_sessions (tick w) = rw_sessions w"
  by (simp_all add: ref_view_def ref_tx_view_def tick_def)

lemma ref_op_wp:
  assumes "\<And>a w'. f w = Inr (a, w') \<Longrightarrow> Q a (tick w') \<and> (\<forall>t. E (Extern t) (tick w'))" "\<And>t. E (Extern t) (tick w)"
  shows "wp (lift_sql (ref_op faulty c f)) Q E w"
  using assms by (auto simp: wp_lift_sql ref_op_def split: sum.splits option.splits fault.splits)

lemma sql_distinct [simp]:
  "insert_sql ref \<noteq> create_sql ref" "insert_null_sql ref \<noteq> create_sql ref"
  "delete_sql ref \<noteq> create_sql ref" "delete_sql ref \<noteq> insert_sql ref" "delete_sql ref \<noteq> insert_null_sql ref"
  "update_error_sql ref \<noteq> create_sql ref" "update_error_sql ref \<noteq> insert_sql ref"
  "update_error_sql ref \<noteq> insert_null_sql ref" "update_error_sql ref \<noteq> delete_sql ref"
  "select_down_sql ref \<noteq> exists_sql" "select_all_sql ref \<noteq> exists_sql"
  "insert_null_sql ref \<noteq> set_lock_timeout_sql" "insert_null_sql ref \<noteq> advisory_lock_sql"
  "delete_sql ref \<noteq> set_lock_timeout_sql" "delete_sql ref \<noteq> advisory_lock_sql"
  "advisory_lock_sql \<noteq> set_lock_timeout_sql"
  by (simp_all add: statement_texts)

lemma ref_exec_simps [simp]:
  "ref_exec ref (create_sql ref) [] now v = Inr (Inr 0, table_created v)"
  "ref_exec ref (insert_null_sql ref) [TextArg i, TextArg u, TextArg d] now v = ref_insert i u d None now v"
  "ref_exec ref (insert_sql ref) [TextArg i, TextArg u, TextArg d, null_string err] now v = ref_insert i u d err now v"
  "ref_exec ref (delete_sql ref) [TextArg i] now v =
     (case v_rows v of None \<Rightarrow> Inl no_table
      | Some rs \<Rightarrow> Inr (Inr (length (filter (\<lambda>r. row_id r = i) rs)), deleted i v))"
  "ref_exec ref (update_error_sql ref) [TextArg e, TextArg i] now v =
     (case v_rows v of None \<Rightarrow> Inl no_table | Some rs \<Rightarrow> Inr (Inr 1, marked i e v))"
  "ref_tidy ref q \<Longrightarrow> ref_exec ref q [] now v = Inr (Inr 0, ran [q] v)"
  by (auto simp: ref_exec_def null_string_def ref_tidy_def split: option.split)

lemma ref_insert_Inr:
  "ref_insert i u d err now v = Inr (n, v') \<Longrightarrow> inserted i u d err v v' \<and> (key_ok v \<longrightarrow> key_ok v')"
  by (auto simp: ref_insert_def inserted_def key_ok_def split: option.splits if_splits)

lemma ref_tx_view_other [simp]:
  "ref_tx_view (w\<lparr>rw_txs := (rw_txs w)(t := v)\<rparr>) t = keyed v"
  "ref_tx_view (w\<lparr>rw_next := k, rw_txs := (rw_txs w)(t := v), rw_sessions := s\<rparr>) t = keyed v"
  by (simp_all add: ref_tx_view_def)

lemma keyed_view [simp]: "keyed (rw_view w) = ref_view w"
  by (simp add: ref_view_def)

lemma ref_pool_exec_wp:
  assumes "\<And>n v. ref_exec ref q args (rw_clock w) (ref_view w) = Inr (n, v) \<Longrightarrow>
      key_ok v \<and> (\<forall>w'. ref_view w' = v \<longrightarrow> Q n w' \<and> (\<forall>t. E (Extern t) w'))"
    "\<And>t w'. ref_view w' = ref_view w \<Longrightarrow> E (Extern t) w'"
  shows "wp (lift_sql (ref_op faulty c (ref_pool_exec ref q args))) Q E w"
  by (rule ref_op_wp) (use assms in \<open>auto simp: ref_pool_exec_def split: sum.splits\<close>)

lemma ref_tx_exec_wp:
  assumes "q \<noteq> set_lock_timeout_sql" "q \<noteq> advisory_lock_sql"
    "\<And>n v. ref_exec ref q args (rw_clock w) (ref_tx_view w t) = Inr (n, v) \<Longrightarrow>
      key_ok v \<and> (\<forall>w'. ref_view w' = ref_view w \<and> ref_tx_view w' t = v \<longrightarrow> Q n w')"
    "\<And>e w'. ref_view w' = ref_view w \<Longrightarrow> E (Extern e) w'"
  shows "wp (lift_sql (ref_op faulty c (ref_tx_exec ref t q args))) Q E w"
  by (rule ref_op_wp) (use assms in \<open>auto simp: ref_tx_exec_def split: sum.splits\<close>)

lemma ref_query_wp:
  assumes "\<And>rows w'. ref_query ref q args w = Inr (rows, w) \<Longrightarrow> ref_view w' = ref_view w \<Longrightarrow> Q rows w'"
    "\<And>t w'. ref_view w' = ref_view w \<Longrightarrow> E (Extern t) w'"
  shows "wp (lift_sql (ref_op faulty c (ref_query ref q args))) Q E w"
proof -
  have "ref_query ref q args w = Inr (rows, w') \<Longrightarrow> w' = w" for rows w'
    by (auto simp: ref_query_def Let_def split: if_splits option.splits list.splits sql_arg.splits)
  then show ?thesis by (intro ref_op_wp) (use assms in auto)
qed

lemma ref_tidy_not_lock: "ref_tidy ref q \<Longrightarrow>
    q \<noteq> set_lock_timeout_sql \<and> q \<noteq> advisory_lock_sql \<and> q \<noteq> advisory_unlock_all_sql"
  by (simp add: ref_tidy_def)

lemma ref_db_laws: "sql_database (ref_db faulty ref) ref ref_view ref_tx_view rw_sessions (ref_tidy ref)"
proof (unfold_locales, goal_cases)
  case (1 w rs)
  then show ?case using view_key_ok(1) [of w] unfolding key_ok_def by blast
next
  case (2 c w)
  show ?case unfolding ref_db_def sql_db.select_convs by (rule ref_pool_exec_wp) auto
next
  case (3 c w)
  show ?case unfolding ref_db_def sql_db.select_convs
    by (rule ref_query_wp) (auto simp: ref_query_def answers_def rows_answer_def)
next
  case (4 c i w)
  show ?case unfolding ref_db_def sql_db.select_convs
    by (rule ref_query_wp) (auto simp: ref_query_def answers_def rows_answer_def Let_def split: option.splits)
next
  case (5 c w)
  show ?case unfolding ref_db_def sql_db.select_convs
    by (rule ref_query_wp) (auto simp: ref_query_def answers_def rows_answer_def Let_def split: option.splits)
next
  case (6 c w)
  show ?case unfolding ref_db_def sql_db.select_convs
    by (rule ref_op_wp) (auto simp: ref_begin_def Let_def)
next
  case (7 s t c w)
  then show ?case unfolding ref_db_def sql_db.select_convs
    by (intro ref_tx_exec_wp) (auto simp: ref_tidy_not_lock)
next
  case (8 t c i u d w)
  show ?case unfolding ref_db_def sql_db.select_convs
    by (rule ref_tx_exec_wp) (auto dest: ref_insert_Inr)
next
  case (9 t c i w)
  show ?case unfolding ref_db_def sql_db.select_convs
    by (rule ref_tx_exec_wp) (auto split: option.splits)
next
  case (10 t w)
  show ?case unfolding ref_db_def sql_db.select_convs
    by (rule ref_op_wp) (auto simp: ref_commit_def)
next
  case (11 t w)
  show ?case by (simp add: ref_db_def)
next
  case (12 c i u d err w)
  show ?case unfolding ref_db_def sql_db.select_convs
    by (rule ref_pool_exec_wp) (auto dest: ref_insert_Inr)
next
  case (13 c i w)
  show ?case unfolding ref_db_def sql_db.select_convs
    by (rule ref_pool_exec_wp) (auto split: option.splits)
next
  case (14 c e i w)
  show ?case unfolding ref_db_def sql_db.select_convs
    by (rule ref_pool_exec_wp) (auto split: option.splits)
next
  case (15 c w)
  show ?case unfolding ref_db_def sql_db.select_convs
    by (cases "fault_at faulty c w") (auto simp: wp_lift_sql ref_op_def ref_conn_def Let_def)
next
  case (16 s n c w)
  then have "ref_conn_exec ref n s [] = ref_pool_exec ref s []"
    by (auto simp: ref_conn_exec_def ref_tidy_not_lock)
  with 16 show ?case unfolding ref_db_def sql_db.select_convs
    by (simp del: insert_iff, intro ref_pool_exec_wp) auto
next
  case (17 n w)
  show ?case by (simp add: ref_db_def)
next
  case (18 n w)
  show ?case by (simp add: ref_db_def wp_lift_sql)
next
  case (19 n c w)
  show ?case unfolding ref_db_def sql_db.select_convs
    by (rule ref_op_wp) (auto simp: ref_begin_def Let_def)
next
  case (20 t c ms w)
  show ?case unfolding ref_db_def sql_db.select_convs
    by (rule ref_op_wp) (auto simp: ref_tx_exec_def)
next
  case (21 t c k w)
  show ?case unfolding ref_db_def sql_db.select_convs
    by (rule ref_op_wp) (auto simp: ref_tx_exec_def Let_def split: if_splits)
next
  case (22 n c k w)
  show ?case unfolding ref_db_def sql_db.select_convs
    by (rule ref_op_wp) (auto simp: ref_conn_query_def answers_def rows_answer_def)
next
  case (23 n c w)
  show ?case unfolding ref_db_def sql_db.select_convs
    by (rule ref_op_wp) (auto simp: ref_conn_exec_def)
qed

interpretation ref: sql_database "ref_db faulty ref" ref ref_view ref_tx_view rw_sessions "ref_tidy ref" for faulty ref
  by (rule ref_db_laws)

end
