(* ===== verification/Source_FS.thy ===== *)
theory Source_FS
  imports Script_Parser
begin

text \<open>
  \<open>internal/source/fs.go\<close>: the migrations of a directory. The file system is a parameter: what
  \<open>fs.ReadDir\<close> and \<open>fs.ReadFile\<close> answer. A Go map of file names is an association list, its
  iteration order is immaterial because the IDs are sorted.
\<close>

record dir_entry =
  entry_name :: string
  entry_is_dir :: bool

record fsys =
  fs_read_dir :: "string \<Rightarrow> string + dir_entry list"
  fs_read_file :: "string \<Rightarrow> string + string"

definition sql_ext :: string where "sql_ext = ''.sql''"

type_synonym name_map = "(string \<times> string) list"

section \<open>Collecting the pairs\<close>

text \<open>
  One turn of the loop of \<open>collectPairs\<close>: which half a file is, its ID, and the maps with it. The
  result \<open>None\<close> is the \<open>continue\<close> of an entry that is not a migration script.
\<close>

definition entry_half :: "unicode \<Rightarrow> dir_entry \<Rightarrow> (bool \<times> string) option result" where
  "entry_half U entry =
     (let name = entry_name entry
      in if entry_is_dir entry \<or> \<not> suffix sql_ext (to_lower U name) then Inr None
         else if suffix up_file_suffix name then Inr (Some (True, trim_suffix name up_file_suffix))
         else if suffix down_file_suffix name then Inr (Some (False, trim_suffix name down_file_suffix))
         else Inl (Errorf [Lit ''migration file '', Lit name, Lit '': name must end in '', Lit up_file_suffix,
                     Lit '' or '', Lit down_file_suffix, Lit '' (lowercase)'']))"

definition check_half :: "unicode \<Rightarrow> string \<Rightarrow> string \<Rightarrow> name_map \<Rightarrow> name_map \<Rightarrow> unit result" where
  "check_half U name i half seen_folded =
     (if i = [] then Inl (Errorf [Lit ''migration file '', Lit name, Lit '': migration ID is empty''])
      else case map_of half i of
        Some previous \<Rightarrow>
          Inl (Errorf [Lit ''migration '', Quo i, Lit '': duplicate files '', Lit previous, Lit '' and '', Lit name])
      | None \<Rightarrow>
          (case map_of seen_folded (to_lower U i) of
             Some previous \<Rightarrow>
               if previous \<noteq> i then
                 Inl (Errorf [Lit ''migration IDs '', Quo previous, Lit '' and '', Quo i,
                        Lit '' differ only in letter case, which collides on case-insensitive filesystems''])
               else Inr ()
           | None \<Rightarrow> Inr ()))"

fun collect_loop :: "unicode \<Rightarrow> dir_entry list \<Rightarrow> name_map \<Rightarrow> name_map \<Rightarrow> name_map \<Rightarrow> (name_map \<times> name_map) result" where
  "collect_loop U [] ups downs seen_folded = Inr (ups, downs)"
| "collect_loop U (entry # entries) ups downs seen_folded =
     (case entry_half U entry of
        Inl e \<Rightarrow> Inl e
      | Inr None \<Rightarrow> collect_loop U entries ups downs seen_folded
      | Inr (Some (is_up, i)) \<Rightarrow>
          (case check_half U (entry_name entry) i (if is_up then ups else downs) seen_folded of
             Inl e \<Rightarrow> Inl e
           | Inr _ \<Rightarrow>
               collect_loop U entries
                 (if is_up then (i, entry_name entry) # ups else ups)
                 (if is_up then downs else (i, entry_name entry) # downs)
                 ((to_lower U i, i) # seen_folded)))"

definition collect_pairs :: "unicode \<Rightarrow> dir_entry list \<Rightarrow> (name_map \<times> name_map) result" where
  "collect_pairs U entries = collect_loop U entries [] [] []"

definition sorted_ids :: "name_map \<Rightarrow> name_map \<Rightarrow> string list" where
  "sorted_ids ups downs = sort (map fst ups @ filter (\<lambda>i. map_of ups i = None) (map fst downs))"

section \<open>The empty root\<close>

fun first_up :: "dir_entry list \<Rightarrow> string option" where
  "first_up [] = None"
| "first_up (c # cs) =
     (if \<not> entry_is_dir c \<and> suffix up_file_suffix (entry_name c) then Some (entry_name c) else first_up cs)"

fun explain_empty_root :: "fsys \<Rightarrow> dir_entry list \<Rightarrow> unit result" where
  "explain_empty_root F [] = Inr ()"
| "explain_empty_root F (entry # entries) =
     (if \<not> entry_is_dir entry then explain_empty_root F entries
      else case fs_read_dir F (entry_name entry) of
        Inl _ \<Rightarrow> explain_empty_root F entries
      | Inr nested \<Rightarrow>
          (case first_up nested of
             None \<Rightarrow> explain_empty_root F entries
           | Some candidate \<Rightarrow>
               Inl (Errorf [Lit ''no migrations at the source root, but '', Lit (entry_name entry),
                      Lit ''/ contains '', Lit candidate,
                      Lit '': the source is rooted one level too high (with go:embed, wrap it in fs.Sub(embedFS, '',
                      Quo (entry_name entry), Lit ''))''])))"

section \<open>Loading\<close>

definition load_migration :: "unicode \<Rightarrow> fsys \<Rightarrow> name_map \<Rightarrow> name_map \<Rightarrow> string \<Rightarrow> migration result" where
  "load_migration U F ups downs i =
     (case (map_of ups i, map_of downs i) of
        (None, down) \<Rightarrow>
          Inl (Errorf [Lit ''migration '', Quo i, Lit '': found '', Lit (case down of Some n \<Rightarrow> n | None \<Rightarrow> []),
                 Lit '' but no '', Lit (i @ up_file_suffix)])
      | (Some up, None) \<Rightarrow>
          Inl (Errorf [Lit ''migration '', Quo i, Lit '': found '', Lit up, Lit '' but no '',
                 Lit (i @ down_file_suffix), Lit ''; every migration needs a rollback script''])
      | (Some up, Some down) \<Rightarrow>
          (case fs_read_file F up of
             Inl m \<Rightarrow> Inl (wrapf [Lit ''read file '', Lit up, Lit '': ''] (Extern m))
           | Inr up_content \<Rightarrow>
               (case fs_read_file F down of
                  Inl m \<Rightarrow> Inl (wrapf [Lit ''read file '', Lit down, Lit '': ''] (Extern m))
                | Inr down_content \<Rightarrow> parse_migration_pair U i up_content down_content)))"

fun load_all :: "(string \<Rightarrow> migration result) \<Rightarrow> string list \<Rightarrow> migration list \<Rightarrow> migration list result" where
  "load_all load [] migrations = Inr migrations"
| "load_all load (i # is) migrations =
     (case load i of Inl e \<Rightarrow> Inl e | Inr m \<Rightarrow> load_all load is (migrations @ [m]))"

definition get_migrations :: "unicode \<Rightarrow> fsys \<Rightarrow> migration list result" where
  "get_migrations U F =
     (case fs_read_dir F ''.'' of
        Inl m \<Rightarrow> Inl (wrapf [Lit ''read directory: ''] (Extern m))
      | Inr entries \<Rightarrow>
          (case collect_pairs U entries of
             Inl e \<Rightarrow> Inl e
           | Inr (ups, downs) \<Rightarrow>
               (case (if ups = [] \<and> downs = [] then explain_empty_root F entries else Inr ()) of
                  Inl e \<Rightarrow> Inl e
                | Inr _ \<Rightarrow> load_all (load_migration U F ups downs) (sorted_ids ups downs) [])))"

declare sql_ext_def [go_eval] entry_half_def [go_eval] check_half_def [go_eval] collect_pairs_def [go_eval]
declare sorted_ids_def [go_eval] load_migration_def [go_eval] get_migrations_def [go_eval]

section \<open>What the loader guarantees\<close>

text \<open>The (ID, file name) pairs that the entries of a directory contribute to one half.\<close>

definition half_names :: "unicode \<Rightarrow> bool \<Rightarrow> dir_entry list \<Rightarrow> name_map" where
  "half_names U is_up entries =
     concat (map (\<lambda>entry. case entry_half U entry of
                    Inr (Some (b, i)) \<Rightarrow> if b = is_up then [(i, entry_name entry)] else []
                  | _ \<Rightarrow> []) entries)"

lemma half_names_simps [simp]:
  "half_names U is_up [] = []"
  "entry_half U e = Inr None \<Longrightarrow> half_names U is_up (e # es) = half_names U is_up es"
  "entry_half U e = Inr (Some (b, i)) \<Longrightarrow>
     half_names U is_up (e # es) = (if b = is_up then [(i, entry_name e)] else []) @ half_names U is_up es"
  by (simp_all add: half_names_def)

lemma half_names_iff:
  "(i, n) \<in> set (half_names U is_up es) \<longleftrightarrow>
     (\<exists>e \<in> set es. entry_half U e = Inr (Some (is_up, i)) \<and> entry_name e = n)"
proof (induction es)
  case (Cons e es)
  then show ?case
    by (cases "entry_half U e") (auto simp: half_names_def split: option.splits prod.splits if_splits)
qed simp

lemma trim_suffix_append: "suffix suf n \<Longrightarrow> trim_suffix n suf @ suf = n"
  by (auto simp: trim_suffix_def suffix_def)

lemma entry_half_Some:
  "entry_half U e = Inr (Some (b, i)) \<Longrightarrow>
     \<not> entry_is_dir e \<and> entry_name e = i @ (if b then up_file_suffix else down_file_suffix)"
  by (auto simp: entry_half_def Let_def trim_suffix_append split: if_splits)

definition folds_to :: "unicode \<Rightarrow> name_map \<Rightarrow> name_map \<Rightarrow> bool" where
  "folds_to U seen_folded names \<longleftrightarrow> (\<forall>i \<in> fst ` set names. map_of seen_folded (to_lower U i) = Some i)"

definition pairs_ok :: "unicode \<Rightarrow> name_map \<Rightarrow> name_map \<Rightarrow> bool" where
  "pairs_ok U ups downs \<longleftrightarrow> distinct (map fst ups) \<and> distinct (map fst downs) \<and> [] \<notin> fst ` set (ups @ downs)
     \<and> inj_on (to_lower U) (fst ` set (ups @ downs))"

lemma map_of_None_fst: "map_of xs i = None \<longleftrightarrow> i \<notin> fst ` set xs"
  by (induction xs) auto

lemma check_half_Inr:
  "check_half U n i half sf = Inr u \<longleftrightarrow>
     i \<noteq> [] \<and> i \<notin> fst ` set half \<and> map_of sf (to_lower U i) \<in> {None, Some i}"
  by (auto simp: check_half_def map_of_None_fst [symmetric] split: option.splits)

lemma folds_to_Cons:
  "folds_to U sf (ups @ downs) \<Longrightarrow> map_of sf (to_lower U i) \<in> {None, Some i} \<Longrightarrow>
     folds_to U ((to_lower U i, i) # sf) (((i, n) # ups) @ downs)
     \<and> folds_to U ((to_lower U i, i) # sf) (ups @ (i, n) # downs)"
  unfolding folds_to_def by (auto; force)

lemma folds_to_inj: "folds_to U sf names \<Longrightarrow> inj_on (to_lower U) (fst ` set names)"
  unfolding folds_to_def inj_on_def by (metis option.inject)

lemma collect_loop_Inr:
  assumes "collect_loop U es ups downs sf = Inr (ups', downs')" "folds_to U sf (ups @ downs)" "pairs_ok U ups downs"
  shows "ups' = rev (half_names U True es) @ ups \<and> downs' = rev (half_names U False es) @ downs
    \<and> (\<forall>e \<in> set es. is_ok (entry_half U e)) \<and> pairs_ok U ups' downs'"
  using assms
proof (induction es arbitrary: ups downs sf)
  case (Cons e es)
  then obtain h where h: "entry_half U e = Inr h" by (auto split: sum.splits)
  show ?case
  proof (cases h)
    case None
    with Cons h show ?thesis by simp
  next
    case (Some bi)
    obtain b i where bi: "bi = (b, i)" by force
    let ?half = "if b then ups else downs" and ?sf = "(to_lower U i, i) # sf"
    let ?ups = "if b then (i, entry_name e) # ups else ups"
    let ?downs = "if b then downs else (i, entry_name e) # downs"
    have ck: "i \<noteq> []" "i \<notin> fst ` set ?half" "map_of sf (to_lower U i) \<in> {None, Some i}"
      and rec: "collect_loop U es ?ups ?downs ?sf = Inr (ups', downs')"
      using Cons.prems(1) h Some bi
      by (auto simp: check_half_Inr split: sum.splits if_splits)
    have f: "folds_to U ?sf (?ups @ ?downs)"
      using folds_to_Cons [OF Cons.prems(2) ck(3)] by simp
    moreover have "pairs_ok U ?ups ?downs"
      using Cons.prems(3) ck folds_to_inj [OF f] unfolding pairs_ok_def by (auto split: if_splits)
    ultimately show ?thesis
      using Cons.IH [OF rec] h Some bi by auto
  qed
qed simp

lemma collect_pairs_Inr:
  "collect_pairs U es = Inr (ups, downs) \<Longrightarrow>
     ups = rev (half_names U True es) \<and> downs = rev (half_names U False es)
     \<and> (\<forall>e \<in> set es. is_ok (entry_half U e)) \<and> pairs_ok U ups downs"
  unfolding collect_pairs_def
  by (drule collect_loop_Inr) (auto simp: folds_to_def pairs_ok_def)

lemma load_all_Inr:
  "load_all load is acc = Inr ms \<longleftrightarrow> (\<exists>ns. ms = acc @ ns \<and> list_all2 (\<lambda>i m. load i = Inr m) is ns)"
proof (induction "is" arbitrary: acc)
  case (Cons i "is")
  then show ?case
    by (cases "load i") (auto simp: list_all2_Cons1)
qed auto

lemma load_migration_Inr:
  "load_migration U F ups downs i = Inr m \<longleftrightarrow>
     (\<exists>up down uc dc. map_of ups i = Some up \<and> map_of downs i = Some down
        \<and> fs_read_file F up = Inr uc \<and> fs_read_file F down = Inr dc \<and> parse_migration_pair U i uc dc = Inr m)"
  by (auto simp: load_migration_def split: option.splits sum.splits)

lemma sorted_ids_props:
  assumes "pairs_ok U ups downs"
  shows "sorted (sorted_ids ups downs)" "distinct (sorted_ids ups downs)"
    "set (sorted_ids ups downs) = fst ` set (ups @ downs)"
proof -
  show "sorted (sorted_ids ups downs)" by (simp add: sorted_ids_def)
  show "distinct (sorted_ids ups downs)"
    using assms by (auto simp: sorted_ids_def pairs_ok_def map_of_None_fst)
  show "set (sorted_ids ups downs) = fst ` set (ups @ downs)"
    by (auto simp: sorted_ids_def map_of_None_fst image_Un)
qed

lemma load_all_ids:
  "list_all2 (\<lambda>i m. load_migration U F ups downs i = Inr m) is ms \<Longrightarrow> ids ms = is"
  by (induction rule: list_all2_induct) (auto simp: load_migration_Inr parse_migration_pair_Inr)

lemma map_of_half_names:
  "map_of (rev (half_names U b es)) i = Some n \<Longrightarrow> n = i @ (if b then up_file_suffix else down_file_suffix)"
  by (drule map_of_SomeD) (auto simp: half_names_iff dest: entry_half_Some)

text \<open>
  A migration list the loader returns: sorted by ID without repetition, no empty ID, no two IDs that
  differ in letter case only, and every script accepted by the parser.
\<close>

definition well_formed_source :: "unicode \<Rightarrow> migration list \<Rightarrow> bool" where
  "well_formed_source U ms \<longleftrightarrow>
     sorted (ids ms) \<and> distinct (ids ms) \<and> [] \<notin> set (ids ms) \<and> inj_on (to_lower U) (set (ids ms))
     \<and> (\<forall>m \<in> set ms. accepted_script U False (mig_up_script m) \<and> accepted_script U True (mig_down_script m))"

definition loaded_from :: "fsys \<Rightarrow> migration \<Rightarrow> bool" where
  "loaded_from F m \<longleftrightarrow>
     (\<exists>uc dc. fs_read_file F (mig_id m @ up_file_suffix) = Inr uc \<and> fs_read_file F (mig_id m @ down_file_suffix) = Inr dc
        \<and> mig_up_script m = trim_space uc \<and> mig_down_script m = trim_space dc)"

lemma get_migrations_loads:
  assumes "get_migrations U F = Inr ms"
  obtains (loads) entries ups downs where
    "fs_read_dir F ''.'' = Inr entries" "\<forall>e \<in> set entries. is_ok (entry_half U e)" "pairs_ok U ups downs"
    "ups = rev (half_names U True entries)" "downs = rev (half_names U False entries)"
    "list_all2 (\<lambda>i m. load_migration U F ups downs i = Inr m) (sorted_ids ups downs) ms"
    "ms = [] \<Longrightarrow> is_ok (explain_empty_root F entries)"
proof -
  obtain entries ups downs where e: "fs_read_dir F ''.'' = Inr entries" "collect_pairs U entries = Inr (ups, downs)"
    and x: "is_ok (if ups = [] \<and> downs = [] then explain_empty_root F entries else Inr ())"
    and l: "load_all (load_migration U F ups downs) (sorted_ids ups downs) [] = Inr ms"
    using assms by (auto simp: get_migrations_def split: sum.splits prod.splits)
  from l have l2: "list_all2 (\<lambda>i m. load_migration U F ups downs i = Inr m) (sorted_ids ups downs) ms"
    by (auto simp: load_all_Inr)
  have ok: "pairs_ok U ups downs" using collect_pairs_Inr [OF e(2)] by blast
  have "ms = [] \<Longrightarrow> is_ok (explain_empty_root F entries)"
    using l2 x sorted_ids_props(3) [OF ok] by (cases "ups = [] \<and> downs = []") auto
  with that [OF e(1) _ ok _ _ l2] collect_pairs_Inr [OF e(2)] show thesis by blast
qed

lemma load_all_loaded:
  assumes "list_all2 (\<lambda>i m. load_migration U F ups downs i = Inr m) is ms" "m \<in> set ms"
    "ups = rev (half_names U True entries)" "downs = rev (half_names U False entries)"
  shows "loaded_from F m \<and> accepted_script U False (mig_up_script m) \<and> accepted_script U True (mig_down_script m)"
proof -
  obtain i where "load_migration U F ups downs i = Inr m"
    using assms(1,2) by (auto simp: list_all2_conv_all_nth in_set_conv_nth)
  then show ?thesis
    using assms(3,4) map_of_half_names [of U True entries i] map_of_half_names [of U False entries i]
    by (auto simp: load_migration_Inr parse_migration_pair_Inr loaded_from_def)
qed

lemma get_migrations_well_formed:
  assumes "get_migrations U F = Inr ms"
  shows "well_formed_source U ms \<and> (\<forall>m \<in> set ms. loaded_from F m)"
proof -
  obtain entries ups downs where p: "pairs_ok U ups downs"
    "ups = rev (half_names U True entries)" "downs = rev (half_names U False entries)"
    and l: "list_all2 (\<lambda>i m. load_migration U F ups downs i = Inr m) (sorted_ids ups downs) ms"
    by (rule get_migrations_loads [OF assms]) (rule that; assumption)
  have eq: "ids ms = sorted_ids ups downs" by (rule load_all_ids [OF l])
  have names: "sorted (ids ms)" "distinct (ids ms)" "set (ids ms) = fst ` set (ups @ downs)"
    unfolding eq by (rule sorted_ids_props [OF p(1)])+
  have "[] \<notin> fst ` set (ups @ downs)" "inj_on (to_lower U) (fst ` set (ups @ downs))"
    using p(1) unfolding pairs_ok_def by blast+
  moreover have "\<And>m. m \<in> set ms \<Longrightarrow>
      loaded_from F m \<and> accepted_script U False (mig_up_script m) \<and> accepted_script U True (mig_down_script m)"
    by (rule load_all_loaded [OF l _ p(2,3)])
  ultimately show ?thesis unfolding well_formed_source_def names(3) using names by blast
qed

text \<open>A script file at the top level is either loaded or reported: nothing is skipped in silence.\<close>

lemma get_migrations_complete:
  assumes "get_migrations U F = Inr ms" "fs_read_dir F ''.'' = Inr entries" "e \<in> set entries"
    "\<not> entry_is_dir e" "suffix ''.sql'' (to_lower U (entry_name e))"
  shows "\<exists>m \<in> set ms. entry_name e \<in> {mig_id m @ up_file_suffix, mig_id m @ down_file_suffix}"
proof -
  obtain es ups downs where "fs_read_dir F ''.'' = Inr es" and ok: "\<forall>e \<in> set es. is_ok (entry_half U e)"
    and pr: "pairs_ok U ups downs"
    and hs: "ups = rev (half_names U True es)" "downs = rev (half_names U False es)"
    and l: "list_all2 (\<lambda>i m. load_migration U F ups downs i = Inr m) (sorted_ids ups downs) ms"
    by (rule get_migrations_loads [OF assms(1)]) (rule that; assumption)
  then have "es = entries" using assms(2) by simp
  note p = pr ok [unfolded this] hs [unfolded this]
  obtain b i where h: "entry_half U e = Inr (Some (b, i))"
    using p(2) assms(3-5) by (force simp: entry_half_def Let_def sql_ext_def split: if_splits)
  have "i \<in> set (sorted_ids ups downs)"
    using half_names_iff [of i "entry_name e" U b entries] h assms(3) p(3,4)
    unfolding sorted_ids_props(3) [OF p(1)] by (cases b) force+
  then obtain m where "m \<in> set ms" "mig_id m = i"
    using load_all_ids [OF l] by (metis ex_map_conv image_iff image_set)
  with entry_half_Some [OF h] show ?thesis by auto
qed

text \<open>An empty answer is never given for a source that is rooted one directory too high.\<close>

lemma explain_empty_root_ok:
  "is_ok (explain_empty_root F es) \<Longrightarrow> e \<in> set es \<Longrightarrow> entry_is_dir e \<Longrightarrow> fs_read_dir F (entry_name e) = Inr nested
     \<Longrightarrow> first_up nested = None"
  by (induction es) (auto split: sum.splits option.splits if_splits)

lemma first_up_None: "first_up es = None \<longleftrightarrow> (\<forall>c \<in> set es. entry_is_dir c \<or> \<not> suffix up_file_suffix (entry_name c))"
  by (induction es) auto

lemma get_migrations_empty:
  assumes "get_migrations U F = Inr []" "fs_read_dir F ''.'' = Inr entries" "e \<in> set entries" "entry_is_dir e"
    "fs_read_dir F (entry_name e) = Inr nested" "c \<in> set nested" "\<not> entry_is_dir c"
  shows "\<not> suffix up_file_suffix (entry_name c)"
proof -
  have "is_ok (explain_empty_root F entries)"
    by (rule get_migrations_loads [OF assms(1)]) (use assms(2) in simp)
  then show ?thesis
    using explain_empty_root_ok [OF _ assms(3-5)] assms(6,7) by (auto simp: first_up_None)
qed

end
