(* ===== verification/Demo.thy ===== *)
theory Demo
  imports Reference_Database Source_FS
begin

text \<open>
  Evaluation of the model on concrete inputs. The rules in \<open>run_eval\<close> unfold an operation only where it is
  applied to a state, and the congruences keep the simplifier out of the continuations, so that it runs a
  program in the order Go does. A small file system and an empty server serve as the input.
\<close>

section \<open>Running with the simplifier\<close>

named_theorems run_eval

lemma run_congs:
  "w = w' \<Longrightarrow> io_handle m1 h k1 w = io_handle m1 h k1 w'"
  "w = w' \<Longrightarrow> go_bind m2 k2 w = go_bind m2 k2 w'"
  "w = w' \<Longrightarrow> go_try m3 ps k3 w = go_try m3 ps k3 w'"
  "w = w' \<Longrightarrow> go_defer d m4 w = go_defer d m4 w'"
  "s = s' \<Longrightarrow> on_state m5 s = on_state m5 s'"
  "t = t' \<Longrightarrow> on_executor m6 t = on_executor m6 t'"
  "w = w' \<Longrightarrow> modify f w = modify f w'"
  "w = w' \<Longrightarrow> lift_sql m7 w = lift_sql m7 w'"
  "w = w' \<Longrightarrow> first_row m8 w = first_row m8 w'"
  "u = u' \<Longrightarrow> set_result g u = set_result g u'"
  "x = x' \<Longrightarrow> ref_op faulty c f9 x = ref_op faulty c f9 x'"
  "y = y' \<Longrightarrow> on_pinned_conn D c fn y = on_pinned_conn D c fn y'"
  "z = z' \<Longrightarrow> with_lock S1 c fn1 z = with_lock S1 c fn1 z'"
  "v = v' \<Longrightarrow> run_service fn2 v = run_service fn2 v'"
  by simp_all

lemmas io_eval [run_eval] =
  ret_def [THEN fun_cong] fail_def [THEN fun_cong] io_handle_def [THEN fun_cong] of_result_def [THEN fun_cong]
  go_defer_def [THEN fun_cong] modify_def [THEN fun_cong] lift_sql_def [THEN fun_cong] on_state_def [THEN fun_cong]
  on_executor_def [THEN fun_cong] set_result_def [THEN fun_cong] err_of_def

lemma try_eval [run_eval]:
  "go_bind m k w = (case m w of (w', Inl e) \<Rightarrow> (w', Inl e) | (w', Inr a) \<Rightarrow> k a w')"
  "go_try m ps k w = (case m w of (w', Inl e) \<Rightarrow> (w', Inl (wrapf ps e)) | (w', Inr a) \<Rightarrow> k a w')"
  "first_row q w = (case q w of
     (w', Inl t) \<Rightarrow> (w', Inl (Extern t))
   | (w', Inr rows) \<Rightarrow> (case rows_data rows of
       r # _ \<Rightarrow> (w', Inr (Some r))
     | [] \<Rightarrow> (case rows_err rows of Some t \<Rightarrow> (w', Inl (Extern t)) | None \<Rightarrow> (w', Inr None))))"
  by (simp_all add: go_eval split: prod.split sum.split list.split option.split)

lemmas executor_eval [run_eval] =
  ensure_migrations_table_def [THEN fun_cong] table_exists_def [THEN fun_cong] delete_record_def [THEN fun_cong]
  get_applied_migrations_def [THEN fun_cong] destroy_def release_conn_def on_pinned_conn_def [THEN fun_cong]
  run_statements.simps [THEN fun_cong] record_outcome_def [THEN fun_cong] apply_without_transaction_def [THEN fun_cong]
  apply_migration_def [THEN fun_cong] record_applied_def [THEN fun_cong] record_rows.simps [THEN fun_cong]
  select_down_def [THEN fun_cong] mark_failed_def [THEN fun_cong] rollback_without_transaction_def [THEN fun_cong]
  rollback_migration_def [THEN fun_cong] ensure_reversible_def [THEN fun_cong] collect_irreversible.simps [THEN fun_cong]
  rollback_all.simps [THEN fun_cong] apply_all.simps [THEN fun_cong] execute_plan_def execute_plan_body_def [THEN fun_cong]
  empty_execution_def

lemmas service_eval [run_eval] =
  empty_result_def join_ids_def with_lock_def [THEN fun_cong] record_execution_def refuse_if_failed_def [THEN fun_cong]
  applied_migrations_def [THEN fun_cong] migration_of_def service_get_migrations_def [THEN fun_cong] blocked_by_def
  execute_and_record_def [THEN fun_cong] up_body_def [THEN fun_cong] reconcile_body_def [THEN fun_cong]
  rollback_body_def [THEN fun_cong] rollback_loop.simps [THEN fun_cong] rollback_candidates_def
  forget_body_def [THEN fun_cong] baseline_body_def [THEN fun_cong] run_service_def up_def [THEN fun_cong]
  reconcile_def [THEN fun_cong] rollback_def [THEN fun_cong] baseline_def [THEN fun_cong] forget_def
  build_reconcile_plan_def [THEN fun_cong]

lemmas lock_eval [run_eval] =
  acquire_lock_def [THEN fun_cong] release_lock_def [THEN fun_cong] lock_on_conn_def [THEN fun_cong]
  unlock_conn_def [THEN fun_cong] release_all_and_close_def

lemma provider_eval [run_eval]:
  "sv_executor (new_service src U D ref p) = custom_executor D U ref"
  "sv_locker (new_service src U D ref p) = postgres_locker p D"
  "lk_acquire (postgres_locker p D) = acquire_lock p D" "lk_release (postgres_locker p D) = release_lock p D"
  "x_ensure_table (custom_executor D U ref) = ensure_migrations_table D ref"
  "x_table_exists (custom_executor D U ref) = table_exists D ref"
  "x_record_applied (custom_executor D U ref) = record_applied D ref"
  "x_rollback (custom_executor D U ref) = rollback_migration D U ref"
  "x_applied (custom_executor D U ref) = get_applied_migrations D ref"
  "x_delete_record (custom_executor D U ref) = delete_record D ref"
  "x_ensure_reversible (custom_executor D U ref) = ensure_reversible D ref"
  "x_execute_plan (custom_executor D U ref) c plan all w =
     (case execute_plan D U ref c plan all w of (w', x, e) \<Rightarrow> (w', Some x, e))"
  by (simp_all add: new_service_def postgres_locker_def custom_executor_def)

lemma ref_db_eval [run_eval]:
  "db_max_open (ref_db faulty ref) w = 0"
  "db_exec (ref_db faulty ref) c q args = ref_op faulty c (ref_pool_exec ref q args)"
  "db_query (ref_db faulty ref) c q args = ref_op faulty c (ref_query ref q args)"
  "db_begin (ref_db faulty ref) c = ref_op faulty c (ref_begin 0)"
  "db_conn (ref_db faulty ref) c w = (case fault_at faulty c w of
          None \<Rightarrow> ref_op faulty c ref_conn w | Some _ \<Rightarrow> (tick w, Inl ''no connection''))"
  "tx_exec (ref_db faulty ref) t c q args = ref_op faulty c (ref_tx_exec ref t q args)"
  "tx_commit (ref_db faulty ref) t = ref_op faulty Detached (ref_commit t)"
  "tx_rollback (ref_db faulty ref) t w = w"
  "conn_exec (ref_db faulty ref) n c q args = ref_op faulty c (ref_conn_exec ref n q args)"
  "conn_query (ref_db faulty ref) n c q args = ref_op faulty c (ref_conn_query n q args)"
  "conn_begin (ref_db faulty ref) n c = ref_op faulty c (ref_begin n)"
  "conn_raw_close (ref_db faulty ref) n w = w\<lparr>rw_view := unlocked n (ref_view w)\<rparr>"
  "conn_close (ref_db faulty ref) n w = (w\<lparr>rw_view := checked_in n (ref_view w)\<rparr>, Inr ())"
  "ctx_done (ref_db faulty ref) c w = (rw_cancelled w \<and> c = Caller)"
  by (simp_all add: ref_db_def)

lemmas ref_eval [run_eval] =
  ref_op_def fault_at_def tick_def ref_view_def ref_tx_view_def keyed_def ref_insert_def ref_query_def
  ref_pool_exec_def ref_tx_exec_def ref_begin_def ref_commit_def ref_conn_def ref_conn_exec_def ref_conn_query_def
  rows_answer_def row_cells_def table_created_def deleted_def marked_def publish_def unlocked_def unlocked_key_def locked_def no_other_holds_def checked_in_def
  ran_def null_string_def

section \<open>Inputs\<close>

definition demo_unicode :: unicode where
  "demo_unicode = \<lparr>uni_letter = (\<lambda>_. False), uni_digit = (\<lambda>_. False), uni_lower = (\<lambda>r. r)\<rparr>"

definition demo_files :: fsys where
  "demo_files =
     \<lparr>fs_read_dir = (\<lambda>_. Inr [\<lparr>entry_name = ''1.up.sql'', entry_is_dir = False\<rparr>,
        \<lparr>entry_name = ''1.down.sql'', entry_is_dir = False\<rparr>]),
      fs_read_file = (\<lambda>n. Inr (if n = ''1.up.sql'' then ''A'' else ''B''))\<rparr>"

definition demo_migration :: migration where
  "demo_migration = \<lparr>mig_applied_at = 0, mig_id = ''1'', mig_up_script = ''A'', mig_down_script = ''B''\<rparr>"

definition demo_row :: "string \<Rightarrow> string option \<Rightarrow> row" where
  "demo_row i e = \<lparr>row_id = i, row_up = ''A'', row_down = ''B'', row_error = e, row_time = 0\<rparr>"

definition demo_world :: "row list option \<Rightarrow> fault option list \<Rightarrow> bool \<Rightarrow> ref_world" where
  "demo_world rows faults cancelled =
     \<lparr>rw_view = \<lparr>v_rows = rows, v_ran = [], v_locks = [], v_out = {}\<rparr>,
      rw_txs = (\<lambda>_. \<lparr>v_rows = None, v_ran = [], v_locks = [], v_out = {}\<rparr>), rw_sessions = (\<lambda>_. 0),
      rw_next = 1, rw_clock = 0, rw_faults = faults, rw_cancelled = cancelled\<rparr>"

definition demo_lock :: lock_state where
  "demo_lock = \<lparr>lock_conn = None, is_lock_acquired = False\<rparr>"

definition demo_pg :: postgres where
  "demo_pg = \<lparr>pg_lock_timeout = 5000000000, pg_lock_id = 7\<rparr>"

lemmas string_eval = suffix_to_prefix char_of_def Let_def bit_0 scan_line.simps scan_step_def split_line_def

lemma demo_source: "get_migrations demo_unicode demo_files = Inr [demo_migration]"
  by (simp add: go_eval demo_unicode_def demo_files_def demo_migration_def string_eval)

lemma demo_header: "parse_directive_header ''A'' = Inr (Map.empty, ''A'')" "parse_directive_header ''B'' = Inr (Map.empty, ''B'')"
  by (simp_all add: go_eval)

lemma demo_ref_exec [run_eval]: "ref_exec ref ''A'' [] now v = Inr (Inr 0, ran [''A''] v)"
  "ref_exec ref ''B'' [] now v = Inr (Inr 0, ran [''B''] v)"
  by (rule ref_exec_simps(6), simp add: ref_tidy_def statement_texts)+

lemma demo_texts: "''A'' \<noteq> advisory_lock_sql" "''A'' \<noteq> set_lock_timeout_sql" "''B'' \<noteq> advisory_lock_sql"
  "''B'' \<noteq> set_lock_timeout_sql" "''A'' \<noteq> advisory_unlock_all_sql" "''B'' \<noteq> advisory_unlock_all_sql"
  by (simp_all add: statement_texts)

lemmas demo_eval = demo_world_def demo_lock_def demo_pg_def demo_source demo_migration_def demo_row_def demo_header
  demo_texts has_directive_def id_map_def Let_def

abbreviation demo_service :: "bool \<Rightarrow> (ref_world, lock_state) service" where
  "demo_service faulty \<equiv>
     new_service (get_migrations demo_unicode demo_files) demo_unicode (ref_db (\<lambda>_. faulty) ''m'') ''m'' demo_pg"

abbreviation demo_options :: run_options where
  "demo_options \<equiv> \<lparr>allow_rollback = True, allow_interleaved = False, allow_empty_source = False\<rparr>"

lemma demo_tidy: "tidy_script demo_unicode (ref_tidy ''m'') ''A''" "tidy_script demo_unicode (ref_tidy ''m'') ''B''"
  by (simp_all add: tidy_script_def script_steps_def demo_header has_directive_def ref_tidy_def statement_texts)

lemma demo_row_simps [simp]:
  "row_id (demo_row i e) = i" "row_down (demo_row i e) = ''B''" "row_error (demo_row i e) = e"
  by (simp_all add: demo_row_def)

lemma demo_migration_simps [simp]:
  "mig_id demo_migration = ''1''" "mig_up_script demo_migration = ''A''" "mig_down_script demo_migration = ''B''"
  by (simp_all add: demo_migration_def)

lemma demo_steps: "script_steps U ''A'' = [''A'']" "script_steps U ''B'' = [''B'']"
  by (simp_all add: script_steps_def demo_header has_directive_def)

lemma demo_view: "ref_view (demo_world (Some [demo_row ''0'' e]) fs b) =
    \<lparr>v_rows = Some [demo_row ''0'' e], v_ran = [], v_locks = [], v_out = {}\<rparr>"
  "ref_view (demo_world None fs b) = \<lparr>v_rows = None, v_ran = [], v_locks = [], v_out = {}\<rparr>"
  by (simp_all add: ref_view_def keyed_def demo_world_def)

section \<open>Runs\<close>

text \<open>The extra migration \<open>0\<close> is rolled back and the pending migration \<open>1\<close> applied.\<close>

lemma demo_reconcile:
  "\<exists>w'. reconcile (demo_service False) Caller demo_options (demo_world (Some [demo_row ''0'' None]) [] False, demo_lock)
     = ((w', demo_lock), \<lparr>res_applied = [demo_migration],
         res_rolled_back = [\<lparr>mig_applied_at = 0, mig_id = ''0'', mig_up_script = [], mig_down_script = []\<rparr>],
         res_extras_left = [], res_interleaved = []\<rparr>, None)
       \<and> v_ran (ref_view w') = [''B'', ''A'']"
  by (simp add: run_eval demo_eval cong: run_congs)

text \<open>The server refuses the up script, after the extra migration has been rolled back.\<close>

lemma demo_reconcile_fails:
  "\<exists>w' r e. reconcile (demo_service True) Caller demo_options
     (demo_world (Some [demo_row ''0'' None]) (replicate 16 None @ [Some (Refused ''boom'')]) False, demo_lock)
     = ((w', demo_lock), r, Some e) \<and> v_ran (ref_view w') = [''B'']"
  by (simp add: run_eval demo_eval numeral_eq_Suc cong: run_congs)

lemma demo_up:
  "\<exists>w' r. up (demo_service False) Caller (demo_world (Some [demo_row ''0'' None]) [] False, demo_lock)
     = ((w', demo_lock), r, None) \<and> res_applied r = [demo_migration] \<and> ids (res_extras_left r) = [''0'']"
  by (simp add: run_eval demo_eval cong: run_congs)

lemma demo_rollback:
  "\<exists>w' r. rollback (demo_service False) Caller 1 (demo_world (Some [demo_row ''0'' None]) [] False, demo_lock)
     = ((w', demo_lock), r, None) \<and> ids (res_rolled_back r) = [''0'']"
  by (simp add: run_eval demo_eval cong: run_congs)

lemma demo_baseline:
  "\<exists>w' r. baseline (demo_service False) Caller ''1'' (demo_world None [] False, demo_lock)
     = ((w', demo_lock), r, None) \<and> res_applied r = [demo_migration]"
  by (simp add: run_eval demo_eval cong: run_congs)

lemma demo_forget:
  "\<exists>w'. forget (demo_service False) Caller ''0'' (demo_world (Some [demo_row ''0'' (Some ''boom'')]) [] False, demo_lock)
     = ((w', demo_lock), None) \<and> v_rows (ref_view w') = Some []"
  by (simp add: run_eval demo_eval cong: run_congs)

end
