(* ===== verification/Ascii_Text.thy ===== *)
theory Ascii_Text
  imports Splitter_Props
begin

text \<open>
  Facts about runes that several theories share: which bytes come from runes below 128, decoding of a text that
  is cut before such a byte, and trimming of a text that begins and ends with a visible one.
\<close>

section \<open>Runes below 128\<close>

lemma encode_rune_ascii: "r < 128 \<Longrightarrow> encode_rune r = [char_of r]"
  by (simp add: encode_rune_def)

lemma encode_rune_high:
  assumes "128 \<le> r" "c \<in> set (encode_rune r)"
  shows "128 \<le> byte c"
proof -
  have small: "of_char (char_of n :: char) = n" if "n < 256" for n :: nat using that by simp
  have high: "r div 64 < 32" if "r < 0x800" using that by auto
  have "r div 4096 < 16" if "r < 0x10000" using that by auto
  moreover have "r div 262144 < 5" if "r \<le> 0x10FFFF" using that by auto
  ultimately show ?thesis
    using assms high
    by (auto simp: encode_rune_def rune_error_def Let_def small split: if_splits)
qed

text \<open>A rune below 128 is decoded from the one byte it is.\<close>

lemma accept_range_size:
  "accept_range n = Some (sz, lo, hi) \<Longrightarrow>
     (sz = 2 \<and> 2 \<le> n mod 32) \<or> (sz = 3 \<and> (1 \<le> n mod 16 \<or> lo = 0xA0 \<and> hi = 0xBF))
     \<or> (sz = 4 \<and> (1 \<le> n mod 8 \<or> lo = 0x90 \<and> hi = 0xBF))"
proof -
  have sub: "n mod k = n - q" if "q \<le> n" "n < q + k" "k dvd q" for k q
    using that by (intro mod_nat_eqI) auto
  have "2 \<le> n mod 32" if "0xC2 \<le> n" "n \<le> 0xDF" using that sub [of 192 32] by simp
  moreover have "1 \<le> n mod 16" if "0xE1 \<le> n" "n \<le> 0xEF" using that sub [of 224 16] by simp
  moreover have "1 \<le> n mod 8" if "0xF1 \<le> n" "n \<le> 0xF4" using that sub [of 240 8] by simp
  moreover assume "accept_range n = Some (sz, lo, hi)"
  ultimately show ?thesis
    by (auto simp: accept_range_def split: if_splits)
qed

lemma decode_rune_low:
  assumes "s \<noteq> []" "fst (decode_rune s) < 128"
  shows "byte (hd s) < 128 \<and> decode_rune s = (byte (hd s), 1)"
proof -
  obtain c t where s: "s = c # t" using assms(1) by (cases s) auto
  show ?thesis
  proof (cases "byte c < 128")
    case False
    note d = assms(2) [unfolded s]
    obtain sz lo hi where r: "accept_range (byte c) = Some (sz, lo, hi)"
      using False d by (cases "accept_range (byte c)") (auto simp: rune_error_def)
    obtain b1 t1 where t: "t = b1 # t1" and b1: "lo \<le> byte b1" "byte b1 \<le> hi"
      using False d r by (cases t) (auto simp: rune_error_def split: if_splits)
    have m: "byte b1 mod 64 = byte b1 - 128" if "128 \<le> byte b1" "byte b1 \<le> 191"
      using that mod_nat_eqI [of "byte b1 - 128" 64 "byte b1"] by (simp add: dvd_def)
    have False
    proof -
      consider "sz = 2" "2 \<le> byte c mod 32" | "sz = 3" "1 \<le> byte c mod 16 \<or> 32 \<le> byte b1 mod 64"
        | "sz = 4" "1 \<le> byte c mod 8 \<or> 16 \<le> byte b1 mod 64"
        using accept_range_size [OF r] b1 m by fastforce
      then show False
      proof cases
        case 1
        then show False using False d r b1 by (simp add: t)
      next
        case 2
        then obtain b2 t2 where "t1 = b2 # t2" "cont_byte b2"
          using False d r b1 by (cases t1) (auto simp: t rune_error_def split: if_splits)
        then show False using 2 False d r b1 by (auto simp: t)
      next
        case 3
        then obtain b2 t2 where t1: "t1 = b2 # t2" "cont_byte b2"
          using False d r b1 by (cases t1) (auto simp: t rune_error_def split: if_splits)
        then obtain b3 t3 where "t2 = b3 # t3" "cont_byte b3"
          using 3 False d r b1 by (cases t2) (auto simp: t rune_error_def split: if_splits)
        then show False using 3 False d r b1 t1 by (auto simp: t)
      qed
    qed
    then show ?thesis ..
  qed (simp add: s)
qed

lemma runes_low: "(r, b) \<in> set (runes s) \<Longrightarrow> r < 128 \<Longrightarrow> b = [char_of r] \<and> char_of r \<in> set s"
proof (induction s rule: runes.induct)
  case (1 s)
  show ?case
  proof (cases "s = []")
    case False
    let ?n = "snd (decode_rune s)"
    consider "(r, b) = (fst (decode_rune s), take ?n s)" | "(r, b) \<in> set (runes (drop ?n s))"
      using "1.prems"(1) runes_step [OF False] by auto
    then show ?thesis
    proof cases
      case 1
      then have "decode_rune s = (byte (hd s), 1)" "byte (hd s) < 128"
        using decode_rune_low [OF False] "1.prems"(2) by auto
      with 1 False show ?thesis by (cases s) auto
    next
      case 2
      then show ?thesis using "1.IH" [OF False _ "1.prems"(2)] by (meson in_set_dropD)
    qed
  qed (use "1.prems" in simp)
qed

text \<open>Decoding restarts at a byte below 128, whatever stands before it.\<close>

lemma decode_rune_append_ascii:
  assumes "s \<noteq> []" "t = [] \<or> byte (hd t) < 128"
  shows "decode_rune (s @ t) = decode_rune s"
proof (cases "t = []")
  case False
  then obtain d t' where t: "t = d # t'" "byte d < 128" using assms(2) by (cases t) auto
  then have "\<not> cont_byte d" by (simp add: cont_byte_def)
  moreover have "\<not> lo \<le> byte d" if "accept_range n = Some (sz, lo, hi)" for n sz lo hi
    using that t(2) by (auto simp: accept_range_def split: if_splits)
  ultimately show ?thesis
    using assms(1) unfolding t(1) by (cases s) (auto split: list.splits option.splits)
qed simp

lemma runes_append_ascii: "t = [] \<or> byte (hd t) < 128 \<Longrightarrow> runes (s @ t) = runes s @ runes t"
proof (induction s rule: runes.induct)
  case (1 s)
  show ?case
  proof (cases "s = []")
    case False
    have d: "decode_rune (s @ t) = decode_rune s" by (rule decode_rune_append_ascii [OF False "1.prems"])
    have "snd (decode_rune s) \<le> length s" by (rule decode_rune_size)
    then show ?thesis
      using "1.IH" [OF False "1.prems"] False runes_step [of s] runes_step [of "s @ t"] by (simp add: d)
  qed simp
qed

section \<open>Trimming\<close>

definition visible :: "char \<Rightarrow> bool" where
  "visible c \<longleftrightarrow> byte c < 128 \<and> \<not> is_space (byte c)"

definition ascii_space :: "char \<Rightarrow> bool" where
  "ascii_space c \<longleftrightarrow> byte c < 128 \<and> is_space (byte c)"

lemma runes_ends:
  assumes "s \<noteq> []" "visible (hd s)" "visible (last s)"
  obtains xs where "runes s = xs @ [(byte (last s), [last s])]" "xs = [] \<or> hd xs = (byte (hd s), [hd s])"
proof -
  have l: "runes s = runes (butlast s) @ [(byte (last s), [last s])]"
    using runes_append_ascii [of "[last s]" "butlast s"] assms by (simp add: visible_def)
  moreover have "runes (butlast s) = [] \<or> hd (runes (butlast s)) = (byte (hd s), [hd s])"
    using assms(2) by (cases s) (auto simp: visible_def)
  ultimately show ?thesis using that by blast
qed

text \<open>Blanks after a text that begins and ends with a visible byte are what trimming removes.\<close>

lemma trim_space_ends:
  assumes "s \<noteq> []" "visible (hd s)" "visible (last s)" "list_all ascii_space q"
  shows "trim_space (s @ q) = s"
proof -
  obtain xs where xs: "runes s = xs @ [(byte (last s), [last s])]" "xs = [] \<or> hd xs = (byte (hd s), [hd s])"
    by (rule runes_ends [OF assms(1-3)])
  have "q = [] \<or> byte (hd q) < 128" using assms(4) by (cases q) (auto simp: ascii_space_def)
  then have e: "runes (s @ q) = runes s @ runes q" by (rule runes_append_ascii)
  have sp: "\<forall>rb \<in> set (rev (runes q)). space_rune rb"
    using assms(4) by (subst runes_of_ascii) (auto simp: ascii_def list_all_iff ascii_space_def space_rune_def)
  have front: "dropWhile space_rune (runes (s @ q)) = runes (s @ q)"
    unfolding e xs(1) using xs(2) assms(2,3) by (cases xs) (auto simp: space_rune_def visible_def)
  have "dropWhile space_rune (rev (runes (s @ q))) = rev (runes s)"
    unfolding e rev_append using dropWhile_append2 [of "rev (runes q)" space_rune "rev (runes s)"] sp assms(3)
    by (simp add: xs(1) space_rune_def visible_def)
  then show ?thesis unfolding trim_space_def front by simp
qed

lemma trim_space_visible: "\<forall>rb \<in> set (runes s). \<not> space_rune rb \<Longrightarrow> trim_space s = s"
proof -
  assume visible: "\<forall>rb \<in> set (runes s). \<not> space_rune rb"
  have "dropWhile space_rune rs = rs" if "\<forall>rb \<in> set rs. \<not> space_rune rb" for rs
    using that by (cases rs) auto
  from this [of "rev (runes s)"] this [of "runes s"] visible show ?thesis by (simp add: trim_space_def)
qed

section \<open>Trim with a cutset\<close>

lemma trim_set_parts: "\<exists>p q. s = p @ trim_set cs s @ q \<and> set p \<subseteq> set cs \<and> set q \<subseteq> set cs"
proof -
  let ?P = "\<lambda>c. c \<in> set cs"
  let ?l = "dropWhile ?P s"
  have "?l = trim_set cs s @ rev (takeWhile ?P (rev ?l))"
    unfolding trim_set_def by (metis rev_append rev_rev_ident takeWhile_dropWhile_id)
  then have "s = takeWhile ?P s @ trim_set cs s @ rev (takeWhile ?P (rev ?l))"
    by (metis takeWhile_dropWhile_id)
  moreover have "set (takeWhile ?P s) \<subseteq> set cs" "set (rev (takeWhile ?P (rev ?l))) \<subseteq> set cs"
    by (auto dest: set_takeWhileD)
  ultimately show ?thesis by blast
qed

lemma trim_set_ends:
  assumes "trim_set cs s \<noteq> []"
  shows "hd (trim_set cs s) \<notin> set cs" "last (trim_set cs s) \<notin> set cs"
proof -
  let ?P = "\<lambda>c. c \<in> set cs"
  let ?l = "dropWhile ?P s" and ?r = "dropWhile ?P (rev (dropWhile ?P s))"
  have "?r \<noteq> []" using assms by (simp add: trim_set_def)
  then show "last (trim_set cs s) \<notin> set cs" using hd_dropWhile [of ?P "rev ?l"] by (simp add: trim_set_def last_rev)
  have "rev ?l = takeWhile ?P (rev ?l) @ ?r" by simp
  then have "?l = rev ?r @ rev (takeWhile ?P (rev ?l))" by (metis rev_append rev_rev_ident)
  then have "hd (rev ?r) = hd ?l" using \<open>?r \<noteq> []\<close> by (metis hd_append2 rev_is_Nil_conv)
  moreover have "?l \<noteq> []" using \<open>?r \<noteq> []\<close> by (metis dropWhile.simps(1) rev.simps(1))
  ultimately show "hd (trim_set cs s) \<notin> set cs" using hd_dropWhile [of ?P s] by (simp add: trim_set_def)
qed

lemma trim_set_same: "s = [] \<or> (hd s \<notin> set cs \<and> last s \<notin> set cs) \<Longrightarrow> trim_set cs s = s"
proof -
  assume s: "s = [] \<or> (hd s \<notin> set cs \<and> last s \<notin> set cs)"
  have d: "dropWhile (\<lambda>c. c \<in> set cs) s = s" using s by (cases s) auto
  have "dropWhile (\<lambda>c. c \<in> set cs) (rev s) = rev s" using s by (cases "rev s") (auto simp: hd_rev [symmetric])
  then show ?thesis by (simp add: trim_set_def d)
qed

section \<open>Lines that are no directive\<close>

lemma fields_go_set: "f \<in> set (fields_go acc rs) \<Longrightarrow> set f \<subseteq> set acc \<union> set (concat (map snd rs))"
proof (induction acc rs rule: fields_go.induct)
  case (2 acc r b rs)
  then show ?case by (fastforce split: if_splits)
qed (simp split: if_splits)

lemma fields_set: "f \<in> set (Go_Strings.fields s) \<Longrightarrow> set f \<subseteq> set s"
  using fields_go_set [of f "[]" "runes s"] by (simp add: Go_Strings.fields_def)

text \<open>A line without a plus sign is neither a directive line nor a misspelt one nor a block marker.\<close>

lemma no_plus:
  assumes "CHR ''+'' \<notin> set line"
  shows "directive_names line = None" "\<not> looks_like_directive line" "trim_space line \<noteq> statement_begin_line"
proof -
  have f: "CHR ''+'' \<notin> set f" if "f \<in> set (Go_Strings.fields (trim_space line))" for f
    using fields_set [OF that] trim_space_set [of line] assms by blast
  then show "directive_names line = None"
    using f [of migrate_token] by (auto simp: directive_names_def migrate_token_def split: list.splits)
  have "\<not> prefix (comment_token @ migrate_token_prefix) f \<and> \<not> prefix migrate_token_prefix f"
    if "f \<in> set (Go_Strings.fields (trim_space line))" for f
    using f [OF that] by (auto simp: prefix_def migrate_token_prefix_def comment_token_def)
  then show "\<not> looks_like_directive line"
    by (cases "Go_Strings.fields (trim_space line)"; cases "tl (Go_Strings.fields (trim_space line))")
      (auto simp: looks_like_directive_def)
  show "trim_space line \<noteq> statement_begin_line"
    using trim_space_set [of line] assms by (auto simp: directive_tokens)
qed

end
