(* ===== verification/No_Sql.thy ===== *)
theory No_Sql
  imports Ascii_Text
begin

text \<open>
  What it means for a text to have no SQL in it, said without the splitter: nothing but blanks and semicolons, or lines
  that are each blank or a line comment. The splitter's own test agrees with it on every text, but for the lines that its
  line reader cannot hold; both are what the properties of the splitter are stated with.
\<close>

section \<open>Texts without SQL\<close>

text \<open>After white space the line ends, or two dashes follow.\<close>

fun blank_or_dashes :: "(nat \<times> string) list \<Rightarrow> bool" where
  "blank_or_dashes [] = True"
| "blank_or_dashes ((r, b) # rs) =
     (if is_space r then blank_or_dashes rs else r = 45 \<and> rs \<noteq> [] \<and> fst (hd rs) = 45)"

definition line_without_sql :: "string \<Rightarrow> bool" where
  "line_without_sql l \<longleftrightarrow> blank_or_dashes (runes l)"

definition nothing_to_execute :: "string \<Rightarrow> bool" where
  "nothing_to_execute t \<longleftrightarrow>
     set t \<subseteq> {CHR '';'', CHR '' '', CHR 0x09, CHR 0x0D, NL} \<or> list_all line_without_sql (split_on NL t)"

text \<open>
  The first line that has SQL in it, or is too long to be read, is too long to be read: 65,536 bytes or more.
\<close>

definition starts_too_long :: "string \<Rightarrow> bool" where
  "starts_too_long t \<longleftrightarrow>
     (case dropWhile (\<lambda>l. line_without_sql l \<and> length l < 65536) (split_on NL t) of
        [] \<Rightarrow> False | l # _ \<Rightarrow> 65536 \<le> length l)"

section \<open>The splitter's test\<close>

lemma prefix_dashes: "prefix ''--'' s \<longleftrightarrow> (\<exists>x y rs. runes s = x # y # rs \<and> fst x = 45 \<and> fst y = 45)"
proof
  assume "prefix ''--'' s"
  then show "\<exists>x y rs. runes s = x # y # rs \<and> fst x = 45 \<and> fst y = 45" by (auto simp: prefix_def)
next
  assume "\<exists>x y rs. runes s = x # y # rs \<and> fst x = 45 \<and> fst y = 45"
  then obtain b c rs where r: "runes s = (45, b) # (45, c) # rs" by force
  then have "b = ''-''" "c = ''-''"
    using runes_low [of 45 b s] runes_low [of 45 c s] by (auto simp: char_of_def bit_0)
  then have "s = ''--'' @ concat (map snd rs)" using concat_runes [of s] unfolding r by simp
  then show "prefix ''--'' s" by (metis prefixI)
qed

lemma blank_or_dashes_skip:
  "blank_or_dashes rs \<longleftrightarrow> (case dropWhile space_rune rs of
     [] \<Rightarrow> True | x # ys \<Rightarrow> fst x = 45 \<and> ys \<noteq> [] \<and> fst (hd ys) = 45)"
  by (induction rs rule: blank_or_dashes.induct) (auto simp: space_rune_def)

lemma blank_or_dashes_trim:
  assumes "ts = rev (dropWhile space_rune (rev (dropWhile space_rune rs)))"
  shows "blank_or_dashes rs \<longleftrightarrow> ts = [] \<or> (\<exists>x y zs. ts = x # y # zs \<and> fst x = 45 \<and> fst y = 45)"
proof (cases "dropWhile space_rune rs")
  case Nil
  then show ?thesis unfolding assms blank_or_dashes_skip Nil by simp
next
  case (Cons x ys)
  then have x: "\<not> space_rune x" using hd_dropWhile [of space_rune rs] by simp
  obtain ys' where ts: "ts = x # ys'" "ys' = rev (dropWhile space_rune (rev ys))"
    using assms x dropWhile_append3 [of space_rune x "rev ys" "[]"] by (simp add: Cons dropWhile_append)
  define sp where "sp = rev (takeWhile space_rune (rev ys))"
  have ys: "ys = ys' @ sp"
    unfolding ts(2) sp_def by (metis rev_append rev_rev_ident takeWhile_dropWhile_id)
  have "\<forall>y \<in> set sp. fst y \<noteq> 45"
    by (auto simp: sp_def space_rune_def is_space_def dest: set_takeWhileD)
  then have "ys \<noteq> [] \<and> fst (hd ys) = 45 \<longleftrightarrow> (\<exists>y zs. ys' = y # zs \<and> fst y = 45)"
    unfolding ys by (cases ys'; cases sp) auto
  then show ?thesis unfolding blank_or_dashes_skip Cons ts(1) by auto
qed

lemma blank_or_dashes_cr: "blank_or_dashes (rs @ [(13, b)]) = blank_or_dashes rs"
  by (induction rs rule: blank_or_dashes.induct) (auto simp: is_space_def hd_append)

lemma line_without_sql_drop_cr: "line_without_sql (drop_cr l) = line_without_sql l"
proof (cases "l \<noteq> [] \<and> last l = CHR 0x0D")
  case True
  then have "runes l = runes (butlast l) @ [(13, [CHR 0x0D])]"
    using runes_append_ascii [of "[CHR 0x0D]" "butlast l"] append_butlast_last_id [of l] by simp
  with True show ?thesis by (simp add: line_without_sql_def drop_cr_def blank_or_dashes_cr)
qed (auto simp: drop_cr_def)

text \<open>The code's test of one line, and of all of them.\<close>

lemma comment_line:
  "trim_space (drop_cr l) = [] \<or> prefix ''--'' (trim_space (drop_cr l)) \<longleftrightarrow> line_without_sql l"
proof -
  have "line_without_sql l \<longleftrightarrow> blank_or_dashes (runes (drop_cr l))"
    using line_without_sql_drop_cr [of l] by (simp add: line_without_sql_def)
  also have "\<dots> \<longleftrightarrow> runes (trim_space (drop_cr l)) = [] \<or>
      (\<exists>x y zs. runes (trim_space (drop_cr l)) = x # y # zs \<and> fst x = 45 \<and> fst y = 45)"
    by (rule blank_or_dashes_trim [OF trim_space_runes])
  finally show ?thesis unfolding prefix_dashes by simp
qed

lemma only_comment_lines_iff:
  "only_comment_lines ls \<longleftrightarrow> list_all line_without_sql ls
     \<or> (case dropWhile (\<lambda>l. line_without_sql l \<and> length l < 65536) ls of [] \<Rightarrow> False | l # _ \<Rightarrow> 65536 \<le> length l)"
proof (induction ls)
  case (Cons l ls)
  then show ?case
    using comment_line [of l] by (auto simp: max_scan_token_size_def Let_def not_le)
qed simp

lemma trim_set_eq_Nil: "trim_set cs s = [] \<longleftrightarrow> set s \<subseteq> set cs"
proof
  assume "trim_set cs s = []"
  then show "set s \<subseteq> set cs" using trim_set_parts [of s cs] by auto
next
  assume "set s \<subseteq> set cs"
  then have none: "dropWhile (\<lambda>c. c \<in> set cs) s = []" unfolding dropWhile_eq_Nil_conv by blast
  show "trim_set cs s = []" unfolding trim_set_def none by simp
qed

lemma is_empty_statement_iff: "is_empty_statement t \<longleftrightarrow> nothing_to_execute t \<or> starts_too_long t"
  by (simp add: is_empty_statement_def trim_set_eq_Nil is_only_comments_def only_comment_lines_iff
      nothing_to_execute_def starts_too_long_def)

lemma statements_of_iff:
  "statements_of cs = filter (\<lambda>t. \<not> (nothing_to_execute t \<or> starts_too_long t)) (map trim_space cs)"
  by (simp add: statements_of_def is_empty_statement_iff)

end
