(* ===== verification/Script_Props.thy ===== *)
theory Script_Props
  imports Demo No_Sql
begin

text \<open>
  The properties of the parts that work on text alone: the directive header, the statement splitter, the
  table reference, the planner and the file source. Each follows from the lemmas of its component.
\<close>

section \<open>The statement splitter\<close>

text \<open>
  C25: nothing of a script is lost or reordered. The statements are pieces of the script, each trimmed; the pieces, put
  together, are the script's lines in order and complete, but for lines that are a block marker. A piece is left out
  only when it has no SQL in it - nothing but blanks and semicolons, or lines that are each blank or a line comment -,
  or when the first of its lines that is not blank and no comment, or that is too long for the line reader, has 65,536
  bytes or more.
\<close>

theorem split_loses_nothing:
  assumes "split_sql_statements U script = Inr stmts"
  shows "\<exists>chunks. kept (split_on NL script) (concat chunks)
    \<and> stmts = filter (\<lambda>t. \<not> (nothing_to_execute t \<or> starts_too_long t)) (map trim_space chunks)"
  using assms by (rule split_sql_statements_chunks) (auto simp: statements_of_iff)

theorem split_loses_nothing_witness:
  "split_sql_statements demo_unicode ''A;B'' = Inr [''A;'', ''B'']
   \<and> (\<exists>chunks. kept [''A;B''] (concat chunks)
       \<and> filter (\<lambda>t. \<not> (nothing_to_execute t \<or> starts_too_long t)) (map trim_space chunks) = [''A;'', ''B''])"
proof -
  have split: "split_sql_statements demo_unicode ''A;B'' = Inr [''A;'', ''B'']"
    by (simp add: go_eval demo_unicode_def string_eval)
  have "split_on NL ''A;B'' = [''A;B'']" by simp
  with split split_loses_nothing [OF split] show ?thesis by metis
qed

text \<open>The notion of a text without SQL on a few texts.\<close>

lemma nothing_to_execute_examples:
  "nothing_to_execute ''; ;''" "nothing_to_execute (''-- note'' @ NL # ''  -- more'')"
  "\<not> nothing_to_execute (''-- note'' @ NL # ''DROP TABLE t'')" "\<not> nothing_to_execute ''/* a */''" "\<not> nothing_to_execute ''A -- note''"
  by (simp_all add: nothing_to_execute_def line_without_sql_def go_eval char_of_def bit_0 Let_def)

text \<open>
  on a script without quotes, dollar signs, dashes and slashes, the scanner agrees with the naive splitter
  that cuts after every semicolon.
\<close>

theorem split_plain_is_naive:
  assumes "list_all plain_char script"
  shows "split_sql_statements U script =
    Inr (filter (\<lambda>t. \<not> is_empty_statement t) (map trim_space (semicolon_chunks script)))"
  using split_plain [OF assms] by (simp add: statements_of_def)

theorem split_plain_is_naive_witness:
  "split_sql_statements demo_unicode ''A; ;B'' = Inr [''A;'', ''B'']"
proof -
  have "list_all plain_char ''A; ;B''" by (simp add: plain_char_def)
  from split_plain_is_naive [OF this, of demo_unicode] show ?thesis
    by (simp add: semicolon_chunks_def go_eval string_eval)
qed

text \<open>
  C26: a dollar-quoted body is never cut. A statement that opens a dollar quote on its first line and closes it
  on its last comes out whole, whatever semicolons, quotes and comment signs the lines between them hold.
\<close>

theorem dollar_body_is_one_statement:
  assumes "match_dollar_tag U (CHR ''$'' # t) 0 = Some (CHR ''$'' # t)" "CHR ''-'' \<notin> set t"
    and "list_all skippable h" "list_all skippable p" "NL \<notin> set (h @ t @ p)"
    and "list_all (\<lambda>l. \<not> sublist (CHR ''$'' # t) l \<and> NL \<notin> set l) body"
    and "script = join [NL] ((h @ CHR ''$'' # t) # body @ [CHR ''$'' # t @ p @ '';''])"
    and "\<not> is_empty_statement (trim_space script)"
  shows "split_sql_statements U script = Inr [trim_space script]"
  using split_dollar_body [OF assms(1-4) assms(6,5,7,8)] .

theorem dollar_body_is_one_statement_witness:
  "split_sql_statements demo_unicode (''DO $$'' @ NL # ''x; -- y'' @ NL # ''$$;'')
     = Inr [''DO $$'' @ NL # ''x; -- y'' @ NL # ''$$;'']"
proof -
  have "split_sql_statements demo_unicode (join [NL] ((''DO '' @ CHR ''$'' # ''$'') # [''x; -- y''] @ [CHR ''$'' # ''$'' @ [] @ '';'']))
    = Inr [trim_space (join [NL] ((''DO '' @ CHR ''$'' # ''$'') # [''x; -- y''] @ [CHR ''$'' # ''$'' @ [] @ '';'']))]"
    by (rule dollar_body_is_one_statement [OF _ _ _ _ _ _ refl])
      (simp_all add: go_eval demo_unicode_def string_eval skippable_def plain_char_def sublist_code(3))
  then show ?thesis by (simp add: go_eval string_eval)
qed

text \<open>
  every statement that comes out is ready to be sent: it is trimmed, not empty and not only semicolons,
  blanks and line comments.
\<close>

theorem split_statements_executable:
  assumes "split_sql_statements U script = Inr stmts" "s \<in> set stmts"
  shows "trim_space s = s \<and> s \<noteq> [] \<and> \<not> is_empty_statement s"
  using split_statements_proper [OF assms] by blast

theorem split_statements_executable_witness: "trim_space ''A;'' = ''A;'' \<and> \<not> is_empty_statement ''A;''"
proof -
  have "split_sql_statements demo_unicode '' A; '' = Inr [''A;'']"
    by (simp add: go_eval demo_unicode_def string_eval)
  from split_statements_executable [OF this, of "''A;''"] show ?thesis by simp
qed

text \<open>
  C27: the splitter answers every script that has no line opening a block: quotes and comments left open never
  make it fail.
\<close>

theorem split_answers_without_blocks:
  assumes "list_all (\<lambda>l. trim_space l \<noteq> statement_begin_line) (split_on NL script)"
  shows "\<exists>stmts. split_sql_statements U script = Inr stmts"
  using split_total_without_begin [OF assms] by blast

theorem split_answers_without_blocks_witness: "\<exists>stmts. split_sql_statements demo_unicode [SQ, CHR ''A''] = Inr stmts"
  by (rule split_answers_without_blocks) (simp add: go_eval string_eval)

text \<open>
  C28: the bound of the comment check. A script of one line that holds one statement of words and single-quoted
  literals, with its semicolon or without, gives no statement at all when it has, once trimmed, 65,536 bytes or more: the
  line reader stops at it and the check takes that for the end of the text. The words are free of quotes, dollar signs,
  dashes and slashes, a literal may hold anything but a quote, and no literal is an escape string.
\<close>

theorem long_line_is_dropped:
  assumes "list_all literal_ok hqs" "list_all skippable p" "e \<in> {[], '';''}" "line = literal_line hqs @ p @ e"
    and "NL \<notin> set line" "65536 \<le> length (trim_space line)"
  shows "split_sql_statements U line = Inr []"
  using split_long_line_dropped [OF assms(1-5)] assms(6) by (simp add: max_scan_token_size_def)

theorem long_line_is_dropped_witness:
  "split_sql_statements demo_unicode (''INSERT INTO t VALUES ('' @ SQ # replicate 65536 (CHR ''A'') @ SQ # '');'') = Inr []"
proof (rule long_line_is_dropped)
  let ?line = "''INSERT INTO t VALUES ('' @ SQ # replicate 65536 (CHR ''A'') @ SQ # '');''"
  have "trim_space (?line @ []) = ?line"
    by (rule trim_space_ends) (simp_all add: visible_def is_space_def)
  then show "65536 \<le> length (trim_space ?line)" by simp
  show "?line = literal_line [(''INSERT INTO t VALUES ('', replicate 65536 (CHR ''A''))] @ '')'' @ '';''"
    by (simp add: literal_line_def)
qed (simp_all add: literal_ok_def skippable_def plain_char_def)

section \<open>Directive headers\<close>

text \<open>
  a header line names directives that are known, and it is the first line or it is nowhere: parsing
  succeeds exactly when the first line is a directive line naming known directives, and the body is what
  follows it, or the first line is no directive line and does not look like a misspelt one, and the body is
  the script; and no line of the body is a directive line.
\<close>

theorem header_characterised:
  "parse_directive_header script = Inr (m, body) \<longleftrightarrow>
     no_directive_line body \<and>
     ((\<exists>names. header_line (cut_before NL script) names \<and> body = cut_after NL script
         \<and> m = (\<lambda>d. if d \<in> set names then Some True else None))
      \<or> (plain_line (cut_before NL script) \<and> body = script \<and> m = Map.empty))"
  by (rule parse_directive_header_Inr)

text \<open>
  C24: writing a header and parsing it again gives the directive and the body back, for every known directive and
  every body without a directive line.
\<close>

theorem parse_header_roundtrip:
  assumes "known_directives d" and "no_directive_line body"
  shows "parse_directive_header (directive_header_for d @ NL # body) = Inr ([d \<mapsto> True], body)"
proof -
  have "header_line (directive_header_for d) [d]" and "NL \<notin> set (directive_header_for d)"
    using assms(1) header_for_tokens header_for_no_NL by (auto simp: known_directives_def)
  then show ?thesis
    using assms(2) by (auto simp: parse_directive_header_Inr intro!: exI [of _ "[d]"])
qed

theorem parse_header_roundtrip_witness:
  "parse_directive_header (directive_header_for directive_no_transaction @ NL # ''SELECT 1;'')
     = Inr ([directive_no_transaction \<mapsto> True], ''SELECT 1;'')"
  by (rule parse_header_roundtrip) (simp_all add: go_eval)

section \<open>The table reference\<close>

text \<open>
  C29: whatever bytes the caller puts into the names, the reference is read back as exactly those names and
  the rest of the statement is untouched: a name cannot break out of its quotes.
\<close>

theorem reference_reads_back:
  assumes "resolve c = Inr ref" "r = [] \<or> hd r \<notin> {DQ, CHR ''.''}"
  shows "read_reference (ref @ r) =
    Some ((if tc_schema c = [] then [] else [tc_schema c]) @
          [if tc_name c = [] then default_table_name else tc_name c], r)"
  by (rule read_resolve [OF assms])

theorem reference_reads_back_witness:
  "\<exists>ref. resolve \<lparr>tc_schema = ''a'', tc_name = ''x'' @ [DQ] @ ''; DROP''\<rparr> = Inr ref
     \<and> read_reference (ref @ '' WHERE'') = Some ([''a'', ''x'' @ [DQ] @ ''; DROP''], '' WHERE'')"
proof -
  obtain ref where ref: "resolve \<lparr>tc_schema = ''a'', tc_name = ''x'' @ [DQ] @ ''; DROP''\<rparr> = Inr ref"
    by (simp add: go_eval)
  from reference_reads_back [OF ref, of "'' WHERE''"] ref show ?thesis by simp
qed

text \<open>
  the bounds on names. A reference exists exactly when the table name, or the default for an empty one, and
  the schema, if there is one, have at most 63 bytes and no NUL.
\<close>

theorem reference_bounds:
  "is_ok (resolve c) \<longleftrightarrow> length (tc_name c) \<le> 63 \<and> length (tc_schema c) \<le> 63
     \<and> CHR 0x00 \<notin> set (tc_name c @ tc_schema c)"
  by (auto simp: resolve_def quote_identifier_def max_identifier_bytes_def default_table_name_def Let_def)

section \<open>The planner\<close>

text \<open>
  the plan, computed with maps and a running maximum, is a set difference: what the database has beyond
  the files, last applied first; what the files have beyond the database, in file order; and of the
  latter the ones that sort before a migration that stays applied.
\<close>

theorem plan_is_set_difference:
  "build_plan files db rollback_extras =
     \<lparr>to_rollback = filter (\<lambda>m. mig_id m \<notin> set (ids files)) (rev db),
      to_apply = filter (\<lambda>m. mig_id m \<notin> set (ids db)) files,
      plan_interleaved = filter (\<lambda>m. mig_id m \<notin> set (ids db)
        \<and> (\<exists>d \<in> set (kept_applied rollback_extras files db). mig_id m < d)) files\<rparr>"
  by (rule build_plan_eq)

section \<open>The file source\<close>

text \<open>
  the loader accepts a pair of scripts exactly when each, trimmed, has a good header and closed
  blocks, and has SQL or, in the down half only, says that it has none; and it stores the trimmed texts.
\<close>

theorem loader_accepts_exactly:
  "parse_migration_pair U i up_content down_content = Inr m \<longleftrightarrow>
     m = \<lparr>mig_applied_at = zero_time, mig_id = i,
          mig_up_script = trim_space up_content, mig_down_script = trim_space down_content\<rparr>
     \<and> accepted_script U False (trim_space up_content) \<and> accepted_script U True (trim_space down_content)"
  by (rule parse_migration_pair_Inr)

text \<open>
  C30: the migrations of a source are sorted by ID without duplicates, no ID is empty, no two differ in
  letter case only, and each was made from the two files its ID names, both accepted by the parser.
\<close>

theorem source_well_formed:
  assumes "get_migrations U F = Inr ms"
  shows "sorted (ids ms) \<and> distinct (ids ms) \<and> [] \<notin> set (ids ms) \<and> inj_on (to_lower U) (set (ids ms))
    \<and> (\<forall>m \<in> set ms. loaded_from F m \<and> accepted_script U False (mig_up_script m)
        \<and> accepted_script U True (mig_down_script m))"
  using get_migrations_well_formed [OF assms] by (auto simp: well_formed_source_def)

theorem source_well_formed_witness:
  "loaded_from demo_files demo_migration \<and> accepted_script demo_unicode True (mig_down_script demo_migration)"
  using source_well_formed [OF demo_source] by simp

text \<open>
  no script is skipped in silence. When a source loads, every file at its root whose name ends in
  \<open>.sql\<close>, in whatever letter case, is one half of a loaded migration.
\<close>

theorem source_complete:
  assumes "get_migrations U F = Inr ms" "fs_read_dir F ''.'' = Inr entries" "e \<in> set entries"
    "\<not> entry_is_dir e" "suffix ''.sql'' (to_lower U (entry_name e))"
  shows "\<exists>m \<in> set ms. entry_name e \<in> {mig_id m @ up_file_suffix, mig_id m @ down_file_suffix}"
  by (rule get_migrations_complete [OF assms])

theorem source_complete_witness:
  "\<exists>m \<in> set [demo_migration]. ''1.down.sql'' \<in> {mig_id m @ up_file_suffix, mig_id m @ down_file_suffix}"
proof -
  let ?e = "\<lparr>entry_name = ''1.down.sql'', entry_is_dir = False\<rparr>"
  have dir: "fs_read_dir demo_files ''.'' = Inr [\<lparr>entry_name = ''1.up.sql'', entry_is_dir = False\<rparr>, ?e]"
    by (simp add: demo_files_def)
  have sql: "suffix ''.sql'' (to_lower demo_unicode (entry_name ?e))"
    by (simp add: go_eval demo_unicode_def string_eval)
  from source_complete [OF demo_source dir _ _ sql] show ?thesis by simp
qed

text \<open>
  an empty source is never reported for a directory that is rooted one level too high: a directory below
  the root that can be read holds no up script then.
\<close>

theorem empty_source_has_no_nested_scripts:
  assumes "get_migrations U F = Inr []" "fs_read_dir F ''.'' = Inr entries" "e \<in> set entries" "entry_is_dir e"
    "fs_read_dir F (entry_name e) = Inr nested" "c \<in> set nested" "\<not> entry_is_dir c"
  shows "\<not> suffix up_file_suffix (entry_name c)"
  by (rule get_migrations_empty [OF assms])

theorem empty_source_has_no_nested_scripts_witness: "\<not> suffix up_file_suffix ''notes.txt''"
proof -
  let ?F = "\<lparr>fs_read_dir = (\<lambda>d. Inr (if d = ''.'' then [\<lparr>entry_name = ''doc'', entry_is_dir = True\<rparr>]
      else [\<lparr>entry_name = ''notes.txt'', entry_is_dir = False\<rparr>])), fs_read_file = (\<lambda>_. Inl ''no'')\<rparr>"
  have "get_migrations demo_unicode ?F = Inr []"
    by (simp add: go_eval demo_unicode_def string_eval)
  from empty_source_has_no_nested_scripts [OF this, where c = "\<lparr>entry_name = ''notes.txt'', entry_is_dir = False\<rparr>"]
  show ?thesis by simp
qed

text \<open>
  a script that the loader has accepted never fails to parse later: the executor finds its header, and can
  cut its body into statements, without an error.
\<close>

theorem loaded_scripts_parse:
  assumes "get_migrations U F = Inr ms" "m \<in> set ms" "script \<in> {mig_up_script m, mig_down_script m}"
  shows "\<exists>directives body stmts. parse_directive_header script = Inr (directives, body)
    \<and> split_sql_statements U body = Inr stmts"
proof -
  obtain b where "accepted_script U b script"
    using get_migrations_well_formed [OF assms(1)] assms(2,3) by (auto simp: well_formed_source_def)
  then show ?thesis by (auto simp: accepted_script_def is_ok_iff split: sum.splits)
qed

theorem loaded_scripts_parse_witness:
  "\<exists>directives body stmts. parse_directive_header ''A'' = Inr (directives, body)
    \<and> split_sql_statements demo_unicode body = Inr stmts"
  using loaded_scripts_parse [OF demo_source, of demo_migration "''A''"] by simp

end
