(* ===== verification/Service_Props.thy ===== *)
theory Service_Props
  imports Demo
begin

text \<open>
  The properties of the service as it is assembled by \<open>newService\<close>: the file source, \<open>CustomExecutor\<close> and
  \<open>Postgres\<close> over a database that keeps the laws of \<open>sql_database\<close>. The first part derives, from the
  contracts, facts on rows, scripts and results; the properties follow from them.
\<close>

section \<open>From outcomes to rows\<close>

text \<open>What a run of the tool starts from: the lock not held, no session stranded, scripts that are tidy.\<close>

definition ready :: "unicode \<Rightarrow> (string \<Rightarrow> bool) \<Rightarrow> fsys \<Rightarrow> db_view \<Rightarrow> lock_state \<Rightarrow> bool" where
  "ready U tidy F v l \<longleftrightarrow>
     held_conn l = None \<and> unstranded v \<and> tidy_rows U tidy v
     \<and> (\<forall>ms. get_migrations U F = Inr ms \<longrightarrow> tidy_migrations U tidy ms)"

abbreviation fs_service :: "unicode \<Rightarrow> fsys \<Rightarrow> 'w sql_db \<Rightarrow> table_ref \<Rightarrow> postgres \<Rightarrow> ('w, lock_state) service" where
  "fs_service U F D ref p \<equiv> new_service (get_migrations U F) U D ref p"

lemma ready_source: "ready U tidy F v l \<Longrightarrow> source_ok U tidy (get_migrations U F)"
  using get_migrations_well_formed by (auto simp: ready_def source_ok_def well_formed_source_def)

definition extras :: "migration list \<Rightarrow> row list \<Rightarrow> string list" where
  "extras files rs = filter (\<lambda>i. i \<notin> set (ids files)) (row_ids rs)"

definition pending :: "migration list \<Rightarrow> row list \<Rightarrow> migration list" where
  "pending files rs = filter (\<lambda>m. mig_id m \<notin> set (row_ids rs)) files"

lemma rows_of_Some: "v_rows v = Some rs \<Longrightarrow> rows_of v = rs"
  by (simp add: rows_of_def)

lemma rows_of_created [simp]: "rows_of (table_created v) = rows_of v"
  by (simp add: rows_of_def [of "table_created v"])

lemma reconcile_plan_extras: "ids (to_rollback (reconcile_plan files rs)) = rev (extras files rs)"
proof -
  have "ids (filter (\<lambda>m. P (mig_id m)) ms) = filter P (ids ms)" for P ms by (induction ms) auto
  then show ?thesis
    by (simp add: reconcile_plan_def extras_def rev_filter rev_map db_of_ids [symmetric] del: db_of_ids)
qed

lemma reconcile_plan_pending: "to_apply (reconcile_plan files rs) = pending files rs"
  by (simp add: reconcile_plan_def pending_def)

lemma plan_done_rows:
  assumes "plan_done U plan (table_created v) v'" "distinct (row_ids (rows_of v))"
  obtains new where
    "v_rows v' = Some (filter (\<lambda>r. row_id r \<notin> set (ids (to_rollback plan))) (rows_of v) @ new)"
    "list_all2 stores (to_apply plan) new"
    "v_ran v' = v_ran v @ concat (map (\<lambda>i. script_steps U (stored_down (rows_of v) i)) (ids (to_rollback plan)))
       @ concat (map (\<lambda>m. script_steps U (mig_up_script m)) (to_apply plan))"
proof -
  obtain vr where vr: "rolled_back U (ids (to_rollback plan)) (table_created v) vr" "applied U (to_apply plan) vr v'"
    using assms(1) unfolding plan_done_def by blast
  from rolled_back_rows [OF vr(1) rows_created assms(2)]
  have rb: "v_rows vr = Some (filter (\<lambda>r. row_id r \<notin> set (ids (to_rollback plan))) (rows_of v))"
    "v_ran vr = v_ran v @ concat (map (\<lambda>i. script_steps U (stored_down (rows_of v) i)) (ids (to_rollback plan)))"
    by simp_all
  from applied_rows [OF vr(2) rb(1)] rb(2) that show thesis by auto
qed

lemma stores_healthy: "list_all2 stores ms rs \<Longrightarrow> healthy rs"
  by (induction rule: list_all2_induct) (auto simp: healthy_def stores_def)

lemma last_rows_eq: "last_rows count rs = drop (length rs - (if count \<le> 0 then length rs else nat count)) rs"
  by (auto simp: last_rows_def)

lemma keyed_rows: "sql_database D ref view tx_view tx_session tidy \<Longrightarrow> distinct (row_ids (rows_of (view w)))"
  using sql_database.primary_key [of D ref view tx_view tx_session tidy w]
  by (cases "v_rows (view w)") (auto simp: rows_of_def)

lemma reconcile_outcome:
  assumes "sql_database D ref view tx_view tx_session tidy" "ready U tidy F (view w) l"
    "reconcile (fs_service U F D ref p) c opts (w, l) = ((w', l'), r, err)"
  shows "held_conn l' = None \<and> same_sessions (view w) (view w')
    \<and> (case err of None \<Rightarrow> reconcile_done U (get_migrations U F) opts (view w) (view w') r
                 | Some e \<Rightarrow> reconcile_failed U (get_migrations U F) opts (view w) (view w') r e)"
  by (rule sql_database.serve_reconcile [OF assms(1) _ _ _ _ assms(3)])
    (use assms(2) ready_source [OF assms(2)] in \<open>simp_all add: ready_def\<close>)

lemma up_outcome:
  assumes "sql_database D ref view tx_view tx_session tidy" "ready U tidy F (view w) l"
    "up (fs_service U F D ref p) c (w, l) = ((w', l'), r, err)"
  shows "held_conn l' = None \<and> same_sessions (view w) (view w')
    \<and> (case err of None \<Rightarrow> up_done U (get_migrations U F) (view w) (view w') r
                 | Some e \<Rightarrow> up_failed U (get_migrations U F) (view w) (view w') r e)"
  by (rule sql_database.serve_up [OF assms(1) _ _ _ assms(3)])
    (use assms(2) ready_source [OF assms(2)] in \<open>simp_all add: ready_def\<close>)

lemma rollback_outcome:
  assumes "sql_database D ref view tx_view tx_session tidy" "ready U tidy F (view w) l"
    "rollback (fs_service U F D ref p) c count (w, l) = ((w', l'), r, err)"
  shows "held_conn l' = None \<and> same_sessions (view w) (view w')
    \<and> (case err of None \<Rightarrow> rollback_done U count (view w) (view w') r
                 | Some e \<Rightarrow> run_failed U (rollback_plan count (rows_of (view w))) (view w) (view w') r e)"
  by (rule sql_database.serve_rollback [OF assms(1) _ _ _ assms(3)])
    (use assms(2) ready_source [OF assms(2)] in \<open>simp_all add: ready_def\<close>)

lemma reconcile_rows:
  assumes "sql_database D ref view tx_view tx_session tidy" "reconcile_done U src opts (view w) v' r"
  obtains files new where "src = Inr files" "healthy (rows_of (view w))"
    "blocked_by (reconcile_plan files (rows_of (view w))) files opts = None"
    "v_rows v' = Some (filter (\<lambda>r. row_id r \<in> set (ids files)) (rows_of (view w)) @ new)"
    "list_all2 stores (pending files (rows_of (view w))) new"
    "v_ran v' = v_ran (view w)
       @ concat (map (\<lambda>i. script_steps U (stored_down (rows_of (view w)) i)) (rev (extras files (rows_of (view w)))))
       @ concat (map (\<lambda>m. script_steps U (mig_up_script m)) (pending files (rows_of (view w))))"
    "res_applied r = pending files (rows_of (view w))" "ids (res_rolled_back r) = rev (extras files (rows_of (view w)))"
proof -
  obtain files where f: "src = Inr files" "healthy (rows_of (view w))"
    "blocked_by (reconcile_plan files (rows_of (view w))) files opts = None"
    "plan_done U (reconcile_plan files (rows_of (view w))) (table_created (view w)) v'"
    "r = \<lparr>res_applied = to_apply (reconcile_plan files (rows_of (view w))),
           res_rolled_back = to_rollback (reconcile_plan files (rows_of (view w))), res_extras_left = [],
           res_interleaved = plan_interleaved (reconcile_plan files (rows_of (view w)))\<rparr>"
    using assms(2) unfolding reconcile_done_def by blast
  have keep: "filter (\<lambda>r. row_id r \<notin> set (rev (extras files rs))) rs = filter (\<lambda>r. row_id r \<in> set (ids files)) rs" for rs
    by (rule filter_cong) (auto simp: extras_def)
  show thesis
    by (rule plan_done_rows [OF f(4) keyed_rows [OF assms(1)]], rule that [OF f(1-3)])
      (simp_all only: reconcile_plan_extras keep reconcile_plan_pending f(5) migrate_result.simps)
qed

lemma synchronized_ids:
  assumes "list_all2 stores (pending files rs) new"
  shows "set (row_ids (filter (\<lambda>r. row_id r \<in> set (ids files)) rs @ new)) = set (ids files)"
proof -
  have "set (row_ids new) = set (ids files) - set (row_ids rs)"
    using stores_ids [OF assms] by (auto simp: pending_def)
  moreover have "set (row_ids (filter (\<lambda>r. row_id r \<in> S) rs)) = set (row_ids rs) \<inter> S" for S by auto
  ultimately show ?thesis by auto
qed

lemma step_failed_prefix:
  "step_failed U plan rb ap e v v' \<Longrightarrow> prefix rb (to_rollback plan) \<and> prefix ap (to_apply plan)"
  unfolding step_failed_def by auto

lemma run_failed_cases:
  assumes "run_failed U plan v v' r e"
  obtains (unchanged) "rows_of v' = rows_of v" "v_ran v' = v_ran v" "res_applied r = []" "res_rolled_back r = []"
  | (partly) cause vr va where "healthy (rows_of v)" "reversible_rows (ids (to_rollback plan)) (table_created v)"
    "rolled_back U (ids (res_rolled_back r)) (table_created v) vr" "applied U (res_applied r) vr va"
    "step_failed U plan (res_rolled_back r) (res_applied r) cause va v'"
  using assms unfolding run_failed_def unchanged_def plan_failed_def by (auto simp: rows_of_created)

lemma demo_ready:
  "ready demo_unicode (ref_tidy ''m'') demo_files (ref_view (demo_world (Some [demo_row ''0'' e]) fs b)) demo_lock"
  "ready demo_unicode (ref_tidy ''m'') demo_files (ref_view (demo_world None fs b)) demo_lock"
  using demo_tidy
  by (simp_all add: ready_def demo_view demo_source tidy_rows_def tidy_migrations_def
      unstranded_def held_conn_def demo_lock_def)

lemma demo_rows:
  "rows_of (ref_view (demo_world (Some [demo_row ''0'' e]) fs b)) = [demo_row ''0'' e]"
  "rows_of (ref_view (demo_world None fs b)) = []"
  "v_ran (ref_view (demo_world (Some [demo_row ''0'' e]) fs b)) = []"
  by (simp_all add: rows_of_def demo_view)

section \<open>Reconcile\<close>

text \<open>
  C1: a Reconcile that returns no error leaves the database in step with the files. The IDs in the
  bookkeeping table are exactly the IDs in the source, every row is without an error, the rows that were
  there and are still wanted are untouched and keep their order, and one row per pending migration
  follows them in file order and stores the migration's two scripts.
\<close>

theorem reconcile_synchronizes:
  assumes "sql_database D ref view tx_view tx_session tidy" "ready U tidy F (view w) l"
    "reconcile (fs_service U F D ref p) c opts (w, l) = ((w', l'), r, None)"
  shows "\<exists>files kept new. get_migrations U F = Inr files \<and> v_rows (view w') = Some (kept @ new)
    \<and> set (row_ids (kept @ new)) = set (ids files) \<and> healthy (kept @ new)
    \<and> kept = filter (\<lambda>r. row_id r \<in> set (ids files)) (rows_of (view w))
    \<and> list_all2 stores (filter (\<lambda>m. mig_id m \<notin> set (row_ids (rows_of (view w)))) files) new"
proof -
  have "reconcile_done U (get_migrations U F) opts (view w) (view w') r"
    using reconcile_outcome [OF assms] by simp
  then obtain files new where f: "get_migrations U F = Inr files" "healthy (rows_of (view w))"
    "v_rows (view w') = Some (filter (\<lambda>r. row_id r \<in> set (ids files)) (rows_of (view w)) @ new)"
    "list_all2 stores (pending files (rows_of (view w))) new"
    by (rule reconcile_rows [OF assms(1)])
  have "set (row_ids (filter (\<lambda>r. row_id r \<in> set (ids files)) (rows_of (view w)) @ new)) = set (ids files)"
    by (rule synchronized_ids [OF f(4)])
  moreover have "healthy (filter (\<lambda>r. row_id r \<in> set (ids files)) (rows_of (view w)) @ new)"
    using f(2) stores_healthy [OF f(4)] by (auto simp: healthy_def)
  ultimately show ?thesis using f(1,3,4) unfolding pending_def by blast
qed

theorem reconcile_synchronizes_witness:
  "\<exists>w' l' r kept new.
     reconcile (demo_service False) Caller demo_options (demo_world (Some [demo_row ''0'' None]) [] False, demo_lock)
       = ((w', l'), r, None)
     \<and> v_rows (ref_view w') = Some (kept @ new) \<and> set (row_ids (kept @ new)) = {''1''} \<and> healthy (kept @ new)"
proof -
  obtain w' r where run: "reconcile (demo_service False) Caller demo_options
      (demo_world (Some [demo_row ''0'' None]) [] False, demo_lock) = ((w', demo_lock), r, None)"
    using demo_reconcile by blast
  obtain files kept new where f: "get_migrations demo_unicode demo_files = Inr files"
    "v_rows (ref_view w') = Some (kept @ new)" "set (row_ids (kept @ new)) = set (ids files)" "healthy (kept @ new)"
    using reconcile_synchronizes [OF ref_db_laws demo_ready(1) run] by blast
  have "files = [demo_migration]" using f(1) by (simp add: demo_source)
  then have "set (row_ids (kept @ new)) = {''1''}" unfolding f(3) by simp
  with run f(2,4) show ?thesis by blast
qed

text \<open>
  C2: such a Reconcile runs the scripts it should, in the order it should: first the stored rollback
  scripts of the migrations that the files do not have, the one applied last first, then the up scripts
  of the pending migrations in file order, and reports exactly these.
\<close>

theorem reconcile_runs_in_order:
  assumes "sql_database D ref view tx_view tx_session tidy" "ready U tidy F (view w) l"
    "reconcile (fs_service U F D ref p) c opts (w, l) = ((w', l'), r, None)"
  shows "\<exists>files. get_migrations U F = Inr files
    \<and> ids (res_rolled_back r) = rev (filter (\<lambda>i. i \<notin> set (ids files)) (row_ids (rows_of (view w))))
    \<and> res_applied r = filter (\<lambda>m. mig_id m \<notin> set (row_ids (rows_of (view w)))) files
    \<and> v_ran (view w') = v_ran (view w)
       @ concat (map (\<lambda>i. script_steps U (stored_down (rows_of (view w)) i)) (ids (res_rolled_back r)))
       @ concat (map (\<lambda>m. script_steps U (mig_up_script m)) (res_applied r))"
proof -
  have "reconcile_done U (get_migrations U F) opts (view w) (view w') r"
    using reconcile_outcome [OF assms] by simp
  then show ?thesis
    by (rule reconcile_rows [OF assms(1)]) (auto simp: pending_def extras_def)
qed

theorem reconcile_runs_in_order_witness:
  "\<exists>w' l' r.
     reconcile (demo_service False) Caller demo_options (demo_world (Some [demo_row ''0'' None]) [] False, demo_lock)
       = ((w', l'), r, None)
     \<and> ids (res_rolled_back r) = [''0''] \<and> res_applied r = [demo_migration] \<and> v_ran (ref_view w') = [''B'', ''A'']"
proof -
  obtain w' r where run: "reconcile (demo_service False) Caller demo_options
      (demo_world (Some [demo_row ''0'' None]) [] False, demo_lock) = ((w', demo_lock), r, None)"
    using demo_reconcile by blast
  from reconcile_runs_in_order [OF ref_db_laws demo_ready(1) run] run show ?thesis
    by (simp add: demo_source demo_rows stored_down_def demo_steps del: map_map)
qed

text \<open>
  C3: a Reconcile that returns an error reports what completed and nothing else: it has changed nothing
  but, at most, created the empty table; or the ledger was healthy, the guards let the plan pass, and the
  reported prefixes of the plan completed, followed by no more than the failed effects of one step.
\<close>

theorem reconcile_reports_prefix:
  assumes "sql_database D ref view tx_view tx_session tidy" "ready U tidy F (view w) l"
    "reconcile (fs_service U F D ref p) c opts (w, l) = ((w', l'), r, Some e)"
  shows "rows_of (view w') = rows_of (view w) \<and> v_ran (view w') = v_ran (view w)
      \<and> res_applied r = [] \<and> res_rolled_back r = []
    \<or> healthy (rows_of (view w)) \<and> (\<exists>files. get_migrations U F = Inr files
        \<and> blocked_by (reconcile_plan files (rows_of (view w))) files opts = None
        \<and> prefix (ids (res_rolled_back r)) (rev (filter (\<lambda>i. i \<notin> set (ids files)) (row_ids (rows_of (view w)))))
        \<and> prefix (res_applied r) (filter (\<lambda>m. mig_id m \<notin> set (row_ids (rows_of (view w)))) files)
        \<and> (\<exists>cause vr va. rolled_back U (ids (res_rolled_back r)) (table_created (view w)) vr \<and> applied U (res_applied r) vr va
             \<and> step_failed U (reconcile_plan files (rows_of (view w))) (res_rolled_back r) (res_applied r) cause va (view w')))"
    (is "?unchanged \<or> _")
proof (cases ?unchanged)
  case False
  have "reconcile_failed U (get_migrations U F) opts (view w) (view w') r e"
    using reconcile_outcome [OF assms] by simp
  moreover have "\<not> unchanged (view w) (view w') r" using False by (auto simp: unchanged_def)
  ultimately obtain files where f: "get_migrations U F = Inr files"
    "blocked_by (reconcile_plan files (rows_of (view w))) files opts = None"
    "run_failed U (reconcile_plan files (rows_of (view w))) (view w) (view w') r e"
    unfolding reconcile_failed_def by blast
  from f(3) show ?thesis
  proof (cases rule: run_failed_cases)
    case unchanged
    with False show ?thesis by blast
  next
    case (partly cause vr va)
    have "prefix (ids (res_rolled_back r)) (rev (extras files (rows_of (view w))))"
      "prefix (res_applied r) (pending files (rows_of (view w)))"
      using step_failed_prefix [OF partly(5)] map_mono_prefix [of "res_rolled_back r" _ mig_id]
      unfolding reconcile_plan_extras [symmetric] reconcile_plan_pending [symmetric] by blast+
    with partly f(1,2) show ?thesis unfolding extras_def pending_def by blast
  qed
qed simp

theorem reconcile_reports_prefix_witness:
  "\<exists>w' l' r e. reconcile (demo_service True) Caller demo_options
       (demo_world (Some [demo_row ''0'' None]) (replicate 16 None @ [Some (Refused ''boom'')]) False, demo_lock)
       = ((w', l'), r, Some e)
     \<and> prefix (ids (res_rolled_back r)) [''0''] \<and> prefix (res_applied r) [demo_migration]
     \<and> blocked_by (reconcile_plan [demo_migration] [demo_row ''0'' None]) [demo_migration] demo_options = None"
proof -
  obtain w' r e where run: "reconcile (demo_service True) Caller demo_options
      (demo_world (Some [demo_row ''0'' None]) (replicate 16 None @ [Some (Refused ''boom'')]) False, demo_lock)
      = ((w', demo_lock), r, Some e)" and ran: "v_ran (ref_view w') = [''B'']"
    using demo_reconcile_fails by blast
  from reconcile_reports_prefix [OF ref_db_laws demo_ready(1) run] run ran show ?thesis
    by (auto simp: demo_source demo_rows)
qed

end
