(* ===== verification/Run_Props.thy ===== *)
theory Run_Props
  imports Service_Props
begin

text \<open>
  The properties of \<open>Up\<close>, \<open>Rollback\<close> and of the refusals that all the running operations share, again
  for the service that \<open>newService\<close> assembles. What holds of failed runs too is read off \<open>step_failed\<close>.
\<close>

section \<open>What a failed step can do to the rows\<close>

lemma rows_of_simps [simp]:
  "rows_of (ran ss v) = rows_of v" "v_ran (ran ss v) = v_ran v @ ss"
  "rows_of (deleted i v) = filter (\<lambda>r. row_id r \<noteq> i) (rows_of v)" "v_ran (deleted i v) = v_ran v"
  "row_ids (rows_of (marked i x v)) = row_ids (rows_of v)" "v_ran (marked i x v) = v_ran v"
  by (auto simp: rows_of_def ran_def deleted_def marked_def split: option.splits)

lemma inserted_appends: "inserted i us ds err v v' \<Longrightarrow> \<exists>r. rows_of v' = rows_of v @ [r] \<and> row_id r = i \<and> v_ran v' = v_ran v"
  by (auto simp: inserted_def rows_of_def)

text \<open>An application, complete or failed, appends at most one row and runs no more than its script.\<close>

definition extends_by :: "string list \<Rightarrow> string list \<Rightarrow> db_view \<Rightarrow> db_view \<Rightarrow> bool" where
  "extends_by is steps v v' \<longleftrightarrow>
     (\<exists>new. rows_of v' = rows_of v @ new \<and> prefix (row_ids new) is) \<and> (\<exists>k. v_ran v' = v_ran v @ take k steps)"

lemma apply_failed_extends:
  assumes "apply_failed U m e v v'"
  shows "extends_by [mig_id m] (script_steps U (mig_up_script m)) v v'"
proof -
  have recorded: "extends_by [mig_id m] steps v v'" if "recorded m err (ran (take k steps) v) v'" for k err steps
    using inserted_appends [OF that] by (auto simp: extends_by_def)
  have whole: "extends_by [mig_id m] steps v v'" if "recorded m err (ran steps v) v'" for err steps
    using recorded [of err "length steps" steps] that by simp
  have same: "extends_by [mig_id m] steps v (ran (take k steps) v)" "extends_by [mig_id m] steps v v" for k steps
    by (auto simp: extends_by_def intro: exI [of _ 0])
  from assms show ?thesis
    unfolding apply_failed_def did_apply_def Let_def by (elim disjE conjE exE) (auto intro: recorded whole same)
qed

lemma up_run_failed:
  assumes "run_failed U (up_plan files (rows_of v)) v v' r e"
  shows "res_rolled_back r = [] \<and> extends_by (ids (pending files (rows_of v)))
    (concat (map (\<lambda>m. script_steps U (mig_up_script m)) (pending files (rows_of v)))) v v'"
  using assms
proof (cases rule: run_failed_cases)
  case unchanged
  then show ?thesis by (auto simp: extends_by_def intro: exI [of _ 0])
next
  case (partly cause vr va)
  let ?steps = "\<lambda>ms. concat (map (\<lambda>m. script_steps U (mig_up_script m)) ms)"
  obtain m rest c where m: "res_rolled_back r = []" "pending files (rows_of v) = res_applied r @ m # rest"
    and failed: "apply_failed U m c va v'"
    using partly(5) by (auto simp: step_failed_def up_plan_def pending_def)
  have "vr = table_created v" using partly(3) m(1) by simp
  then obtain new where new: "rows_of va = rows_of v @ new" "row_ids new = ids (res_applied r)"
    "v_ran va = v_ran v @ ?steps (res_applied r)"
    using applied_rows [OF partly(4), of "rows_of v"] stores_ids by (auto simp: rows_created rows_of_Some)
  obtain more k where more: "rows_of v' = rows_of va @ more" "prefix (row_ids more) [mig_id m]"
    "v_ran v' = v_ran va @ take k (script_steps U (mig_up_script m))"
    using apply_failed_extends [OF failed] by (auto simp: extends_by_def)
  have "prefix (row_ids (new @ more)) (ids (pending files (rows_of v)))"
    using new(2) more(2) m(2) by (auto simp: prefix_Cons)
  moreover have "v_ran v' = v_ran v @ take (length (?steps (res_applied r)) + min k (length (script_steps U (mig_up_script m))))
      (?steps (pending files (rows_of v)))"
    using new(3) more(3) m(2) by (simp add: take_add min_def)
  ultimately show ?thesis
    using m(1) new(1) more(1) unfolding extends_by_def by (metis append_assoc)
qed

section \<open>Up\<close>

text \<open>
  C9: an Up that returns no error applies exactly the pending migrations. The rows that were there stay as
  they were, one row per pending migration follows them in file order, the up scripts have run in this order,
  nothing was rolled back, and the migrations that the files lack are reported as left alone.
\<close>

theorem up_applies_pending:
  assumes "sql_database D ref view tx_view tx_session tidy" "ready U tidy F (view w) l"
    "up (fs_service U F D ref p) c (w, l) = ((w', l'), r, None)"
  shows "\<exists>files new. get_migrations U F = Inr files
    \<and> res_applied r = filter (\<lambda>m. mig_id m \<notin> set (row_ids (rows_of (view w)))) files
    \<and> v_rows (view w') = Some (rows_of (view w) @ new) \<and> list_all2 stores (res_applied r) new
    \<and> v_ran (view w') = v_ran (view w) @ concat (map (\<lambda>m. script_steps U (mig_up_script m)) (res_applied r))
    \<and> res_rolled_back r = []
    \<and> ids (res_extras_left r) = rev (filter (\<lambda>i. i \<notin> set (ids files)) (row_ids (rows_of (view w))))"
proof -
  have "up_done U (get_migrations U F) (view w) (view w') r" using up_outcome [OF assms] by simp
  then obtain files where f: "get_migrations U F = Inr files"
    and ok: "plan_done U (up_plan files (rows_of (view w))) (table_created (view w)) (view w')"
    and r: "res_applied r = pending files (rows_of (view w))" "res_rolled_back r = []"
      "res_extras_left r = to_rollback (build_plan files (db_of (rows_of (view w))) False)"
    unfolding up_done_def up_plan_def pending_def by auto
  have "ids (res_extras_left r) = rev (extras files (rows_of (view w)))"
    using reconcile_plan_extras [of files "rows_of (view w)"] by (simp add: r(3) reconcile_plan_def)
  with f r show ?thesis
    by (rule_tac plan_done_rows [OF ok keyed_rows [OF assms(1)]])
      (auto simp: up_plan_def pending_def extras_def)
qed

theorem up_applies_pending_witness:
  "\<exists>w' l' r new. up (demo_service False) Caller (demo_world (Some [demo_row ''0'' None]) [] False, demo_lock)
       = ((w', l'), r, None)
     \<and> v_rows (ref_view w') = Some (demo_row ''0'' None # new) \<and> list_all2 stores [demo_migration] new
     \<and> v_ran (ref_view w') = [''A'']"
proof -
  obtain w' r where run: "up (demo_service False) Caller (demo_world (Some [demo_row ''0'' None]) [] False, demo_lock)
      = ((w', demo_lock), r, None)"
    using demo_up by blast
  from up_applies_pending [OF ref_db_laws demo_ready(1) run] run show ?thesis
    by (auto simp: demo_source demo_rows demo_steps)
qed

text \<open>
  C10: Up never destroys anything, however it ends. The rows that were there are still there, unchanged and in
  order; the rows that follow are those of a beginning of the pending migrations; no down script ran.
\<close>

theorem up_only_extends:
  assumes "sql_database D ref view tx_view tx_session tidy" "ready U tidy F (view w) l"
    "up (fs_service U F D ref p) c (w, l) = ((w', l'), r, err)"
  shows "res_rolled_back r = [] \<and> (\<exists>files new k.
      files = (case get_migrations U F of Inr files \<Rightarrow> files | Inl _ \<Rightarrow> [])
      \<and> rows_of (view w') = rows_of (view w) @ new \<and> prefix (row_ids new) (ids (pending files (rows_of (view w))))
      \<and> v_ran (view w') = v_ran (view w)
         @ take k (concat (map (\<lambda>m. script_steps U (mig_up_script m)) (pending files (rows_of (view w))))))"
proof (cases err)
  case None
  from up_outcome [OF assms] None have "up_done U (get_migrations U F) (view w) (view w') r" by simp
  then obtain files where f: "get_migrations U F = Inr files" "res_rolled_back r = []"
    and ok: "plan_done U (up_plan files (rows_of (view w))) (table_created (view w)) (view w')"
    unfolding up_done_def by blast
  from plan_done_rows [OF ok keyed_rows [OF assms(1)]] obtain new where
    "v_rows (view w') = Some (rows_of (view w) @ new)" "list_all2 stores (pending files (rows_of (view w))) new"
    "v_ran (view w') = v_ran (view w) @ concat (map (\<lambda>m. script_steps U (mig_up_script m)) (pending files (rows_of (view w))))"
    by (auto simp: up_plan_def pending_def)
  with f stores_ids show ?thesis by (auto simp: rows_of_Some) (metis take_all order_refl)
next
  case (Some e)
  from up_outcome [OF assms] Some have "up_failed U (get_migrations U F) (view w) (view w') r e" by simp
  then consider "unchanged (view w) (view w') r"
    | files where "get_migrations U F = Inr files" "run_failed U (up_plan files (rows_of (view w))) (view w) (view w') r e"
    unfolding up_failed_def by blast
  then show ?thesis
  proof cases
    case 1
    then show ?thesis by (auto simp: unchanged_def intro: exI [of _ "0::nat"] exI [of _ "[]"])
  next
    case 2
    from up_run_failed [OF 2(2)] 2(1) show ?thesis by (auto simp: extends_by_def)
  qed
qed

theorem up_only_extends_witness:
  "\<exists>w' l' r err new. up (demo_service False) Caller (demo_world (Some [demo_row ''0'' None]) [] False, demo_lock)
       = ((w', l'), r, err)
     \<and> rows_of (ref_view w') = demo_row ''0'' None # new \<and> prefix (row_ids new) [''1'']"
proof -
  obtain w' r where run: "up (demo_service False) Caller (demo_world (Some [demo_row ''0'' None]) [] False, demo_lock)
      = ((w', demo_lock), r, None)"
    using demo_up by blast
  from up_only_extends [OF ref_db_laws demo_ready(1) run] run show ?thesis
    by (auto simp: demo_source demo_rows pending_def)
qed

section \<open>Rollback\<close>

lemma filter_not_last:
  "distinct (row_ids rs) \<Longrightarrow> filter (\<lambda>r. row_id r \<notin> set (row_ids (drop m rs))) rs = take m rs"
proof -
  assume "distinct (row_ids rs)"
  then have d: "distinct (row_ids (take m rs) @ row_ids (drop m rs))"
    by (metis append_take_drop_id map_append)
  let ?P = "\<lambda>r. row_id r \<notin> set (row_ids (drop m rs))"
  have "filter ?P rs = filter ?P (take m rs) @ filter ?P (drop m rs)"
    by (metis append_take_drop_id filter_append)
  moreover have "filter ?P (take m rs) = take m rs" using d by (auto simp: filter_id_conv)
  moreover have "filter ?P (drop m rs) = []" by (auto simp: filter_empty_conv)
  ultimately show ?thesis by simp
qed

lemma rollback_plan_ids: "ids (to_rollback (rollback_plan count rs)) = rev (row_ids (last_rows count rs))"
  by (metis db_of_ids migration_plan.select_convs(1) rev_map rollback_plan_def)

lemma rows_of_marked:
  "rows_of (marked i x v) = map (\<lambda>r. if row_id r = i then r\<lparr>row_error := Some x\<rparr> else r) (rows_of v)"
  by (auto simp: rows_of_def marked_def split: option.splits)

lemma rollback_failed_rows:
  assumes "rollback_failed U i e v v'"
  shows "(rows_of v' = rows_of v \<or> rows_of v' = filter (\<lambda>r. row_id r \<noteq> i) (rows_of v) \<or> (\<exists>x. rows_of v' = rows_of (marked i x v)))"
  using assms unfolding rollback_failed_def did_rollback_def Let_def
  by (auto split: if_splits) (auto simp: rows_of_def ran_def deleted_def marked_def)

lemma rollback_done_rows:
  assumes "sql_database D ref view tx_view tx_session tidy" "rollback_done U count (view w) v' r"
  shows "\<exists>k. k = length (rows_of (view w)) - (if count \<le> 0 then length (rows_of (view w)) else nat count)
    \<and> v_rows v' = Some (take k (rows_of (view w)))
    \<and> ids (res_rolled_back r) = rev (row_ids (drop k (rows_of (view w)))) \<and> res_applied r = []
    \<and> v_ran v' = v_ran (view w) @ concat (map (\<lambda>r. script_steps U (row_down r)) (rev (drop k (rows_of (view w)))))"
proof -
  let ?rs = "rows_of (view w)"
  define k where "k = length ?rs - (if count \<le> 0 then length ?rs else nat count)"
  have ok: "plan_done U (rollback_plan count ?rs) (table_created (view w)) v'"
    and r: "res_applied r = []" "ids (res_rolled_back r) = rev (row_ids (drop k ?rs))"
    using assms(2) rollback_plan_ids [of count ?rs] by (auto simp: rollback_done_def last_rows_eq k_def)
  have d: "distinct (row_ids ?rs)" by (rule keyed_rows [OF assms(1)])
  have planned: "ids (to_rollback (rollback_plan count ?rs)) = map row_id (rev (drop k ?rs))"
    by (simp add: rollback_plan_ids last_rows_eq k_def rev_map)
  have steps: "map (\<lambda>i. script_steps U (stored_down ?rs i)) (map row_id (rev (drop k ?rs)))
      = map (\<lambda>r. script_steps U (row_down r)) (rev (drop k ?rs))"
    by (auto simp: stored_down_eq [OF d] dest: in_set_dropD)
  obtain new where new: "list_all2 stores (to_apply (rollback_plan count ?rs)) new"
    "v_rows v' = Some (filter (\<lambda>r. row_id r \<notin> set (map row_id (rev (drop k ?rs)))) ?rs @ new)"
    "v_ran v' = v_ran (view w) @ concat (map (\<lambda>r. script_steps U (row_down r)) (rev (drop k ?rs)))
       @ concat (map (\<lambda>m. script_steps U (mig_up_script m)) (to_apply (rollback_plan count ?rs)))"
    by (rule plan_done_rows [OF ok d, unfolded planned steps]) (rule that)
  have "to_apply (rollback_plan count ?rs) = []" by (simp add: rollback_plan_def)
  with r new filter_not_last [OF d, of k] show ?thesis
    by (intro exI [of _ k] conjI) (simp_all add: k_def)
qed

text \<open>
  C11: a Rollback of \<open>count\<close> that returns no error removes the rows of the last \<open>count\<close> applied migrations, all of
  them for a count of zero or less, and no others; it ran the rollback scripts stored in these rows, the last
  one first, and reports exactly these.
\<close>

theorem rollback_takes_last:
  assumes "sql_database D ref view tx_view tx_session tidy" "ready U tidy F (view w) l"
    "rollback (fs_service U F D ref p) c count (w, l) = ((w', l'), r, None)"
  shows "\<exists>k. k = length (rows_of (view w)) - (if count \<le> 0 then length (rows_of (view w)) else nat count)
    \<and> v_rows (view w') = Some (take k (rows_of (view w)))
    \<and> ids (res_rolled_back r) = rev (row_ids (drop k (rows_of (view w)))) \<and> res_applied r = []
    \<and> v_ran (view w') = v_ran (view w) @ concat (map (\<lambda>r. script_steps U (row_down r)) (rev (drop k (rows_of (view w)))))"
  by (rule rollback_done_rows [OF assms(1)]) (use rollback_outcome [OF assms] in simp)

theorem rollback_takes_last_witness:
  "\<exists>w' l' r. rollback (demo_service False) Caller 1 (demo_world (Some [demo_row ''0'' None]) [] False, demo_lock)
       = ((w', l'), r, None)
     \<and> v_rows (ref_view w') = Some [] \<and> ids (res_rolled_back r) = [''0''] \<and> v_ran (ref_view w') = [''B'']"
proof -
  obtain w' r where run: "rollback (demo_service False) Caller 1
      (demo_world (Some [demo_row ''0'' None]) [] False, demo_lock) = ((w', demo_lock), r, None)"
    using demo_rollback by blast
  from rollback_takes_last [OF ref_db_laws demo_ready(1) run]
  have "v_rows (ref_view w') = Some [] \<and> ids (res_rolled_back r) = [''0''] \<and> v_ran (ref_view w') = [''B'']"
    by (simp add: demo_rows demo_steps)
  with run show ?thesis by (intro exI [of _ w'] exI [of _ demo_lock] exI [of _ r]) simp
qed

text \<open>
  C12: Rollback touches nothing else, however it ends. The rows before the last \<open>count\<close> are as they were, the
  rows that are left are a beginning of the ones that were there, and no migration was applied.
\<close>

theorem rollback_spares_the_rest:
  assumes "sql_database D ref view tx_view tx_session tidy" "ready U tidy F (view w) l"
    "rollback (fs_service U F D ref p) c count (w, l) = ((w', l'), r, err)"
  shows "\<exists>k. k = length (rows_of (view w)) - (if count \<le> 0 then length (rows_of (view w)) else nat count)
    \<and> take k (rows_of (view w')) = take k (rows_of (view w))
    \<and> prefix (row_ids (rows_of (view w'))) (row_ids (rows_of (view w))) \<and> res_applied r = []"
proof -
  let ?rs = "rows_of (view w)"
  define k where "k = length ?rs - (if count \<le> 0 then length ?rs else nat count)"
  have d: "distinct (row_ids ?rs)" by (rule keyed_rows [OF assms(1)])
  note rb = rollback_outcome [OF assms]
  have "take k (rows_of (view w')) = take k ?rs \<and> prefix (row_ids (rows_of (view w'))) (row_ids ?rs) \<and> res_applied r = []"
  proof (cases err)
    case None
    with rollback_done_rows [OF assms(1)] rb
    have "v_rows (view w') = Some (take k ?rs)" "res_applied r = []" by (auto simp: k_def)
    then show ?thesis by (auto simp: rows_of_Some min_def take_is_prefix simp flip: take_map)
  next
    case (Some e)
    with rb have "run_failed U (rollback_plan count ?rs) (view w) (view w') r e" by simp
    then show ?thesis
    proof (cases rule: run_failed_cases)
      case unchanged
      then show ?thesis by simp
    next
      case (partly cause vr va)
      obtain m rest x where m: "to_rollback (rollback_plan count ?rs) = res_rolled_back r @ m # rest" "res_applied r = []"
        and failed: "rollback_failed U (mig_id m) x va (view w')"
        using partly(5) by (auto simp: step_failed_def rollback_plan_def)
      let ?j = "length (res_rolled_back r)"
      have planned: "rev (row_ids (drop k ?rs)) = ids (res_rolled_back r) @ mig_id m # ids rest"
        using rollback_plan_ids [of count ?rs] m(1) by (simp add: last_rows_eq k_def)
      have split: "row_ids (drop k ?rs) = rev (ids rest) @ mig_id m # rev (ids (res_rolled_back r))"
        using arg_cong [OF planned, of rev] by simp
      define n where "n = k + length rest"
      have kn: "k \<le> n" by (simp add: n_def)
      have k: "k \<le> length ?rs" by (simp add: k_def)
      have dropn: "row_ids (drop (Suc n) ?rs) = rev (ids (res_rolled_back r))" "row_ids (drop n ?rs) = mig_id m # rev (ids (res_rolled_back r))"
        using arg_cong [OF split, of "drop (Suc (length rest))"] arg_cong [OF split, of "drop (length rest)"]
        by (simp_all add: n_def add.commute flip: drop_map)
      have va: "rows_of va = take (Suc n) ?rs"
        using rolled_back_rows [OF partly(3) rows_created d] partly(4) m(2) filter_not_last [OF d, of "Suc n"] dropn(1)
        by (simp add: rows_of_Some)
      have "row_ids (drop n (take (Suc n) ?rs)) = [mig_id m]"
        using arg_cong [OF dropn(2), of "take 1"] by (simp add: drop_take take_map)
      moreover have "distinct (row_ids (take (Suc n) ?rs))" using d by (simp flip: take_map)
      ultimately have "filter (\<lambda>r. row_id r \<noteq> mig_id m) (take (Suc n) ?rs) = take n ?rs"
        using filter_not_last [of "take (Suc n) ?rs" n] by (simp add: min_def)
      moreover have "take k (rows_of (marked (mig_id m) y va)) = take k ?rs" for y
      proof -
        have "distinct (row_ids (take k ?rs) @ row_ids (drop k ?rs))" using d by (metis append_take_drop_id map_append)
        then have "mig_id m \<notin> set (row_ids (take k ?rs))" using split by auto
        then have "\<forall>r \<in> set (take k ?rs). row_id r \<noteq> mig_id m" by (metis image_eqI set_map)
        then show ?thesis using kn by (simp add: rows_of_marked va take_map map_idI)
      qed
      ultimately show ?thesis
        using rollback_failed_rows [OF failed] va kn m(2) by (auto simp: min_def take_is_prefix simp flip: take_map)
    qed
  qed
  then show ?thesis unfolding k_def by blast
qed

theorem rollback_spares_the_rest_witness:
  "\<exists>w' l' r err. rollback (demo_service False) Caller 1 (demo_world (Some [demo_row ''0'' None]) [] False, demo_lock)
       = ((w', l'), r, err)
     \<and> prefix (row_ids (rows_of (ref_view w'))) [''0''] \<and> res_applied r = []"
proof -
  obtain w' r where run: "rollback (demo_service False) Caller 1
      (demo_world (Some [demo_row ''0'' None]) [] False, demo_lock) = ((w', demo_lock), r, None)"
    using demo_rollback by blast
  from rollback_spares_the_rest [OF ref_db_laws demo_ready(1) run]
  have "prefix (row_ids (rows_of (ref_view w'))) [''0''] \<and> res_applied r = []" by (auto simp: demo_rows)
  with run show ?thesis by (intro exI [of _ w'] exI [of _ demo_lock] exI [of _ r]) simp
qed

section \<open>Refusals\<close>

text \<open>The call failed, ran nothing, reports nothing, and left every row as it was.\<close>

definition refused :: "('w \<Rightarrow> db_view) \<Rightarrow> 'w \<Rightarrow> ('w \<times> lock_state) \<times> migrate_result \<times> goerr option \<Rightarrow> bool" where
  "refused view w answer \<longleftrightarrow>
     (case answer of ((w', l'), r, err) \<Rightarrow>
        err \<noteq> None \<and> rows_of (view w') = rows_of (view w) \<and> v_ran (view w') = v_ran (view w)
        \<and> res_applied r = [] \<and> res_rolled_back r = [])"

lemma refusedI:
  assumes "\<And>w' l' r. answer = ((w', l'), r, None) \<Longrightarrow> False"
    and "\<And>w' l' r e. answer = ((w', l'), r, Some e) \<Longrightarrow>
      rows_of (view w') = rows_of (view w) \<and> v_ran (view w') = v_ran (view w) \<and> res_applied r = [] \<and> res_rolled_back r = []"
  shows "refused view w answer"
proof -
  obtain w' l' r err where a: "answer = ((w', l'), r, err)" by (metis prod.exhaust)
  then show ?thesis using assms by (cases err) (auto simp: refused_def)
qed

lemma run_failed_blocked:
  assumes "run_failed U plan v v' r e"
    and "\<not> healthy (rows_of v) \<or> \<not> reversible_rows (ids (to_rollback plan)) (table_created v)"
  shows "rows_of v' = rows_of v \<and> v_ran v' = v_ran v \<and> res_applied r = [] \<and> res_rolled_back r = []"
  using assms(1) by (cases rule: run_failed_cases) (use assms(2) in auto)

lemma unchanged_rows:
  "unchanged v v' r \<Longrightarrow> rows_of v' = rows_of v \<and> v_ran v' = v_ran v \<and> res_applied r = [] \<and> res_rolled_back r = []"
  by (auto simp: unchanged_def)

lemma up_refused:
  assumes "sql_database D ref view tx_view tx_session tidy" "ready U tidy F (view w) l" "\<not> healthy (rows_of (view w))"
  shows "refused view w (up (fs_service U F D ref p) c (w, l))"
proof (rule refusedI)
  fix w' l' r e
  assume run: "up (fs_service U F D ref p) c (w, l) = ((w', l'), r, Some e)"
  then have "up_failed U (get_migrations U F) (view w) (view w') r e" using up_outcome [OF assms(1,2) run] by simp
  then show "rows_of (view w') = rows_of (view w) \<and> v_ran (view w') = v_ran (view w) \<and> res_applied r = [] \<and> res_rolled_back r = []"
    using run_failed_blocked unchanged_rows assms(3) unfolding up_failed_def by blast
qed (use up_outcome [OF assms(1,2)] assms(3) in \<open>fastforce simp: up_done_def\<close>)

lemma rollback_refused:
  assumes "sql_database D ref view tx_view tx_session tidy" "ready U tidy F (view w) l"
    and "\<not> healthy (rows_of (view w))
      \<or> \<not> reversible_rows (row_ids (last_rows count (rows_of (view w)))) (table_created (view w))"
  shows "refused view w (rollback (fs_service U F D ref p) c count (w, l))"
proof (rule refusedI)
  have b: "\<not> healthy (rows_of (view w))
      \<or> \<not> reversible_rows (ids (to_rollback (rollback_plan count (rows_of (view w))))) (table_created (view w))"
    using assms(3) by (simp only: rollback_plan_ids reversible_rows_def set_rev)
  {
    fix w' l' r assume run: "rollback (fs_service U F D ref p) c count (w, l) = ((w', l'), r, None)"
    show False using rollback_outcome [OF assms(1,2) run] b by (auto simp: rollback_done_def)
  next
    fix w' l' r e assume run: "rollback (fs_service U F D ref p) c count (w, l) = ((w', l'), r, Some e)"
    then have "run_failed U (rollback_plan count (rows_of (view w))) (view w) (view w') r e"
      using rollback_outcome [OF assms(1,2) run] by simp
    then show "rows_of (view w') = rows_of (view w) \<and> v_ran (view w') = v_ran (view w) \<and> res_applied r = [] \<and> res_rolled_back r = []"
      using b by (rule run_failed_blocked)
  }
qed

lemma reconcile_refused:
  assumes "sql_database D ref view tx_view tx_session tidy" "ready U tidy F (view w) l"
    and "\<And>files. get_migrations U F = Inr files \<Longrightarrow> \<not> healthy (rows_of (view w))
      \<or> \<not> reversible_rows (extras files (rows_of (view w))) (table_created (view w))
      \<or> blocked_by (reconcile_plan files (rows_of (view w))) files opts \<noteq> None"
  shows "refused view w (reconcile (fs_service U F D ref p) c opts (w, l))"
proof (rule refusedI)
  have b: "\<not> healthy (rows_of (view w))
      \<or> \<not> reversible_rows (ids (to_rollback (reconcile_plan files (rows_of (view w))))) (table_created (view w))
      \<or> blocked_by (reconcile_plan files (rows_of (view w))) files opts \<noteq> None" if "get_migrations U F = Inr files" for files
    using assms(3) [OF that] by (simp only: reconcile_plan_extras reversible_rows_def set_rev)
  {
    fix w' l' r assume run: "reconcile (fs_service U F D ref p) c opts (w, l) = ((w', l'), r, None)"
    show False using reconcile_outcome [OF assms(1,2) run] b by (auto simp: reconcile_done_def)
  next
    fix w' l' r e assume run: "reconcile (fs_service U F D ref p) c opts (w, l) = ((w', l'), r, Some e)"
    then have "reconcile_failed U (get_migrations U F) opts (view w) (view w') r e"
      using reconcile_outcome [OF assms(1,2) run] by simp
    then show "rows_of (view w') = rows_of (view w) \<and> v_ran (view w') = v_ran (view w) \<and> res_applied r = [] \<and> res_rolled_back r = []"
      using b run_failed_blocked unchanged_rows unfolding reconcile_failed_def by fastforce
  }
qed

text \<open>
  C5: a recorded failure stops everything. While any row carries an error, Up, Reconcile and Rollback fail
  whatever their arguments, and neither run a script nor touch a row.
\<close>

theorem failed_row_blocks_runs:
  assumes "sql_database D ref view tx_view tx_session tidy" "ready U tidy F (view w) l" "\<not> healthy (rows_of (view w))"
  shows "refused view w (up (fs_service U F D ref p) c (w, l))
    \<and> refused view w (reconcile (fs_service U F D ref p) c opts (w, l))
    \<and> refused view w (rollback (fs_service U F D ref p) c count (w, l))"
  using up_refused [OF assms] reconcile_refused [OF assms(1,2)] rollback_refused [OF assms(1,2)] assms(3) by blast

theorem failed_row_blocks_runs_witness:
  "refused ref_view (demo_world (Some [demo_row ''0'' (Some ''boom'')]) [] False)
     (up (demo_service False) Caller (demo_world (Some [demo_row ''0'' (Some ''boom'')]) [] False, demo_lock))"
  by (rule failed_row_blocks_runs [OF ref_db_laws demo_ready(1), THEN conjunct1])
    (simp add: demo_rows healthy_def)

text \<open>A ledger whose only row cannot be rolled back.\<close>

definition sealed_row :: row where
  "sealed_row = (demo_row ''0'' None)\<lparr>row_down := directive_header_for directive_irreversible\<rparr>"

lemma sealed_header:
  "parse_directive_header (row_down sealed_row) = Inr ([directive_irreversible \<mapsto> True], [])"
  by (simp add: sealed_row_def go_eval)

lemma sealed_row_simps: "row_id sealed_row = ''0''" "script_irreversible (row_down sealed_row)"
  "tidy_script demo_unicode (ref_tidy ''m'') (row_down sealed_row)"
  by (simp_all add: script_irreversible_def tidy_script_def script_steps_def sealed_header has_directive_def
      directive_tokens ref_tidy_def statement_texts) (simp add: sealed_row_def)

lemma sealed_rows: "v_rows (ref_view (demo_world (Some [sealed_row]) fs b)) = Some [sealed_row]"
  "rows_of (ref_view (demo_world (Some [sealed_row]) fs b)) = [sealed_row]"
  by (simp_all add: rows_of_def ref_view_def keyed_def demo_world_def)

lemma sealed_ready: "ready demo_unicode (ref_tidy ''m'') demo_files (ref_view (demo_world (Some [sealed_row]) fs b)) demo_lock"
  using demo_tidy sealed_row_simps(3)
  by (simp add: ready_def sealed_rows demo_source tidy_rows_def tidy_migrations_def held_conn_def demo_lock_def)
    (simp add: unstranded_def ref_view_def keyed_def demo_world_def)

text \<open>
  C8: what cannot be undone is not begun to be undone. If a row that Rollback would take stores an irreversible
  script, the call fails before anything runs: the reversible migrations that would have come first are
  not rolled back either.
\<close>

theorem irreversible_row_blocks_rollback:
  assumes "sql_database D ref view tx_view tx_session tidy" "ready U tidy F (view w) l"
    and "row \<in> set (last_rows count (rows_of (view w)))" "script_irreversible (row_down row)"
  shows "refused view w (rollback (fs_service U F D ref p) c count (w, l))"
proof (rule rollback_refused [OF assms(1,2)])
  have "row \<in> set (rows_of (view w))" using assms(3) by (auto simp: last_rows_eq dest: in_set_dropD)
  then show "\<not> healthy (rows_of (view w))
      \<or> \<not> reversible_rows (row_ids (last_rows count (rows_of (view w)))) (table_created (view w))"
    using assms(3,4) by (auto simp: reversible_rows_def rows_created)
qed

theorem irreversible_row_blocks_rollback_witness:
  "refused ref_view (demo_world (Some [sealed_row]) [] False)
     (rollback (demo_service False) Caller 1 (demo_world (Some [sealed_row]) [] False, demo_lock))"
  by (rule irreversible_row_blocks_rollback [OF ref_db_laws sealed_ready, of sealed_row])
    (simp_all add: sealed_rows sealed_row_simps last_rows_def)

text \<open>
  the same for Reconcile, where the rows to roll back are those the files no longer have.
\<close>

theorem irreversible_row_blocks_reconcile:
  assumes "sql_database D ref view tx_view tx_session tidy" "ready U tidy F (view w) l"
    and "get_migrations U F = Inr files" "row \<in> set (rows_of (view w))" "row_id row \<notin> set (ids files)"
    and "script_irreversible (row_down row)"
  shows "refused view w (reconcile (fs_service U F D ref p) c opts (w, l))"
proof (rule reconcile_refused [OF assms(1,2)])
  fix fs
  assume "get_migrations U F = Inr fs"
  then have "row_id row \<in> set (extras fs (rows_of (view w)))" using assms(3-5) by (simp add: extras_def)
  then show "\<not> healthy (rows_of (view w))
      \<or> \<not> reversible_rows (extras fs (rows_of (view w))) (table_created (view w))
      \<or> blocked_by (reconcile_plan fs (rows_of (view w))) fs opts \<noteq> None"
    using assms(4,6) by (auto simp: reversible_rows_def rows_created)
qed

theorem irreversible_row_blocks_reconcile_witness:
  "refused ref_view (demo_world (Some [sealed_row]) [] False)
     (reconcile (demo_service False) Caller demo_options (demo_world (Some [sealed_row]) [] False, demo_lock))"
  by (rule irreversible_row_blocks_reconcile [OF ref_db_laws sealed_ready demo_source, of sealed_row])
    (simp_all add: sealed_rows sealed_row_simps)

text \<open>
  C6: Reconcile obeys its guards: when \<open>blockedBy\<close> names a reason, the call fails and nothing has happened.
\<close>

theorem blocked_reconcile_does_nothing:
  assumes "sql_database D ref view tx_view tx_session tidy" "ready U tidy F (view w) l"
    and "get_migrations U F = Inr files" "blocked_by (reconcile_plan files (rows_of (view w))) files opts = Some e"
  shows "refused view w (reconcile (fs_service U F D ref p) c opts (w, l))"
  by (rule reconcile_refused [OF assms(1,2)]) (use assms(3,4) in auto)

theorem blocked_reconcile_does_nothing_witness:
  "refused ref_view (demo_world (Some [demo_row ''0'' None]) [] False)
     (reconcile (demo_service False) Caller \<lparr>allow_rollback = False, allow_interleaved = False, allow_empty_source = False\<rparr>
        (demo_world (Some [demo_row ''0'' None]) [] False, demo_lock))"
proof -
  let ?opts = "\<lparr>allow_rollback = False, allow_interleaved = False, allow_empty_source = False\<rparr>"
  have "to_rollback (reconcile_plan [demo_migration] [demo_row ''0'' None]) \<noteq> []"
    using reconcile_plan_extras [of "[demo_migration]" "[demo_row ''0'' None]"] by (auto simp: extras_def)
  then obtain e where "blocked_by (reconcile_plan [demo_migration] (rows_of (ref_view
      (demo_world (Some [demo_row ''0'' None]) [] False)))) [demo_migration] ?opts = Some e"
    by (simp add: demo_rows blocked_by_def)
  then show ?thesis by (rule blocked_reconcile_does_nothing [OF ref_db_laws demo_ready(1) demo_source])
qed

text \<open>
  the guards and their order. An empty source that would roll everything back is refused first, then any
  rollback that was not allowed, then any interleaved migration that was not allowed; and nothing else.
\<close>

theorem guards_in_order:
  "(case blocked_by (reconcile_plan files rs) files opts of
      None \<Rightarrow> (allow_rollback opts \<or> extras files rs = []) \<and> (allow_interleaved opts \<or> plan_interleaved (reconcile_plan files rs) = [])
        \<and> \<not> (files = [] \<and> rs \<noteq> [] \<and> \<not> allow_empty_source opts)
    | Some e \<Rightarrow>
        error_is e (if files = [] \<and> rs \<noteq> [] \<and> \<not> allow_empty_source opts then ErrEmptySource
                    else if extras files rs \<noteq> [] \<and> \<not> allow_rollback opts then ErrDivergence else ErrInterleaved)
        \<and> (files = [] \<and> rs \<noteq> [] \<and> \<not> allow_empty_source opts \<or> extras files rs \<noteq> [] \<and> \<not> allow_rollback opts
           \<or> plan_interleaved (reconcile_plan files rs) \<noteq> [] \<and> \<not> allow_interleaved opts))"
proof -
  have extra: "to_rollback (reconcile_plan files rs) = [] \<longleftrightarrow> extras files rs = []" (is "?p = [] \<longleftrightarrow> _")
    using reconcile_plan_extras [of files rs] by (cases ?p) auto
  have "files = [] \<Longrightarrow> extras files rs = [] \<longleftrightarrow> rs = []" by (simp add: extras_def)
  then show ?thesis using extra by (auto simp: blocked_by_def)
qed

end
