(* ===== verification/Ledger_Props.thy ===== *)
theory Ledger_Props
  imports Run_Props
begin

text \<open>
  The properties of the operations that edit or read the ledger without running a script, and of runs that
  follow one another.
\<close>

section \<open>Baseline\<close>

lemma migrations_through_Inr:
  "migrations_through files i = Inr through \<Longrightarrow>
     through \<noteq> [] \<and> mig_id (last through) = i \<and> prefix through files \<and> i \<notin> set (ids (butlast through))"
  by (induction files arbitrary: through) (auto split: if_splits sum.splits)

text \<open>
  Baseline adopts an existing schema. It succeeds only on a ledger without rows, records the files from the
  first one up to the first with the ID given, one healthy row each, and runs none of their scripts.
\<close>

theorem baseline_records_prefix:
  assumes "sql_database D ref view tx_view tx_session tidy" "ready U tidy F (view w) l"
    and "baseline (fs_service U F D ref p) c i (w, l) = ((w', l'), r, None)"
  shows "rows_of (view w) = [] \<and> v_ran (view w') = v_ran (view w)
    \<and> (\<exists>files new. get_migrations U F = Inr files \<and> prefix (res_applied r) files
        \<and> res_applied r \<noteq> [] \<and> mig_id (last (res_applied r)) = i
        \<and> v_rows (view w') = Some new \<and> list_all2 stores (res_applied r) new)"
proof -
  have "baseline_written (get_migrations U F) i (view w) (view w') (res_applied r)"
    using sql_database.serve_baseline [OF assms(1) _ _ assms(3)] assms(2) by (simp add: ready_def)
  then obtain files where f: "rows_of (view w) = []" "get_migrations U F = Inr files"
    "migrations_through files i = Inr (res_applied r)" "baselined (res_applied r) (table_created (view w)) (view w')"
    unfolding baseline_written_def by blast
  from baselined_rows [OF f(4) rows_created] f(1) obtain new where
    "v_rows (view w') = Some new" "list_all2 stores (res_applied r) new" "v_ran (view w') = v_ran (view w)" by auto
  with f(1,2) migrations_through_Inr [OF f(3)] show ?thesis by blast
qed

theorem baseline_records_prefix_witness:
  "\<exists>w' l' r new. baseline (demo_service False) Caller ''1'' (demo_world None [] False, demo_lock) = ((w', l'), r, None)
     \<and> v_rows (ref_view w') = Some new \<and> list_all2 stores [demo_migration] new \<and> v_ran (ref_view w') = []"
proof -
  obtain w' r where run: "baseline (demo_service False) Caller ''1'' (demo_world None [] False, demo_lock)
      = ((w', demo_lock), r, None)" "res_applied r = [demo_migration]"
    using demo_baseline by blast
  from baseline_records_prefix [OF ref_db_laws demo_ready(2) run(1)] run show ?thesis
    by (auto simp: demo_view)
qed

text \<open>
  Baseline is all or nothing, however it ends: it runs nothing, and the rows afterwards are those from before,
  or, where there were none, one for every file up to the one named.
\<close>

theorem baseline_is_atomic:
  assumes "sql_database D ref view tx_view tx_session tidy" "ready U tidy F (view w) l"
    and "baseline (fs_service U F D ref p) c i (w, l) = ((w', l'), r, err)"
  shows "v_ran (view w') = v_ran (view w)
    \<and> (rows_of (view w') = rows_of (view w)
       \<or> rows_of (view w) = [] \<and> (\<exists>files through. get_migrations U F = Inr files
            \<and> migrations_through files i = Inr through \<and> list_all2 stores through (rows_of (view w'))))"
proof -
  have written: ?thesis if b: "baseline_written (get_migrations U F) i (view w) (view w') through" for through
  proof -
    obtain files where f: "rows_of (view w) = []" "get_migrations U F = Inr files"
      "migrations_through files i = Inr through" "baselined through (table_created (view w)) (view w')"
      using b unfolding baseline_written_def by blast
    from baselined_rows [OF f(4) rows_created] f(1) obtain new where
      "v_rows (view w') = Some new" "list_all2 stores through new" "v_ran (view w') = v_ran (view w)" by auto
    with f(1-3) show ?thesis by (auto simp: rows_of_Some)
  qed
  have "view w' \<in> {view w, table_created (view w)} \<or> (\<exists>ms. baseline_written (get_migrations U F) i (view w) (view w') ms)"
    using sql_database.serve_baseline [OF assms(1) _ _ assms(3)] assms(2) by (auto simp: ready_def split: option.splits)
  then show ?thesis using written by auto
qed

theorem baseline_is_atomic_witness:
  "\<exists>w' l' r err. baseline (demo_service True) Caller ''1'' (demo_world None [Some (Refused ''no'')] False, demo_lock)
       = ((w', l'), r, err) \<and> v_ran (ref_view w') = []"
proof -
  obtain w' l' r err where run: "baseline (demo_service True) Caller ''1'' (demo_world None [Some (Refused ''no'')] False, demo_lock)
      = ((w', l'), r, err)" by (metis prod.exhaust)
  from baseline_is_atomic [OF ref_db_laws demo_ready(2) run] run show ?thesis by (auto simp: demo_view)
qed

section \<open>Forget\<close>

text \<open>
  Forget removes the row named and nothing else, without running its script; it fails, changing nothing, when
  no row has the ID, and a failed one changes nothing more than a row that a successful one would remove.
\<close>

theorem forget_removes_one_row:
  assumes "sql_database D ref view tx_view tx_session tidy" "ready U tidy F (view w) l"
    and "forget (fs_service U F D ref p) c i (w, l) = ((w', l'), err)"
  shows "v_ran (view w') = v_ran (view w)
    \<and> (case err of
        None \<Rightarrow> i \<in> set (row_ids (rows_of (view w))) \<and> rows_of (view w') = filter (\<lambda>r. row_id r \<noteq> i) (rows_of (view w))
      | Some _ \<Rightarrow> rows_of (view w') = rows_of (view w) \<or> rows_of (view w') = filter (\<lambda>r. row_id r \<noteq> i) (rows_of (view w)))"
  using sql_database.serve_forget [OF assms(1) _ _ assms(3)] assms(2) by (auto simp: ready_def split: option.splits)

theorem forget_removes_one_row_witness:
  "\<exists>w' l'. forget (demo_service False) Caller ''0'' (demo_world (Some [demo_row ''0'' (Some ''boom'')]) [] False, demo_lock)
       = ((w', l'), None) \<and> rows_of (ref_view w') = []"
proof -
  obtain w' where run: "forget (demo_service False) Caller ''0''
      (demo_world (Some [demo_row ''0'' (Some ''boom'')]) [] False, demo_lock) = ((w', demo_lock), None)"
    using demo_forget by blast
  from forget_removes_one_row [OF ref_db_laws demo_ready(1) run] run show ?thesis by (auto simp: demo_rows)
qed

section \<open>Plan\<close>

lemma build_reconcile_plan_outcome:
  assumes "sql_database D ref view tx_view tx_session tidy"
    and "build_reconcile_plan (fs_service U F D ref p) c opts w = (w1, answer)"
  shows "view w1 = view w \<and> (case answer of Inl _ \<Rightarrow> True
    | Inr analysis \<Rightarrow> \<exists>files. get_migrations U F = Inr files \<and> ra_plan analysis = reconcile_plan files (rows_of (view w))
        \<and> ra_blocked_by analysis = blocked_by (reconcile_plan files (rows_of (view w))) files opts)"
proof -
  have "wp (build_reconcile_plan (fs_service U F D ref p) c opts)
    (\<lambda>a w'. view w' = view w \<and> (\<exists>files. get_migrations U F = Inr files \<and> ra_plan a = reconcile_plan files (rows_of (view w))
        \<and> ra_blocked_by a = blocked_by (reconcile_plan files (rows_of (view w))) files opts))
    (\<lambda>_ w'. view w' = view w) w"
    unfolding build_reconcile_plan_def wp_simps
    by (rule wp_mono [OF sql_database.serve_get_migrations [OF assms(1)]])
      (auto simp: wp_simps Let_def reconcile_plan_def)
  then show ?thesis using assms(2) by (auto simp: wp_def split: sum.splits)
qed

text \<open>
  C23: planning predicts. \<open>BuildReconcilePlan\<close>, which takes no lock, changes nothing on the server; and a Reconcile
  with the same options that follows on the same rows and succeeds was not predicted to be blocked, and
  applied and rolled back exactly the planned migrations.
\<close>

theorem plan_predicts_reconcile:
  assumes "sql_database D ref view tx_view tx_session tidy" "ready U tidy F (view w) l"
    and "build_reconcile_plan (fs_service U F D ref p) c opts w = (w1, Inr analysis)"
    and "reconcile (fs_service U F D ref p) c' opts (w1, l) = ((w', l'), r, None)"
  shows "view w1 = view w \<and> ra_blocked_by analysis = None
    \<and> res_applied r = to_apply (ra_plan analysis) \<and> res_rolled_back r = to_rollback (ra_plan analysis)
    \<and> res_interleaved r = plan_interleaved (ra_plan analysis)"
proof -
  obtain files where a: "view w1 = view w" "get_migrations U F = Inr files"
    "ra_plan analysis = reconcile_plan files (rows_of (view w))"
    "ra_blocked_by analysis = blocked_by (reconcile_plan files (rows_of (view w))) files opts"
    using build_reconcile_plan_outcome [OF assms(1,3)] by auto
  have "reconcile_done U (get_migrations U F) opts (view w1) (view w') r"
    using reconcile_outcome [OF assms(1) _ assms(4)] assms(2) a(1) by simp
  with a show ?thesis by (auto simp: reconcile_done_def)
qed

theorem plan_predicts_reconcile_witness:
  "\<exists>w1 analysis w' l' r.
     build_reconcile_plan (demo_service False) Caller demo_options (demo_world (Some [demo_row ''0'' None]) [] False) = (w1, Inr analysis)
     \<and> reconcile (demo_service False) Caller demo_options (w1, demo_lock) = ((w', l'), r, None)
     \<and> to_apply (ra_plan analysis) = [demo_migration]"
proof -
  obtain w1 analysis w' l' r where run:
    "build_reconcile_plan (demo_service False) Caller demo_options (demo_world (Some [demo_row ''0'' None]) [] False) = (w1, Inr analysis)"
    "reconcile (demo_service False) Caller demo_options (w1, demo_lock) = ((w', l'), r, None)" "res_applied r = [demo_migration]"
    by (simp add: run_eval demo_eval build_plan_eq cong: run_congs)
  from plan_predicts_reconcile [OF ref_db_laws demo_ready(1) run(1,2)] run show ?thesis by metis
qed

section \<open>One run after another\<close>

lemma stores_tidy:
  "list_all2 stores ms rs \<Longrightarrow> \<forall>m \<in> set ms. tidy_script U tidy (mig_down_script m) \<Longrightarrow> r \<in> set rs \<Longrightarrow> tidy_script U tidy (row_down r)"
  by (induction rule: list_all2_induct) (auto simp: stores_def)

lemma ready_after_reconcile:
  assumes "sql_database D ref view tx_view tx_session tidy" "ready U tidy F (view w) l"
    and "reconcile (fs_service U F D ref p) c opts (w, l) = ((w1, l1), r1, None)"
    and "get_migrations U F = Inr files" "\<forall>m \<in> set files. tidy_script U tidy (mig_down_script m)"
  shows "ready U tidy F (view w1) l1"
proof -
  have d: "held_conn l1 = None" "same_sessions (view w) (view w1)" "reconcile_done U (get_migrations U F) opts (view w) (view w1) r1"
    using reconcile_outcome [OF assms(1-3)] by simp_all
  obtain new where f: "v_rows (view w1) = Some (filter (\<lambda>r. row_id r \<in> set (ids files)) (rows_of (view w)) @ new)"
    "list_all2 stores (pending files (rows_of (view w))) new"
    using assms(4) by (rule_tac reconcile_rows [OF assms(1) d(3)]) auto
  have "tidy_script U tidy (row_down r)" if "r \<in> set (rows_of (view w))" for r
    using assms(2) that by (cases "v_rows (view w)") (auto simp: ready_def tidy_rows_def rows_of_def)
  moreover have "tidy_script U tidy (row_down r)" if "r \<in> set new" for r
    by (rule stores_tidy [OF f(2) _ that]) (use assms(5) in \<open>auto simp: pending_def\<close>)
  ultimately have "tidy_rows U tidy (view w1)" using f(1) by (auto simp: tidy_rows_def)
  moreover have "unstranded (view w1)" using d(2) assms(2) same_sessions_unstranded by (auto simp: ready_def)
  ultimately show ?thesis using d(1) assms(2) by (simp add: ready_def)
qed

text \<open>
  C4: Reconcile is idempotent. A second Reconcile of the same files that follows a successful one and succeeds
  finds nothing to do: it applies and rolls back nothing, runs nothing and leaves every row.
\<close>

theorem reconcile_is_idempotent:
  assumes "sql_database D ref view tx_view tx_session tidy" "ready U tidy F (view w) l"
    and "reconcile (fs_service U F D ref p) c opts (w, l) = ((w1, l1), r1, None)"
    and "get_migrations U F = Inr files" "\<forall>m \<in> set files. tidy_script U tidy (mig_down_script m)"
    and "reconcile (fs_service U F D ref p) c' opts' (w1, l1) = ((w2, l2), r2, None)"
  shows "res_applied r2 = [] \<and> res_rolled_back r2 = [] \<and> rows_of (view w2) = rows_of (view w1) \<and> v_ran (view w2) = v_ran (view w1)"
proof -
  have d1: "reconcile_done U (get_migrations U F) opts (view w) (view w1) r1"
    and d2: "reconcile_done U (get_migrations U F) opts' (view w1) (view w2) r2"
    using reconcile_outcome [OF assms(1,2,3)] reconcile_outcome [OF assms(1) ready_after_reconcile [OF assms(1-5)] assms(6)] by simp_all
  obtain new where f: "v_rows (view w1) = Some (filter (\<lambda>r. row_id r \<in> set (ids files)) (rows_of (view w)) @ new)"
    "list_all2 stores (pending files (rows_of (view w))) new"
    using assms(4) by (rule_tac reconcile_rows [OF assms(1) d1]) auto
  have ids: "set (row_ids (rows_of (view w1))) = set (ids files)"
    using synchronized_ids [OF f(2)] by (simp only: rows_of_Some [OF f(1)])
  obtain new2 where g: "v_rows (view w2) = Some (filter (\<lambda>r. row_id r \<in> set (ids files)) (rows_of (view w1)) @ new2)"
    "list_all2 stores (pending files (rows_of (view w1))) new2" "res_applied r2 = pending files (rows_of (view w1))"
    "ids (res_rolled_back r2) = rev (extras files (rows_of (view w1)))"
    "v_ran (view w2) = v_ran (view w1)
       @ concat (map (\<lambda>i. script_steps U (stored_down (rows_of (view w1)) i)) (rev (extras files (rows_of (view w1)))))
       @ concat (map (\<lambda>m. script_steps U (mig_up_script m)) (pending files (rows_of (view w1))))"
    using assms(4) by (rule_tac reconcile_rows [OF assms(1) d2]) auto
  have none: "pending files (rows_of (view w1)) = []" "extras files (rows_of (view w1)) = []"
    using ids by (auto simp: pending_def extras_def filter_empty_conv)
  have "filter (\<lambda>r. row_id r \<in> set (ids files)) (rows_of (view w1)) = rows_of (view w1)"
    using ids by (auto simp: filter_id_conv)
  then show ?thesis using g none by (simp add: rows_of_Some)
qed

theorem reconcile_is_idempotent_witness:
  "\<exists>w1 l1 r1 w2 l2 r2.
     reconcile (demo_service False) Caller demo_options (demo_world (Some [demo_row ''0'' None]) [] False, demo_lock) = ((w1, l1), r1, None)
     \<and> reconcile (demo_service False) Caller demo_options (w1, l1) = ((w2, l2), r2, None)
     \<and> res_applied r2 = [] \<and> rows_of (ref_view w2) = rows_of (ref_view w1)"
proof -
  obtain w1 r1 w2 r2 where run:
    "reconcile (demo_service False) Caller demo_options (demo_world (Some [demo_row ''0'' None]) [] False, demo_lock)
       = ((w1, demo_lock), r1, None)"
    "reconcile (demo_service False) Caller demo_options (w1, demo_lock) = ((w2, demo_lock), r2, None)"
    by (simp add: run_eval demo_eval build_plan_eq cong: run_congs)
  have "\<forall>m \<in> set [demo_migration]. tidy_script demo_unicode (ref_tidy ''m'') (mig_down_script m)"
    by (simp add: demo_tidy)
  from reconcile_is_idempotent [OF ref_db_laws demo_ready(1) run(1) demo_source this run(2)] run show ?thesis by blast
qed

end
