(* ===== verification/Lock_Props.thy ===== *)
theory Lock_Props
  imports Run_Props
begin

text \<open>
  The properties of the advisory lock: what taking and releasing it does to the sessions of the pool, that every
  operation of the service gives it back, and how its timeout is rounded.
\<close>

section \<open>Taking and releasing\<close>

text \<open>
  C18: taking the lock is exclusive and leaves no trace when it fails. On success no session held the configured key
  before, and one fresh session of the pool holds it now, once, checked out and remembered; on failure, whatever the
  reason, no session is checked out or holds a key that did not before. Other keys stay as they are.
\<close>

theorem lock_is_exclusive:
  assumes "sql_database D ref view tx_view tx_session tidy" "held_conn l = None" "unstranded (view w)"
    and "acquire_lock p D c (w, l) = ((w', l'), answer)"
  shows "v_rows (view w') = v_rows (view w) \<and> v_ran (view w') = v_ran (view w)
    \<and> (case answer of
        Inr _ \<Rightarrow> \<exists>n. held_conn l' = Some n \<and> n \<notin> v_out (view w) \<and> pg_lock_id p \<notin> snd ` set (v_locks (view w))
          \<and> v_locks (view w') = (n, pg_lock_id p) # v_locks (view w) \<and> v_out (view w') = insert n (v_out (view w))
      | Inl _ \<Rightarrow> held_conn l' = None \<and> v_locks (view w') = v_locks (view w) \<and> v_out (view w') = v_out (view w))"
  using sql_database.acquire_lock_wp [OF assms(1-3), of p c] assms(4)
  by (auto simp: wp_def with_sessions_def split: sum.splits)

theorem lock_is_exclusive_witness:
  "\<exists>w' l' n. acquire_lock demo_pg (ref_db (\<lambda>_. False) ''m'') Caller (demo_world None [] False, demo_lock) = ((w', l'), Inr ())
     \<and> held_conn l' = Some n \<and> v_locks (ref_view w') = [(n, 7)]"
proof -
  have free: "held_conn demo_lock = None" "unstranded (ref_view (demo_world None [] False))"
    using demo_ready(2) by (simp_all add: ready_def)
  obtain w' l' where run: "acquire_lock demo_pg (ref_db (\<lambda>_. False) ''m'') Caller (demo_world None [] False, demo_lock)
      = ((w', l'), Inr ())"
    by (simp add: run_eval demo_eval cong: run_congs)
  from lock_is_exclusive [OF ref_db_laws free run] run show ?thesis by (auto simp: demo_view demo_pg_def)
qed

text \<open>
  C19: releasing undoes taking, whether or not the server confirms it. After a lock that was taken is released, the
  sessions that are checked out, and the keys that each session holds, are those from before it was taken, and nothing
  else has changed: the key that is given back is the key that was taken.
\<close>

theorem release_undoes_acquire:
  assumes "sql_database D ref view tx_view tx_session tidy" "held_conn l = None" "unstranded (view w)"
    and "acquire_lock p D c (w, l) = ((w1, l1), Inr ())" "release_lock p D c' (w1, l1) = ((w2, l2), answer)"
  shows "held_conn l2 = None \<and> view w2 = view w"
proof -
  obtain n where n: "held_conn l1 = Some n" "n \<notin> v_out (view w)"
    "view w1 = with_sessions ((n, pg_lock_id p) # v_locks (view w)) (insert n (v_out (view w))) (view w)"
    using sql_database.acquire_lock_wp [OF assms(1-3), of p c] assms(4) by (auto simp: wp_def)
  have "v_locks (view w1) = (n, pg_lock_id p) # v_locks (view w)" "n \<notin> fst ` set (v_locks (view w))"
    using n(2,3) assms(3) by (auto simp: unstranded_def)
  from sql_database.release_lock_law [OF assms(1) n(1) this assms(5)] n(2,3) show ?thesis
    by (simp add: with_sessions_self)
qed

theorem release_undoes_acquire_witness:
  "\<exists>w1 l1 w2 l2. acquire_lock demo_pg (ref_db (\<lambda>_. False) ''m'') Caller (demo_world None [] False, demo_lock) = ((w1, l1), Inr ())
     \<and> release_lock demo_pg (ref_db (\<lambda>_. False) ''m'') Caller (w1, l1) = ((w2, l2), Inr ())
     \<and> ref_view w2 = ref_view (demo_world None [] False)"
proof -
  have free: "held_conn demo_lock = None" "unstranded (ref_view (demo_world None [] False))"
    using demo_ready(2) by (simp_all add: ready_def)
  obtain w1 l1 w2 l2 where run: "acquire_lock demo_pg (ref_db (\<lambda>_. False) ''m'') Caller (demo_world None [] False, demo_lock)
      = ((w1, l1), Inr ())" "release_lock demo_pg (ref_db (\<lambda>_. False) ''m'') Caller (w1, l1) = ((w2, l2), Inr ())"
    by (simp add: run_eval demo_eval cong: run_congs)
  from release_undoes_acquire [OF ref_db_laws free run] run show ?thesis by blast
qed

section \<open>Every run gives the lock back\<close>

text \<open>No lock is held any more, and each session holds the keys that it held and is checked out if it was.\<close>

definition lock_given_back :: "('w \<Rightarrow> db_view) \<Rightarrow> 'w \<Rightarrow> 'w \<times> lock_state \<Rightarrow> bool" where
  "lock_given_back view w s \<longleftrightarrow>
     held_conn (snd s) = None \<and> v_locks (view (fst s)) = v_locks (view w) \<and> v_out (view (fst s)) = v_out (view w)"

lemma lock_given_backI: "held_conn l' = None \<and> same_sessions (view w) (view w') \<Longrightarrow> lock_given_back view w (w', l')"
  by (simp add: lock_given_back_def same_sessions_def)

text \<open>
  C20: no call of the service keeps the lock or a session, however it ends: not Up, Reconcile, Rollback, Baseline
  or Forget, with any arguments, on any server. Every session holds the advisory keys that it held before the call,
  so the key that was taken is the key that was given back.
\<close>

theorem every_run_gives_lock_back:
  assumes "sql_database D ref view tx_view tx_session tidy" "ready U tidy F (view w) l"
  shows "lock_given_back view w (fst (up (fs_service U F D ref p) c (w, l)))
    \<and> lock_given_back view w (fst (reconcile (fs_service U F D ref p) c opts (w, l)))
    \<and> lock_given_back view w (fst (rollback (fs_service U F D ref p) c count (w, l)))
    \<and> lock_given_back view w (fst (baseline (fs_service U F D ref p) c i (w, l)))
    \<and> lock_given_back view w (fst (forget (fs_service U F D ref p) c i (w, l)))"
proof (intro conjI)
  have l: "held_conn l = None" "unstranded (view w)" using assms(2) by (simp_all add: ready_def)
  let ?S = "fs_service U F D ref p"
  obtain w1 l1 r1 e1 where 1: "up ?S c (w, l) = ((w1, l1), r1, e1)" by (metis prod.exhaust)
  show "lock_given_back view w (fst (up ?S c (w, l)))"
    unfolding 1 fst_conv by (rule lock_given_backI) (use up_outcome [OF assms 1] in blast)
  obtain w2 l2 r2 e2 where 2: "reconcile ?S c opts (w, l) = ((w2, l2), r2, e2)" by (metis prod.exhaust)
  show "lock_given_back view w (fst (reconcile ?S c opts (w, l)))"
    unfolding 2 fst_conv by (rule lock_given_backI) (use reconcile_outcome [OF assms 2] in blast)
  obtain w3 l3 r3 e3 where 3: "rollback ?S c count (w, l) = ((w3, l3), r3, e3)" by (metis prod.exhaust)
  show "lock_given_back view w (fst (rollback ?S c count (w, l)))"
    unfolding 3 fst_conv by (rule lock_given_backI) (use rollback_outcome [OF assms 3] in blast)
  obtain w4 l4 r4 e4 where 4: "baseline ?S c i (w, l) = ((w4, l4), r4, e4)" by (metis prod.exhaust)
  show "lock_given_back view w (fst (baseline ?S c i (w, l)))"
    unfolding 4 fst_conv by (rule lock_given_backI) (use sql_database.serve_baseline [OF assms(1) l 4] in blast)
  obtain w5 l5 e5 where 5: "forget ?S c i (w, l) = ((w5, l5), e5)" by (metis prod.exhaust)
  show "lock_given_back view w (fst (forget ?S c i (w, l)))"
    unfolding 5 fst_conv by (rule lock_given_backI) (use sql_database.serve_forget [OF assms(1) l 5] in blast)
qed

theorem every_run_gives_lock_back_witness:
  "lock_given_back ref_view (demo_world None [Some (Lost ''gone'')] False)
     (fst (up (demo_service True) Caller (demo_world None [Some (Lost ''gone'')] False, demo_lock)))"
  by (rule every_run_gives_lock_back [OF ref_db_laws demo_ready(2), THEN conjunct1])

section \<open>The timeout\<close>

text \<open>
  C21: the bound of the lock timeout. It is sent in whole milliseconds, cut off, and zero means to wait without
  limit: a positive timeout below one millisecond has exactly the effects on the server of no timeout.
\<close>

theorem short_timeout_waits_forever:
  assumes "0 < pg_lock_timeout p" "pg_lock_timeout p < 1000000"
  shows "fst (lock_on_conn p D c conn w) = fst (lock_on_conn (p\<lparr>pg_lock_timeout := 0\<rparr>) D c conn w)"
proof -
  have "milliseconds (pg_lock_timeout p) = milliseconds 0" using assms by (simp add: milliseconds_def)
  then show ?thesis
    by (simp add: lock_on_conn_def go_try_def go_defer_def io_handle_def fail_def ret_def split: prod.split sum.split)
qed

theorem short_timeout_waits_forever_witness:
  "fst (lock_on_conn \<lparr>pg_lock_timeout = 500000, pg_lock_id = 7\<rparr> (ref_db (\<lambda>_. False) ''m'') Caller 1 (demo_world None [] False))
     = fst (lock_on_conn \<lparr>pg_lock_timeout = 0, pg_lock_id = 7\<rparr> (ref_db (\<lambda>_. False) ''m'') Caller 1 (demo_world None [] False))"
  using short_timeout_waits_forever [of "\<lparr>pg_lock_timeout = 500000, pg_lock_id = 7\<rparr>"] by simp

end
