(* ===== verification/Executor_Props.thy ===== *)
theory Executor_Props
  imports Run_Props
begin

text \<open>
  The properties of the executor's own operations, one migration or one plan at a time, and of the advisory
  lock. A script's effects on the server and the bookkeeping row that records them are compared.
\<close>

section \<open>The detached write\<close>

text \<open>
  A server that answers a bookkeeping write that is valid, whenever the write does not depend on the caller's
  context: the caller's cancellation or deadline is then the only reason for it to fail.
\<close>

definition answers_detached :: "'w sql_db \<Rightarrow> table_ref \<Rightarrow> ('w \<Rightarrow> db_view) \<Rightarrow> bool" where
  "answers_detached D ref view \<longleftrightarrow>
     (\<forall>w rs i us ds err. v_rows (view w) = Some rs \<and> i \<notin> set (row_ids rs) \<longrightarrow>
        is_ok (snd (exec_db D Detached (insert_sql ref) [TextArg i, TextArg us, TextArg ds, null_string err] w)))"

context sql_database begin

lemma record_outcome_detached:
  assumes "answers_detached D ref view" "v_rows (view w) = Some rs" "mig_id m \<notin> set (row_ids rs)"
  shows "wp (record_outcome D ref m outcome) (\<lambda>_ w'. outcome = None \<and> recorded m None (view w) (view w'))
     (\<lambda>e w'. outcome = Some e \<and> recorded m (Some (error_string e)) (view w) (view w')) w"
proof -
  have "is_ok (snd (exec_db D Detached (insert_sql ref)
      [TextArg (mig_id m), TextArg (mig_up_script m), TextArg (mig_down_script m), null_string (map_option error_string outcome)] w))"
    using assms unfolding answers_detached_def by blast
  with insert_law [of Detached "mig_id m" "mig_up_script m" "mig_down_script m" "map_option error_string outcome" w] show ?thesis
    unfolding record_outcome_def
    by (auto simp: wp_def io_handle_def fail_def ret_def split: prod.splits sum.splits option.splits)
qed

lemma apply_detached:
  assumes "answers_detached D ref view" "v_rows (view w) = Some rs" "mig_id m \<notin> set (row_ids rs)"
    and "tidy_script U tidy (mig_up_script m)" "unstranded (view w)" "script_no_tx (mig_up_script m)"
  shows "wp (apply_migration D U ref c m) (\<lambda>_ _. True)
     (\<lambda>e w'. view w' = view w
        \<or> (\<exists>k. recorded m (Some (error_string e)) (ran (take k (script_steps U (mig_up_script m))) (view w)) (view w'))) w"
proof -
  obtain d body where p: "parse_directive_header (mig_up_script m) = Inr (d, body)" "has_directive d directive_no_transaction"
    using assms(6) by (auto simp: script_no_tx_def split: sum.splits)
  show ?thesis
  proof (cases "split_sql_statements U body")
    case (Inl e)
    then show ?thesis by (simp add: apply_migration_def p apply_without_transaction_def wp_simps)
  next
    case (Inr ss)
    note st = steps_of_no_tx [OF p Inr]
    have written: "wp (record_outcome D ref m outcome) (\<lambda>_ _. True) (\<lambda>e w'. view w' = view w
        \<or> (\<exists>k. recorded m (Some (error_string e)) (ran (take k (script_steps U (mig_up_script m))) (view w)) (view w'))) w1"
      if "view w1 = ran (take k ss) (view w)" for w1 k outcome
      by (rule wp_mono [OF record_outcome_detached [OF assms(1) _ assms(3)]]) (use assms(2) that st(1) in auto)
    show ?thesis
      unfolding apply_migration_def p apply_without_transaction_def Inr sum.case prod.case if_P [OF p(2)] wp_simps
    proof (rule wp_mono [OF pinned_statements_wp [OF st(3) [OF assms(4)] assms(5)]], goal_cases)
      case (1 a w1)
      then show ?case by (intro written [of _ "length ss"]) simp
    next
      case (2 e w1)
      then show ?case by (auto simp: wp_simps intro: written)
    qed
  qed
qed

end

section \<open>Applying one migration\<close>

text \<open>
  C15: applying a migration in a transaction is all or nothing. Without an error the script has run and one healthy
  row stores it; with an error nothing has happened, neither script nor row, unless the server committed and
  its answer was lost, and then both have.
\<close>

theorem transactional_apply_is_atomic:
  assumes "sql_database D ref view tx_view tx_session tidy" "unstranded (view w)"
    and "tidy_script U tidy (mig_up_script m)" "\<not> script_no_tx (mig_up_script m)"
    and "apply_migration D U ref c m w = (w', answer)"
  shows "(case answer of Inr _ \<Rightarrow> False | Inl _ \<Rightarrow> view w' = view w)
    \<or> v_ran (view w') = v_ran (view w) @ script_steps U (mig_up_script m)
      \<and> (\<exists>rs row. v_rows (view w) = Some rs \<and> mig_id m \<notin> set (row_ids rs)
           \<and> v_rows (view w') = Some (rs @ [row]) \<and> stores m row)"
proof -
  have "case answer of Inr _ \<Rightarrow> did_apply U m (view w) (view w') | Inl e \<Rightarrow> apply_failed U m e (view w) (view w')"
    using sql_database.apply_migration_wp [OF assms(1,3,2), of c] assms(5) by (auto simp: wp_def split: sum.splits)
  then show ?thesis
    using assms(4) by (auto simp: apply_failed_def did_apply_def inserted_def stores_def split: sum.splits)
qed

theorem transactional_apply_is_atomic_witness:
  "\<exists>w' row. apply_migration (ref_db (\<lambda>_. False) ''m'') demo_unicode ''m'' Caller demo_migration (demo_world (Some []) [] False)
       = (w', Inr ()) \<and> v_ran (ref_view w') = [''A''] \<and> v_rows (ref_view w') = Some [row] \<and> stores demo_migration row"
proof -
  have v: "ref_view (demo_world (Some []) [] False) = \<lparr>v_rows = Some [], v_ran = [], v_locks = [], v_out = {}\<rparr>"
    by (simp add: ref_view_def keyed_def demo_world_def)
  have t: "\<not> script_no_tx (mig_up_script demo_migration)" by (simp add: script_no_tx_def demo_header has_directive_def)
  have tidy: "tidy_script demo_unicode (ref_tidy ''m'') (mig_up_script demo_migration)" by (simp add: demo_tidy)
  have u: "unstranded (ref_view (demo_world (Some []) [] False))" by (simp add: v unstranded_def)
  obtain w' where run: "apply_migration (ref_db (\<lambda>_. False) ''m'') demo_unicode ''m'' Caller demo_migration
      (demo_world (Some []) [] False) = (w', Inr ())"
    by (simp add: run_eval demo_eval cong: run_congs)
  from transactional_apply_is_atomic [OF ref_db_laws u tidy t run] run show ?thesis
    by (auto simp: v demo_steps)
qed

text \<open>A migration of one statement that asks not to run in a transaction.\<close>

definition online_migration :: migration where
  "online_migration = demo_migration\<lparr>mig_up_script := directive_header_for directive_no_transaction @ NL # ''A''\<rparr>"

lemma online_header:
  "parse_directive_header (mig_up_script online_migration) = Inr ([directive_no_transaction \<mapsto> True], ''A'')"
  by (simp add: online_migration_def go_eval)

lemma online_split: "split_sql_statements U ''A'' = Inr [''A'']"
  by (simp add: go_eval string_eval)

lemma online_simps: "script_no_tx (mig_up_script online_migration)"
  "script_steps demo_unicode (mig_up_script online_migration) = [''A'']"
  "tidy_script demo_unicode (ref_tidy ''m'') (mig_up_script online_migration)" "mig_id online_migration = ''1''"
  using demo_tidy(1) by (simp_all add: script_no_tx_def script_steps_def tidy_script_def online_header has_directive_def online_split
      demo_header) (simp_all add: online_migration_def)

lemma empty_view: "ref_view (demo_world (Some []) fs b) = \<lparr>v_rows = Some [], v_ran = [], v_locks = [], v_out = {}\<rparr>"
  by (simp add: ref_view_def keyed_def demo_world_def)

lemma empty_unstranded: "unstranded (ref_view (demo_world (Some []) fs b))"
  by (simp add: empty_view unstranded_def)

lemma trim_A: "trim_space ''A'' = ''A''"
  by (simp add: go_eval string_eval)

lemma ref_exec_insert: "ref_exec ref (insert_sql ref) [TextArg i, TextArg us, TextArg ds, TextArg e] now v = ref_insert i us ds (Some e) now v"
  by (simp add: ref_exec_def)

lemmas online_eval = demo_world_def online_header online_split has_directive_def online_simps trim_A demo_texts
  ref_exec_insert ref_insert_def rows_of_def

lemma online_fails:
  "\<exists>w' e. apply_migration (ref_db (\<lambda>c. c = Caller) ''m'') demo_unicode ''m'' Caller online_migration
      (demo_world (Some []) [None, Some (Refused ''boom'')] False) = (w', Inl e)
     \<and> \<not> error_is e ErrUnrecorded \<and> rows_of (ref_view w') \<noteq> []"
  by (simp add: run_eval online_eval cong: run_congs)

text \<open>
  C16: a migration that fails outside a transaction leaves its mark. Unless the error says \<open>ErrUnrecorded\<close>, either
  nothing has happened or a row with the migration's scripts and the error's text has been written, after
  the statements that had already run.
\<close>

theorem notransaction_failure_is_recorded:
  assumes "sql_database D ref view tx_view tx_session tidy" "unstranded (view w)"
    and "tidy_script U tidy (mig_up_script m)" "script_no_tx (mig_up_script m)"
    and "apply_migration D U ref c m w = (w', Inl e)" "\<not> error_is e ErrUnrecorded"
  shows "view w' = view w
    \<or> (\<exists>k rs row. v_ran (view w') = v_ran (view w) @ take k (script_steps U (mig_up_script m))
         \<and> v_rows (view w) = Some rs \<and> v_rows (view w') = Some (rs @ [row]) \<and> row_id row = mig_id m
         \<and> row_up row = mig_up_script m \<and> row_down row = mig_down_script m \<and> row_error row = Some (error_string e))"
proof -
  have "apply_failed U m e (view w) (view w')"
    using sql_database.apply_migration_wp [OF assms(1,3,2), of c] assms(5) by (auto simp: wp_def)
  then show ?thesis
    using assms(4,6) by (auto simp: apply_failed_def inserted_def Let_def intro!: exI)
qed

theorem notransaction_failure_is_recorded_witness:
  "\<exists>w' e row. apply_migration (ref_db (\<lambda>c. c = Caller) ''m'') demo_unicode ''m'' Caller online_migration
      (demo_world (Some []) [None, Some (Refused ''boom'')] False) = (w', Inl e)
     \<and> v_rows (ref_view w') = Some [row] \<and> row_error row = Some (error_string e)"
proof -
  obtain w' e where run: "apply_migration (ref_db (\<lambda>c. c = Caller) ''m'') demo_unicode ''m'' Caller online_migration
      (demo_world (Some []) [None, Some (Refused ''boom'')] False) = (w', Inl e)"
    and e: "\<not> error_is e ErrUnrecorded" "rows_of (ref_view w') \<noteq> []"
    using online_fails by blast
  from notransaction_failure_is_recorded [OF ref_db_laws empty_unstranded online_simps(3,1) run e(1)] run e(2)
  show ?thesis by (auto simp: empty_view rows_of_def)
qed

text \<open>
  the mark does not depend on the caller still waiting. When the server answers valid writes that are not
  under the caller's context, the failure is never unrecorded, even if the caller's context has ended.
\<close>

theorem cancelled_failure_is_recorded:
  assumes "sql_database D ref view tx_view tx_session tidy" "unstranded (view w)" "answers_detached D ref view"
    and "tidy_script U tidy (mig_up_script m)" "script_no_tx (mig_up_script m)"
    and "v_rows (view w) = Some rs" "mig_id m \<notin> set (row_ids rs)"
    and "apply_migration D U ref c m w = (w', Inl e)"
  shows "view w' = view w
    \<or> (\<exists>k row. v_ran (view w') = v_ran (view w) @ take k (script_steps U (mig_up_script m))
         \<and> v_rows (view w') = Some (rs @ [row]) \<and> row_id row = mig_id m \<and> row_error row = Some (error_string e))"
proof -
  have "view w' = view w
      \<or> (\<exists>k. recorded m (Some (error_string e)) (ran (take k (script_steps U (mig_up_script m))) (view w)) (view w'))"
    using sql_database.apply_detached [OF assms(1,3,6,7,4,2,5), of c] assms(8) by (auto simp: wp_def)
  then show ?thesis using assms(6) by (auto simp: inserted_def)
qed

lemma demo_answers_detached: "answers_detached (ref_db (\<lambda>c. c = Caller) ref) ref ref_view"
proof -
  have "is_ok (snd (exec_db (ref_db (\<lambda>c. c = Caller) ref) Detached (insert_sql ref)
      [TextArg i, TextArg us, TextArg ds, null_string err] w))"
    if "v_rows (ref_view w) = Some rs" "i \<notin> set (row_ids rs)" for w rs i us ds err
    using that by (simp add: ref_db_def lift_sql_def ref_op_def ref_pool_exec_def ref_insert_def fault_at_def)
  then show ?thesis unfolding answers_detached_def by blast
qed

theorem cancelled_failure_is_recorded_witness:
  "\<exists>w' e row. apply_migration (ref_db (\<lambda>c. c = Caller) ''m'') demo_unicode ''m'' Caller online_migration
      (demo_world (Some []) [None, Some (Refused ''context canceled'')] False) = (w', Inl e)
     \<and> v_rows (ref_view w') = Some [row] \<and> row_error row = Some (error_string e)"
proof -
  obtain w' e where run: "apply_migration (ref_db (\<lambda>c. c = Caller) ''m'') demo_unicode ''m'' Caller online_migration
      (demo_world (Some []) [None, Some (Refused ''context canceled'')] False) = (w', Inl e)"
    and e: "rows_of (ref_view w') \<noteq> []"
    by (simp add: run_eval online_eval cong: run_congs)
  from cancelled_failure_is_recorded [OF ref_db_laws empty_unstranded demo_answers_detached online_simps(3,1) _ _ run] run e
  show ?thesis by (auto simp: empty_view rows_of_def)
qed

section \<open>Rolling back one migration\<close>



section \<open>Executing a plan\<close>

text \<open>
  C14: \<open>ExecutePlan\<close> refines the abstract ledger. Without an error it makes the steps of the plan, rollbacks before
  applications, and reports the whole plan; with an error the steps it reports are a beginning of the plan
  and were made, and what it left beyond them is what one failed step can leave.
\<close>

theorem plan_execution_refines:
  assumes "sql_database D ref view tx_view tx_session tidy" "unstranded (view w)"
    and "plan_runnable U tidy plan all_migrations (view w)" "execute_plan D U ref c plan all_migrations w = (w', x, err)"
  shows "case err of
      None \<Rightarrow> (\<exists>vr. rolled_back U (ids (to_rollback plan)) (view w) vr \<and> applied U (to_apply plan) vr (view w'))
        \<and> ex_applied x = to_apply plan \<and> ex_rolled_back x = to_rollback plan
    | Some e \<Rightarrow> prefix (ex_rolled_back x) (to_rollback plan) \<and> prefix (ex_applied x) (to_apply plan)
        \<and> plan_failed U plan (ex_rolled_back x) (ex_applied x) e (view w) (view w')"
proof (cases err)
  case None
  then show ?thesis
    using sql_database.execute_plan_spec [OF assms(1,3,2,4)] by (simp add: plan_done_def)
next
  case (Some e)
  then have f: "plan_failed U plan (ex_rolled_back x) (ex_applied x) e (view w) (view w')"
    using sql_database.execute_plan_spec [OF assms(1,3,2,4)] by simp
  then have "prefix (ex_rolled_back x) (to_rollback plan) \<and> prefix (ex_applied x) (to_apply plan)"
    unfolding plan_failed_def using step_failed_prefix by auto
  with f Some show ?thesis by simp
qed

theorem plan_execution_refines_witness:
  "\<exists>w' vr. v_rows (ref_view w') \<noteq> None \<and> applied demo_unicode [demo_migration] vr (ref_view w')"
proof -
  let ?plan = "\<lparr>to_rollback = [], to_apply = [demo_migration], plan_interleaved = []\<rparr>"
  let ?w = "demo_world (Some []) [] False"
  have runnable: "plan_runnable demo_unicode (ref_tidy ''m'') ?plan [demo_migration] (ref_view ?w)"
    by (simp add: plan_runnable_def tidy_migrations_def demo_tidy id_map_def)
  obtain w' x where run: "execute_plan (ref_db (\<lambda>_. False) ''m'') demo_unicode ''m'' Caller ?plan [demo_migration] ?w = (w', x, None)"
    and v: "v_rows (ref_view w') \<noteq> None"
    by (simp add: run_eval demo_eval cong: run_congs)
  from plan_execution_refines [OF ref_db_laws empty_unstranded runnable run] v show ?thesis by auto
qed

end
