(* ===== verification/Timestamps.thy ===== *)
theory Timestamps
  imports Go_Strings
begin

text \<open>
  The stamps of cmd/pg-migrate/new.go: \<open>time.Time.Format\<close> with the layout \<open>20060102150405\<close>, on the seconds
  since the Unix epoch. The calendar is the proleptic Gregorian one that package \<open>time\<close> uses.
\<close>

section \<open>The calendar\<close>

text \<open>Days from the first of January of year 0 to the first of January of year \<open>y\<close>.\<close>

definition days_before_year :: "nat \<Rightarrow> nat" where
  "days_before_year y = 365 * y + (y + 3) div 4 + (y + 399) div 400 - (y + 99) div 100"

definition year_of_day :: "nat \<Rightarrow> nat" where
  "year_of_day d =
     (let y = d * 400 div 146097
      in if days_before_year (y + 1) \<le> d then y + 1 else if d < days_before_year y then y - 1 else y)"

definition leap_year :: "nat \<Rightarrow> bool" where
  "leap_year y \<longleftrightarrow> y mod 4 = 0 \<and> (y mod 100 \<noteq> 0 \<or> y mod 400 = 0)"

definition month_lengths :: "bool \<Rightarrow> nat list" where
  "month_lengths leap = [31, if leap then 29 else 28, 31, 30, 31, 30, 31, 31, 30, 31, 30, 31]"

fun month_and_day :: "nat \<Rightarrow> nat list \<Rightarrow> nat \<Rightarrow> nat \<times> nat" where
  "month_and_day m [] d = (m, d + 1)"
| "month_and_day m (l # ls) d = (if d < l then (m, d + 1) else month_and_day (m + 1) ls (d - l))"

section \<open>The layout\<close>

definition pad :: "nat \<Rightarrow> nat \<Rightarrow> string" where
  "pad w n = replicate (w - length (show_nat n)) (CHR ''0'') @ show_nat n"

definition format_stamp :: "nat \<Rightarrow> string" where
  "format_stamp t =
     (let d = t div 86400 + 719528; s = t mod 86400; y = year_of_day d;
          (m, dd) = month_and_day 1 (month_lengths (leap_year y)) (d - days_before_year y)
      in pad 4 y @ pad 2 m @ pad 2 dd @ pad 2 (s div 3600) @ pad 2 (s div 60 mod 60) @ pad 2 (s mod 60))"

section \<open>Years\<close>

lemma days_before_year_bounds:
  "146097 * y \<le> 400 * days_before_year y + 396" "400 * days_before_year y \<le> 146097 * y + 699"
proof -
  define a b c where abc: "a = (y + 3) div 4" "b = (y + 399) div 400" "c = (y + 99) div 100"
  have "4 * a \<le> y + 3" "y \<le> 4 * a" "400 * b \<le> y + 399" "y \<le> 400 * b" "100 * c \<le> y + 99" "y \<le> 100 * c"
    unfolding abc by simp_all
  moreover have "days_before_year y + c = 365 * y + a + b"
    using calculation by (simp add: days_before_year_def abc)
  ultimately show "146097 * y \<le> 400 * days_before_year y + 396" "400 * days_before_year y \<le> 146097 * y + 699"
    by linarith+
qed

lemma year_of_day:
  "days_before_year (year_of_day d) \<le> d \<and> d < days_before_year (year_of_day d + 1)"
proof -
  define y where "y = d * 400 div 146097"
  have y: "146097 * y \<le> 400 * d" "400 * d < 146097 * (y + 1)" by (simp_all add: y_def)
  have next2: "d < days_before_year (y + 2)" using y days_before_year_bounds(1) [of "y + 2"] by simp
  have prev: "days_before_year (y - 1) \<le> d" if "0 < y"
    using that y days_before_year_bounds(2) [of "y - 1"] by simp
  have "days_before_year 0 = 0" by (simp add: days_before_year_def)
  then have "0 < y" if "d < days_before_year y" using that by (cases y) auto
  then show ?thesis
    using next2 prev unfolding year_of_day_def y_def [symmetric] Let_def by auto
qed

lemma days_before_year_Suc: "days_before_year (y + 1) = days_before_year y + (if leap_year y then 366 else 365)"
proof -
  have step: "(y + 1 + (k - 1)) div k = (y + (k - 1)) div k + (if y mod k = 0 then 1 else 0)" if "0 < k" for k
    using that div_Suc [of "y + (k - 1)" k] by (simp add: mod_add_self2)
  define a b c where abc: "a = (y + 3) div 4" "b = (y + 399) div 400" "c = (y + 99) div 100"
  have "100 * c \<le> y + 99" by (simp add: abc)
  then have c: "c \<le> 365 * y + a + b" by linarith
  have "y mod 4 = 0" if "y mod 100 = 0"
    using that dvd_trans [of 4 100 y] by (simp add: mod_eq_0_iff_dvd)
  moreover have "y mod 100 = 0" if "y mod 400 = 0"
    using that dvd_trans [of 100 400 y] by (simp add: mod_eq_0_iff_dvd)
  moreover have "days_before_year y = 365 * y + a + b - c"
    "days_before_year (y + 1) = 365 * y + 365 + (a + (if y mod 4 = 0 then 1 else 0))
       + (b + (if y mod 400 = 0 then 1 else 0)) - (c + (if y mod 100 = 0 then 1 else 0))"
    using step [of 4] step [of 100] step [of 400] by (simp_all add: days_before_year_def abc add.commute)
  ultimately show ?thesis using c by (auto simp: leap_year_def split: if_splits)
qed

lemma days_before_year_mono: "a \<le> b \<Longrightarrow> days_before_year a \<le> days_before_year b"
proof (induction b)
  case (Suc b)
  then show ?case using days_before_year_Suc [of b] by (cases "a = Suc b") (auto simp: le_Suc_eq)
qed simp

section \<open>Months\<close>

lemma month_and_day_bounds:
  assumes "d < sum_list ls" "\<forall>l \<in> set ls. l \<le> 31"
  shows "m \<le> fst (month_and_day m ls d)" "fst (month_and_day m ls d) < m + length ls"
    "1 \<le> snd (month_and_day m ls d)" "snd (month_and_day m ls d) \<le> 31"
proof -
  have "m \<le> fst (month_and_day m ls d) \<and> fst (month_and_day m ls d) < m + length ls
    \<and> 1 \<le> snd (month_and_day m ls d) \<and> snd (month_and_day m ls d) \<le> 31"
    using assms
  proof (induction ls arbitrary: m d)
    case (Cons l ls)
    show ?case
    proof (cases "d < l")
      case False
      then have "m + 1 \<le> fst (month_and_day (m + 1) ls (d - l)) \<and> fst (month_and_day (m + 1) ls (d - l)) < m + 1 + length ls
          \<and> 1 \<le> snd (month_and_day (m + 1) ls (d - l)) \<and> snd (month_and_day (m + 1) ls (d - l)) \<le> 31"
        using Cons.prems by (intro Cons.IH) auto
      with False show ?thesis by simp
    qed (use Cons.prems in auto)
  qed simp
  then show "m \<le> fst (month_and_day m ls d)" "fst (month_and_day m ls d) < m + length ls"
    "1 \<le> snd (month_and_day m ls d)" "snd (month_and_day m ls d) \<le> 31" by blast+
qed

lemma month_and_day_mono:
  assumes "d < d'" "d' < sum_list ls" "\<forall>l \<in> set ls. l \<le> 31"
  shows "100 * fst (month_and_day m ls d) + snd (month_and_day m ls d)
    < 100 * fst (month_and_day m ls d') + snd (month_and_day m ls d')"
  using assms
proof (induction ls arbitrary: m d d')
  case (Cons l ls)
  show ?case
  proof (cases "d' < l")
    case False
    have "m + 1 \<le> fst (month_and_day (m + 1) ls (d' - l))"
      by (rule month_and_day_bounds) (use Cons.prems False in auto)
    moreover have "d < l \<Longrightarrow> l \<le> 31" using Cons.prems by simp
    moreover have "\<not> d < l \<Longrightarrow> 100 * fst (month_and_day (m + 1) ls (d - l)) + snd (month_and_day (m + 1) ls (d - l))
        < 100 * fst (month_and_day (m + 1) ls (d' - l)) + snd (month_and_day (m + 1) ls (d' - l))"
      using Cons.prems False by (intro Cons.IH) auto
    ultimately show ?thesis using False by auto
  qed (use Cons.prems in auto)
qed simp

section \<open>Digits\<close>

lemma length_show_nat: "n < 10 ^ w \<Longrightarrow> 0 < w \<Longrightarrow> length (show_nat n) \<le> w"
proof (induction w arbitrary: n)
  case (Suc w)
  show ?case
  proof (cases "n < 10")
    case False
    then have "0 < w" using Suc.prems by (cases w) auto
    moreover have "n div 10 < 10 ^ w" using Suc.prems(1) by (simp add: less_mult_imp_div_less mult.commute)
    ultimately show ?thesis using Suc.IH [of "n div 10"] False by (simp add: show_nat.simps [of n])
  qed (simp add: show_nat.simps [of n])
qed simp

lemma digit_char_0: "digit_char 0 = CHR ''0''"
  by (simp add: digit_char_def char_of_def bit_0)

lemma pad_Suc: "n < 10 ^ Suc w \<Longrightarrow> 0 < w \<Longrightarrow> pad (Suc w) n = pad w (n div 10) @ [digit_char (n mod 10)]"
proof (cases "n < 10")
  case True
  then show "0 < w \<Longrightarrow> pad (Suc w) n = pad w (n div 10) @ [digit_char (n mod 10)]"
    by (cases w) (simp_all add: pad_def show_nat.simps [of n] show_nat.simps [of 0] digit_char_0 replicate_append_same [symmetric])
qed (simp add: pad_def show_nat.simps [of n])

lemma pad_1: "n < 10 \<Longrightarrow> pad 1 n = [digit_char n]"
  by (simp add: pad_def show_nat.simps [of n])

text \<open>The digits of fixed width, and that they sort as the numbers do.\<close>

fun digits :: "nat \<Rightarrow> nat \<Rightarrow> string" where
  "digits 0 n = []"
| "digits (Suc w) n = digits w (n div 10) @ [digit_char (n mod 10)]"

lemma pad_digits: "n < 10 ^ w \<Longrightarrow> 0 < w \<Longrightarrow> pad w n = digits w n"
proof (induction w arbitrary: n)
  case (Suc w)
  show ?case
  proof (cases "w = 0")
    case True
    then show ?thesis using Suc.prems pad_1 [of n] by simp
  next
    case False
    have "n div 10 < 10 ^ w" using Suc.prems(1) by (simp add: less_mult_imp_div_less mult.commute)
    then show ?thesis using Suc.IH pad_Suc [OF Suc.prems(1)] False by simp
  qed
qed simp

lemma length_digits [simp]: "length (digits w n) = w"
  by (induction w arbitrary: n) auto

lemma digits_append: "digits (v + w) n = digits v (n div 10 ^ w) @ digits w n"
proof (induction w arbitrary: n)
  case (Suc w)
  have "n div 10 div 10 ^ w = n div 10 ^ Suc w" by (simp add: div_mult2_eq)
  then show ?case using Suc [of "n div 10"] by simp
qed simp

lemma digits_add: "digits w (a * 10 ^ w + b) = digits w b"
proof (induction w arbitrary: b)
  case (Suc w)
  have "(a * 10 ^ Suc w + b) div 10 = a * 10 ^ w + b div 10" "(a * 10 ^ Suc w + b) mod 10 = b mod 10"
    by (simp_all add: mult.assoc [symmetric] mult.commute [of _ 10] mod_add_eq [symmetric])
  with Suc show ?case by simp
qed simp

lemma digits_join: "b < 10 ^ w \<Longrightarrow> digits v a @ digits w b = digits (v + w) (a * 10 ^ w + b)"
  by (simp add: digits_append digits_add)

lemma less_append: "length xs = length ys \<Longrightarrow> xs < ys \<Longrightarrow> xs @ us < ys @ vs" for xs ys us vs :: string
  by (induction xs ys rule: list_induct2) auto

lemma same_append_less: "xs @ us < xs @ vs \<longleftrightarrow> us < vs" for xs us vs :: string
  by (induction xs) auto

lemma digit_char_less: "n < m \<Longrightarrow> m < 10 \<Longrightarrow> digit_char n < digit_char m"
  by (simp add: digit_char_def less_char_def)

lemma digits_less: "n < m \<Longrightarrow> m < 10 ^ w \<Longrightarrow> digits w n < digits w m"
proof (induction w arbitrary: n m)
  case (Suc w)
  show ?case
  proof (cases "n div 10 = m div 10")
    case True
    then have "n mod 10 < m mod 10" using Suc.prems(1) by (metis div_mult_mod_eq nat_add_left_cancel_less)
    then show ?thesis using True by (simp add: same_append_less digit_char_less)
  next
    case False
    then have "n div 10 < m div 10" using Suc.prems(1) by (meson div_le_mono le_neq_implies_less less_imp_le)
    moreover have "m div 10 < 10 ^ w" using Suc.prems(2) by (simp add: less_mult_imp_div_less mult.commute)
    ultimately show ?thesis by (simp add: less_append Suc.IH)
  qed
qed simp

section \<open>Stamps sort by time\<close>

definition day_number :: "nat \<Rightarrow> nat" where
  "day_number d =
     (let y = year_of_day d; (m, dd) = month_and_day 1 (month_lengths (leap_year y)) (d - days_before_year y)
      in y * 10000 + (m * 100 + dd))"

definition clock_number :: "nat \<Rightarrow> nat" where
  "clock_number s = (s div 3600) * 10000 + ((s div 60 mod 60) * 100 + s mod 60)"

text \<open>The last moment of the year 9999 is the last one with a year of four digits.\<close>

definition four_digit_time :: "nat \<Rightarrow> bool" where
  "four_digit_time t \<longleftrightarrow> year_of_day (t div 86400 + 719528) < 10000"

lemma day_of_year: "d - days_before_year (year_of_day d) < sum_list (month_lengths (leap_year (year_of_day d)))"
  using year_of_day [of d] days_before_year_Suc [of "year_of_day d"] by (auto simp: month_lengths_def split: if_splits)

lemma month_lengths_31: "\<forall>l \<in> set (month_lengths leap). l \<le> 31"
  by (simp add: month_lengths_def)

lemma month_and_day_day:
  "month_and_day 1 (month_lengths (leap_year (year_of_day d))) (d - days_before_year (year_of_day d)) = (m, dd) \<Longrightarrow>
     m \<le> 12 \<and> dd \<le> 31"
  using month_and_day_bounds [OF day_of_year month_lengths_31, of 1 d] by (auto simp: month_lengths_def)

lemma format_stamp_number:
  assumes "four_digit_time t"
  shows "format_stamp t = digits 14 (day_number (t div 86400 + 719528) * 10 ^ 6 + clock_number (t mod 86400))"
    "day_number (t div 86400 + 719528) < 10 ^ 8" "clock_number (t mod 86400) < 10 ^ 6"
proof -
  define d s where ds: "d = t div 86400 + 719528" "s = t mod 86400"
  define y where "y = year_of_day d"
  obtain m dd where md: "month_and_day 1 (month_lengths (leap_year y)) (d - days_before_year y) = (m, dd)" by force
  have y: "y < 10 ^ 4" using assms by (simp add: four_digit_time_def y_def ds)
  have b: "m \<le> 12" "dd \<le> 31" using month_and_day_day md unfolding y_def by blast+
  have "s < 86400" by (simp add: ds)
  then have c: "s div 3600 < 10 ^ 2" "s div 60 mod 60 < 10 ^ 2" "s mod 60 < 10 ^ 2"
    by (simp_all add: less_mult_imp_div_less less_trans [OF mod_less_divisor])
  have day: "day_number d = y * 10 ^ 4 + (m * 10 ^ 2 + dd)"
    unfolding day_number_def Let_def y_def [symmetric] md by simp
  have clock: "clock_number s = (s div 3600) * 10 ^ 4 + ((s div 60 mod 60) * 10 ^ 2 + s mod 60)"
    by (simp add: clock_number_def)
  have "format_stamp t = (digits 4 y @ (digits 2 m @ digits 2 dd)) @ (digits 2 (s div 3600) @ (digits 2 (s div 60 mod 60) @ digits 2 (s mod 60)))"
    unfolding format_stamp_def Let_def ds [symmetric] y_def [symmetric] md prod.case
    using y b c by (simp add: pad_digits)
  also have "\<dots> = digits (4 + (2 + 2)) (day_number d) @ digits (2 + (2 + 2)) (clock_number s)"
    unfolding day clock using b c by (simp add: digits_join)
  finally have f: "format_stamp t = digits 8 (day_number d) @ digits 6 (clock_number s)" by simp
  have small: "day_number d < 10 ^ 8" "clock_number s < 10 ^ 6" unfolding day clock using y b c by simp_all
  with f show "format_stamp t = digits 14 (day_number (t div 86400 + 719528) * 10 ^ 6 + clock_number (t mod 86400))"
    "day_number (t div 86400 + 719528) < 10 ^ 8" "clock_number (t mod 86400) < 10 ^ 6"
    by (simp_all add: ds digits_join)
qed

lemma day_number_mono:
  assumes "d < d'"
  shows "day_number d < day_number d'"
proof -
  define y y' where ys: "y = year_of_day d" "y' = year_of_day d'"
  obtain m dd m' dd' where md: "month_and_day 1 (month_lengths (leap_year y)) (d - days_before_year y) = (m, dd)"
    "month_and_day 1 (month_lengths (leap_year y')) (d' - days_before_year y') = (m', dd')" by force
  have n: "day_number d = y * 10000 + (m * 100 + dd)" "day_number d' = y' * 10000 + (m' * 100 + dd')"
    unfolding day_number_def Let_def ys [symmetric] md by simp_all
  have b: "m \<le> 12" "dd \<le> 31" using month_and_day_day md(1) unfolding ys by blast+
  have "y \<le> y'"
  proof (rule ccontr)
    assume "\<not> y \<le> y'"
    then have "days_before_year (y' + 1) \<le> days_before_year y" by (intro days_before_year_mono) simp
    then show False using year_of_day [of d] year_of_day [of d'] assms by (simp add: ys)
  qed
  show ?thesis
  proof (cases "y = y'")
    case True
    have "d - days_before_year y < d' - days_before_year y"
      using assms year_of_day [of d] True by (auto simp: ys)
    moreover have "d' - days_before_year y < sum_list (month_lengths (leap_year y))"
      using day_of_year [of d'] unfolding ys(2) [symmetric] True [symmetric] .
    ultimately have "100 * m + dd < 100 * m' + dd'"
      using month_and_day_mono [OF _ _ month_lengths_31, of _ _ _ 1] md unfolding True [symmetric] by (metis fst_conv snd_conv)
    then show ?thesis unfolding n True by simp
  next
    case False
    then show ?thesis using \<open>y \<le> y'\<close> b unfolding n by simp
  qed
qed

lemma sixty_split:
  fixes v q :: nat
  assumes "v < 60"
  shows "(v + 60 * q) div 60 = q" "(v + 60 * q) mod 60 = v"
  using assms by simp_all

lemma clock_parts:
  fixes u v h :: nat
  assumes "v < 60" "u < 60"
  shows "(h * 3600 + (u * 60 + v)) div 60 mod 60 = u" "(h * 3600 + (u * 60 + v)) mod 60 = v"
proof -
  have e: "h * 3600 + (u * 60 + v) = v + 60 * (u + 60 * h)" by simp
  show "(h * 3600 + (u * 60 + v)) div 60 mod 60 = u" "(h * 3600 + (u * 60 + v)) mod 60 = v"
    unfolding e sixty_split [OF assms(1)] sixty_split [OF assms(2)] by (rule refl)+
qed

lemma clock_number_mono:
  assumes "s < s'" "s' < 86400"
  shows "clock_number s < clock_number s'"
proof -
  define h h' r r' where hr: "h = s div 3600" "h' = s' div 3600" "r = s mod 3600" "r' = s' mod 3600"
  define u v u' v' where uv: "u = r div 60" "v = r mod 60" "u' = r' div 60" "v' = r' mod 60"
  have e: "s = h * 3600 + r" "s' = h' * 3600 + r'" "r = u * 60 + v" "r' = u' * 60 + v'" by (simp_all add: hr uv)
  have b: "r < 3600" "r' < 3600" "v < 60" "v' < 60" by (simp_all add: hr uv)
  then have "u < 60" "u' < 60" by (simp_all add: uv less_mult_imp_div_less)
  have c: "s div 60 mod 60 = u" "s mod 60 = v" "s' div 60 mod 60 = u'" "s' mod 60 = v'"
    using clock_parts [of v u h] clock_parts [of v' u' h'] b \<open>u < 60\<close> \<open>u' < 60\<close> e by simp_all
  have "h < h' \<or> h = h' \<and> (u < u' \<or> u = u' \<and> v < v')" using assms(1) e b \<open>u < 60\<close> \<open>u' < 60\<close> by linarith
  then show ?thesis
    using b \<open>u < 60\<close> \<open>u' < 60\<close> unfolding clock_number_def c hr(1,2) [symmetric] by linarith
qed

text \<open>
  Stamps sort lexicographically as the moments they stand for, up to the end of the year 9999; no two of
  these are equal, and a later stamp is longer.
\<close>

lemma format_stamp_mono:
  assumes "t < t'" "four_digit_time t" "four_digit_time t'"
  shows "format_stamp t < format_stamp t'"
proof -
  let ?n = "\<lambda>t. day_number (t div 86400 + 719528) * 10 ^ 6 + clock_number (t mod 86400)"
  note f = format_stamp_number [OF assms(2)] and f' = format_stamp_number [OF assms(3)]
  have "?n t < ?n t'"
  proof (cases "t div 86400 = t' div 86400")
    case True
    then have "t mod 86400 < t' mod 86400" using assms(1) by (metis div_mult_mod_eq nat_add_left_cancel_less)
    then have "clock_number (t mod 86400) < clock_number (t' mod 86400)" by (rule clock_number_mono) simp
    then show ?thesis by (simp add: True)
  next
    case False
    then have "t div 86400 < t' div 86400" using assms(1) by (meson div_le_mono le_neq_implies_less less_imp_le)
    then have "day_number (t div 86400 + 719528) < day_number (t' div 86400 + 719528)" by (intro day_number_mono) simp
    then show ?thesis using f(3) by simp
  qed
  moreover have "?n t' < 10 ^ 14" using f'(2,3) by simp
  ultimately show ?thesis unfolding f(1) f'(1) by (rule digits_less)
qed

lemma length_show_nat_more: "10 ^ w \<le> n \<Longrightarrow> w < length (show_nat n)"
proof (induction w arbitrary: n)
  case (Suc w)
  have "10 ^ w \<le> n div 10" using Suc.prems by (simp add: less_eq_div_iff_mult_less_eq mult.commute)
  moreover have "0 < (10::nat) ^ w" by simp
  ultimately have "0 < n div 10" "10 ^ w \<le> n div 10" by linarith+
  then show ?case using Suc.IH [of "n div 10"] by (simp add: show_nat.simps [of n])
next
  case 0
  then show ?case by (simp add: show_nat.simps [of n])
qed

lemma length_pad: "w \<le> length (pad w n)" "10 ^ w \<le> n \<Longrightarrow> w < length (pad w n)"
  using length_show_nat_more [of w n] by (simp_all add: pad_def)

lemma length_format_stamp: "length (format_stamp t) = 14 \<longleftrightarrow> four_digit_time t"
proof (cases "four_digit_time t")
  case False
  define d y where dy: "d = t div 86400 + 719528" "y = year_of_day d"
  obtain m dd where md: "month_and_day 1 (month_lengths (leap_year y)) (d - days_before_year y) = (m, dd)" by force
  have "4 < length (pad 4 y)" using False by (intro length_pad(2)) (simp add: four_digit_time_def dy)
  moreover have "length (format_stamp t) = length (pad 4 y) + length (pad 2 m) + length (pad 2 dd)
      + length (pad 2 (t mod 86400 div 3600)) + length (pad 2 (t mod 86400 div 60 mod 60)) + length (pad 2 (t mod 86400 mod 60))"
    unfolding format_stamp_def Let_def dy [symmetric] md by simp
  ultimately have "14 < length (format_stamp t)"
    using length_pad(1) [of 2 m] length_pad(1) [of 2 dd] length_pad(1) [of 2 "t mod 86400 div 3600"]
      length_pad(1) [of 2 "t mod 86400 div 60 mod 60"] length_pad(1) [of 2 "t mod 86400 mod 60"] by linarith
  with False show ?thesis by simp
qed (simp add: format_stamp_number(1))

text \<open>The first second of the year 10000.\<close>

definition year_10000 :: nat where "year_10000 = 253402300800"

lemma four_digit_time_bound: "four_digit_time t \<Longrightarrow> t < year_10000"
proof -
  assume "four_digit_time t"
  then have "days_before_year (year_of_day (t div 86400 + 719528) + 1) \<le> days_before_year 10000"
    by (intro days_before_year_mono) (simp add: four_digit_time_def)
  then have "t div 86400 + 719528 < days_before_year 10000" using year_of_day [of "t div 86400 + 719528"] by linarith
  then have "t div 86400 < 2932897" by (simp add: days_before_year_def)
  then show ?thesis using div_less_iff_less_mult [of 86400 t 2932897] by (simp add: year_10000_def)
qed

lemma four_digit_timeI: "t < year_10000 \<Longrightarrow> four_digit_time t"
proof -
  assume "t < year_10000"
  then have "t div 86400 + 719528 < days_before_year 10000"
    using less_mult_imp_div_less [of t 2932897 86400] by (simp add: year_10000_def days_before_year_def)
  then have "\<not> 10000 \<le> year_of_day (t div 86400 + 719528)"
    using days_before_year_mono [of 10000 "year_of_day (t div 86400 + 719528)"] year_of_day [of "t div 86400 + 719528"]
    by linarith
  then show ?thesis by (simp add: four_digit_time_def)
qed

end
