(* ===== verification/New_Command.thy ===== *)
theory New_Command
  imports Ascii_Text Timestamps Source_FS "HOL-Library.AList"
begin

text \<open>
  \<open>cmd/pg-migrate/new.go\<close>, the command that scaffolds a migration: the name made into an identifier, the
  four file templates, the free timestamp, and the two files. The part of package \<open>os\<close> it uses is a small
  file system of its own; time is the seconds since the Unix epoch.
\<close>

section \<open>slugify\<close>

definition max_slug_length :: nat where "max_slug_length = 100"

definition slug_rune :: "unicode \<Rightarrow> nat \<Rightarrow> bool" where
  "slug_rune U r \<longleftrightarrow> r < 0x7F \<and> (is_letter U r \<or> is_digit U r)"

text \<open>The loop, as the text it appends to the builder.\<close>

fun slug_loop :: "unicode \<Rightarrow> bool \<Rightarrow> (nat \<times> string) list \<Rightarrow> string" where
  "slug_loop U last_underscore [] = []"
| "slug_loop U last_underscore ((r, b) # rs) =
     (if slug_rune U r then encode_rune r @ slug_loop U False rs
      else if \<not> last_underscore then CHR ''_'' # slug_loop U True rs
      else slug_loop U last_underscore rs)"

definition slugify :: "unicode \<Rightarrow> string \<Rightarrow> string result" where
  "slugify U name =
     (let slug = trim_set ''_'' (slug_loop U True (runes (to_lower U (trim_space name))))
      in if slug = [] then
           Inl (Errorf [Lit ''migration name '', Quo name, Lit '' has no letters or digits to build an identifier from''])
         else Inr (if max_slug_length < length slug then trim_set ''_'' (take max_slug_length slug) else slug))"

section \<open>The templates\<close>

definition text_lines :: "string list \<Rightarrow> string" where
  "text_lines ls = concat (map (\<lambda>l. l @ [NL]) ls)"

definition up_template :: "string \<Rightarrow> string" where
  "up_template slug =
     text_lines
       [''-- '' @ slug,
        ''--'',
        ''-- Forward migration. Runs inside a transaction unless the first line of this'',
        ''-- file is:'',
        ''--'',
        ''--   -- +migrate notransaction'',
        ''--'',
        ''-- which is required for statements PostgreSQL refuses inside one, such as'',
        ''-- CREATE INDEX CONCURRENTLY.'',
        []]"

definition down_template :: "string \<Rightarrow> string" where
  "down_template slug =
     text_lines
       [''-- Undo: '' @ slug,
        ''--'',
        ''-- Rollback for the migration above. This script is stored in the database when'',
        ''-- the migration is applied, and it is that stored copy which runs on rollback '' @ [CHR 0xE2, CHR 0x80, CHR 0x94],
        ''-- so it must undo the forward migration on its own.'',
        ''--'',
        ''-- If the change genuinely cannot be undone, replace everything in this file'',
        ''-- with exactly:'',
        ''--'',
        ''--   -- +migrate irreversible'',
        []]"

definition notransaction_template :: "string \<Rightarrow> string" where
  "notransaction_template slug =
     text_lines
       [''-- +migrate notransaction'',
        ''-- '' @ slug,
        ''--'',
        ''-- Runs statement by statement, outside a transaction. A failure partway leaves'',
        ''-- the earlier statements committed and records the migration as failed, which'',
        ''-- blocks every later operation until a human resolves it.'',
        ''--'',
        ''-- All statements run on one dedicated connection, so session state carries'',
        ''-- across them:'',
        ''--'',
        ''--   SET statement_timeout = 0;'',
        ''--   CREATE INDEX CONCURRENTLY ...'',
        []]"

definition irreversible_template :: "string" where
  "irreversible_template =
     text_lines
       [''-- +migrate irreversible'']"

record template_options =
  no_transaction :: bool
  irreversible :: bool

definition up_content :: "template_options \<Rightarrow> string \<Rightarrow> string" where
  "up_content opts slug = (if no_transaction opts then notransaction_template slug else up_template slug)"

definition down_content :: "template_options \<Rightarrow> string \<Rightarrow> string" where
  "down_content opts slug =
     (if irreversible opts then irreversible_template
      else if no_transaction opts then notransaction_template (''Undo: '' @ slug)
      else down_template slug)"

section \<open>Package os\<close>

text \<open>
  Files by their cleaned path, directories, and what the machine refuses: \<open>os_fault\<close> is an error for a call
  other than that a file exists or does not (permissions, a missing parent, a full disk); a write that fails may have written
  \<open>os_short\<close> bytes.
\<close>

datatype os_call = Read_Dir string | Mkdir_All string | Open_New string | Write_File string | Remove_File string

datatype os_error = Os_Exist string | Os_Not_Exist string | Os_Other string

fun os_error_text :: "os_error \<Rightarrow> string" where
  "os_error_text (Os_Exist m) = m"
| "os_error_text (Os_Not_Exist m) = m"
| "os_error_text (Os_Other m) = m"

record os_state =
  os_files :: "(string \<times> string) list"
  os_dirs :: "string list"
  os_fault :: "os_call \<Rightarrow> string option"
  os_short :: nat

text \<open>\<open>filepath.Clean\<close>, \<open>filepath.Join\<close> and \<open>filepath.Base\<close> with the Unix separator.\<close>

definition clean_step :: "bool \<Rightarrow> string list \<Rightarrow> string \<Rightarrow> string list" where
  "clean_step rooted acc c =
     (if c = [] \<or> c = ''.'' then acc
      else if c = ''..'' then
        (if acc = [] then (if rooted then [] else [c]) else if last acc = ''..'' then acc @ [c] else butlast acc)
      else acc @ [c])"

definition clean_path :: "string \<Rightarrow> string" where
  "clean_path p =
     (let rooted = (p \<noteq> [] \<and> hd p = CHR ''/''); s = join ''/'' (foldl (clean_step rooted) [] (split_on (CHR ''/'') p))
      in if rooted then CHR ''/'' # s else if s = [] then ''.'' else s)"

definition filepath_join :: "string \<Rightarrow> string \<Rightarrow> string" where
  "filepath_join d name =
     (if d = [] then (if name = [] then [] else clean_path name) else clean_path (d @ ''/'' @ name))"

definition base_name :: "string \<Rightarrow> string" where
  "base_name p = rev (takeWhile (\<lambda>c. c \<noteq> CHR ''/'') (rev p))"

text \<open>A directory's entries are the files and directories whose path is the directory's joined with their name.\<close>

definition entries_of :: "os_state \<Rightarrow> string \<Rightarrow> dir_entry list" where
  "entries_of w d =
     map (\<lambda>p. \<lparr>entry_name = base_name p, entry_is_dir = False\<rparr>)
       (filter (\<lambda>p. p = filepath_join d (base_name p)) (map fst (os_files w)))
     @ map (\<lambda>p. \<lparr>entry_name = base_name p, entry_is_dir = True\<rparr>)
       (filter (\<lambda>p. p = filepath_join d (base_name p) \<and> p \<noteq> clean_path d) (os_dirs w))"

definition os_read_dir :: "string \<Rightarrow> os_state \<Rightarrow> os_error + dir_entry list" where
  "os_read_dir d w =
     (case os_fault w (Read_Dir d) of
        Some m \<Rightarrow> Inl (Os_Other m)
      | None \<Rightarrow>
          if clean_path d \<in> set (os_dirs w) then Inr (sort_key entry_name (entries_of w d))
          else Inl (Os_Not_Exist (''open '' @ d @ '': no such file or directory'')))"

text \<open>\<open>os.MkdirAll\<close>; the directories above are there or are made too, and are not listed by any call here.\<close>

definition os_mkdir_all :: "string \<Rightarrow> os_state \<Rightarrow> os_state \<times> os_error option" where
  "os_mkdir_all d w =
     (case os_fault w (Mkdir_All d) of
        Some m \<Rightarrow> (w, Some (Os_Other m))
      | None \<Rightarrow>
          if map_of (os_files w) (clean_path d) \<noteq> None
          then (w, Some (Os_Other (''mkdir '' @ d @ '': not a directory'')))
          else (w\<lparr>os_dirs := List.insert (clean_path d) (os_dirs w)\<rparr>, None))"

definition os_open_new :: "string \<Rightarrow> os_state \<Rightarrow> os_state \<times> os_error option" where
  "os_open_new p w =
     (case os_fault w (Open_New p) of
        Some m \<Rightarrow> (w, Some (Os_Other m))
      | None \<Rightarrow>
          if map_of (os_files w) p \<noteq> None \<or> p \<in> set (os_dirs w)
          then (w, Some (Os_Exist (''open '' @ p @ '': file exists'')))
          else (w\<lparr>os_files := (p, []) # os_files w\<rparr>, None))"

text \<open>\<open>WriteString\<close> on the file just made.\<close>

definition os_write :: "string \<Rightarrow> string \<Rightarrow> os_state \<Rightarrow> os_state \<times> os_error option" where
  "os_write p content w =
     (case os_fault w (Write_File p) of
        Some m \<Rightarrow> (w\<lparr>os_files := AList.update p (take (os_short w) content) (os_files w)\<rparr>, Some (Os_Other m))
      | None \<Rightarrow> (w\<lparr>os_files := AList.update p content (os_files w)\<rparr>, None))"

definition os_remove :: "string \<Rightarrow> os_state \<Rightarrow> os_state \<times> os_error option" where
  "os_remove p w =
     (case os_fault w (Remove_File p) of
        Some m \<Rightarrow> (w, Some (Os_Other m))
      | None \<Rightarrow>
          if map_of (os_files w) p = None then (w, Some (Os_Not_Exist (''remove '' @ p @ '': no such file or directory'')))
          else (w\<lparr>os_files := AList.delete p (os_files w)\<rparr>, None))"

text \<open>\<open>os.DirFS\<close>, as the file source reads it.\<close>

definition dir_fs :: "os_state \<Rightarrow> string \<Rightarrow> fsys" where
  "dir_fs w d =
     \<lparr>fs_read_dir = (\<lambda>n. case os_read_dir (if n = ''.'' then d else filepath_join d n) w of
        Inl e \<Rightarrow> Inl (os_error_text e) | Inr es \<Rightarrow> Inr es),
      fs_read_file = (\<lambda>n. case map_of (os_files w) (filepath_join d n) of
        None \<Rightarrow> Inl (''open '' @ n @ '': no such file or directory'') | Some content \<Rightarrow> Inr content)\<rparr>"

section \<open>availableTimestamp\<close>

definition timestamp_length :: nat where "timestamp_length = 14"

definition taken_stamps :: "dir_entry list \<Rightarrow> string list" where
  "taken_stamps entries =
     map (\<lambda>e. take timestamp_length (entry_name e))
       (filter (\<lambda>e. \<not> entry_is_dir e \<and> timestamp_length \<le> length (entry_name e)) entries)"

text \<open>The loop ends because a stamp of more than four year digits is longer than every taken one.\<close>

function next_free :: "dir_entry list \<Rightarrow> nat \<Rightarrow> string" where
  "next_free entries now =
     (if format_stamp now \<in> set (taken_stamps entries) then next_free entries (now + 1) else format_stamp now)"
  by pat_completeness auto
termination
proof (relation "measure (\<lambda>(entries, now). year_10000 - now)")
  fix entries now
  assume "format_stamp now \<in> set (taken_stamps entries)"
  then have "length (format_stamp now) = 14" by (auto simp: taken_stamps_def timestamp_length_def)
  then have "now < year_10000" by (simp add: length_format_stamp four_digit_time_bound)
  then show "((entries, now + 1), entries, now) \<in> measure (\<lambda>(entries, now). year_10000 - now)" by simp
qed simp

declare next_free.simps [simp del]

definition available_timestamp :: "string \<Rightarrow> nat \<Rightarrow> os_state \<Rightarrow> string result" where
  "available_timestamp d now w =
     (case os_read_dir d w of
        Inl (Os_Not_Exist _) \<Rightarrow> Inr (format_stamp now)
      | Inl e \<Rightarrow> Inl (wrapf [Lit ''read migration directory '', Lit d, Lit '': ''] (Extern (os_error_text e)))
      | Inr entries \<Rightarrow> Inr (next_free entries now))"

section \<open>Writing the pair\<close>

definition write_new_file :: "string \<Rightarrow> string \<Rightarrow> os_state \<Rightarrow> os_state \<times> goerr option" where
  "write_new_file p content w =
     (case os_open_new p w of
        (w1, Some (Os_Exist _)) \<Rightarrow> (w1, Some (Errorf [Lit p, Lit '' already exists'']))
      | (w1, Some e) \<Rightarrow> (w1, Some (wrapf [Lit ''create '', Lit p, Lit '': ''] (Extern (os_error_text e))))
      | (w1, None) \<Rightarrow>
          (case os_write p content w1 of
             (w2, Some e) \<Rightarrow> (w2, Some (wrapf [Lit ''write '', Lit p, Lit '': ''] (Extern (os_error_text e))))
           | (w2, None) \<Rightarrow> (w2, None)))"

definition write_migration_pair ::
  "string \<Rightarrow> string \<Rightarrow> string \<Rightarrow> template_options \<Rightarrow> os_state \<Rightarrow> os_state \<times> string list result" where
  "write_migration_pair d i slug opts w =
     (case os_mkdir_all d w of
        (w1, Some e) \<Rightarrow> (w1, Inl (wrapf [Lit ''create migration directory '', Lit d, Lit '': ''] (Extern (os_error_text e))))
      | (w1, None) \<Rightarrow>
          (let up_path = filepath_join d (i @ up_file_suffix); down_path = filepath_join d (i @ down_file_suffix)
           in case write_new_file up_path (up_content opts slug) w1 of
                (w2, Some e) \<Rightarrow> (w2, Inl e)
              | (w2, None) \<Rightarrow>
                  (case write_new_file down_path (down_content opts slug) w2 of
                     (w3, Some e) \<Rightarrow> (fst (os_remove up_path w3), Inl e)
                   | (w3, None) \<Rightarrow> (w3, Inr [up_path, down_path]))))"

text \<open>\<open>newCommand\<close>'s \<open>RunE\<close>: \<open>path\<close> is what \<open>resolvePath\<close> answered, \<open>now\<close> the clock; the paths are printed.\<close>

definition new_run :: "unicode \<Rightarrow> string result \<Rightarrow> string \<Rightarrow> template_options \<Rightarrow> nat \<Rightarrow> os_state \<Rightarrow> os_state \<times> string list result" where
  "new_run U path name opts now w =
     (case path of
        Inl e \<Rightarrow> (w, Inl e)
      | Inr d \<Rightarrow>
          (case slugify U name of
             Inl e \<Rightarrow> (w, Inl e)
           | Inr slug \<Rightarrow>
               (case available_timestamp d now w of
                  Inl e \<Rightarrow> (w, Inl e)
                | Inr stamp \<Rightarrow> write_migration_pair d (stamp @ ''_'' @ slug) slug opts w)))"

end
