(* ===== verification/Slug_Correct.thy ===== *)
theory Slug_Correct
  imports New_Command
begin

text \<open>
  What \<open>slugify\<close> answers: exactly the texts of at most 100 lower-case letters, digits and single underscores
  that neither begin nor end with an underscore, and each of these is its own slug.
\<close>

definition slug_char :: "char \<Rightarrow> bool" where
  "slug_char c \<longleftrightarrow> (97 \<le> byte c \<and> byte c \<le> 122) \<or> (48 \<le> byte c \<and> byte c \<le> 57) \<or> c = CHR ''_''"

definition single_underscores :: "string \<Rightarrow> bool" where
  "single_underscores s \<longleftrightarrow> successively (\<lambda>a b. \<not> (a = CHR ''_'' \<and> b = CHR ''_'')) s"

definition slug_ok :: "string \<Rightarrow> bool" where
  "slug_ok s \<longleftrightarrow> s \<noteq> [] \<and> length s \<le> 100 \<and> list_all slug_char s \<and> single_underscores s
     \<and> hd s \<noteq> CHR ''_'' \<and> last s \<noteq> CHR ''_''"

text \<open>The lower-case table of package \<open>unicode\<close> gives no ASCII capital and no ASCII digit for a rune from 128 on.\<close>

definition lower_table :: "unicode \<Rightarrow> bool" where
  "lower_table U \<longleftrightarrow> (\<forall>r \<ge> 128. \<not> (65 \<le> uni_lower U r \<and> uni_lower U r \<le> 90) \<and> \<not> (48 \<le> uni_lower U r \<and> uni_lower U r \<le> 57))"

lemma byte_char_of: "r < 128 \<Longrightarrow> byte (char_of r :: char) = r" for r :: nat
  by simp

lemma to_lower_no_capital:
  assumes "lower_table U" "c \<in> set (to_lower U s)"
  shows "\<not> (65 \<le> byte c \<and> byte c \<le> 90)"
proof -
  obtain r where c: "c \<in> set (encode_rune (to_lower_rune U r))"
    using assms(2) by (auto simp: to_lower_def)
  show ?thesis
  proof (cases "to_lower_rune U r < 128")
    case True
    then have "byte c = to_lower_rune U r" using c by (simp add: encode_rune_ascii)
    then show ?thesis using assms(1) by (auto simp: to_lower_rune_def lower_table_def split: if_splits)
  next
    case False
    then show ?thesis using encode_rune_high [of "to_lower_rune U r" c] c by simp
  qed
qed

lemma to_lower_slug: "list_all slug_char s \<Longrightarrow> to_lower U s = s"
proof (induction s)
  case (Cons c s)
  then have "byte c < 128" "\<not> (65 \<le> byte c \<and> byte c \<le> 90)" by (auto simp: slug_char_def)
  then have "to_lower U (c # s) = [c] @ to_lower U s"
    by (auto simp add: to_lower_def to_lower_rune_def encode_rune_ascii)
  with Cons show ?case by simp
qed (simp add: to_lower_def)

section \<open>The loop\<close>

lemma single_underscores_simps [simp]:
  "single_underscores []" "single_underscores [c]"
  "single_underscores (c # d # s) \<longleftrightarrow> \<not> (c = CHR ''_'' \<and> d = CHR ''_'') \<and> single_underscores (d # s)"
  by (auto simp: single_underscores_def)

lemma single_underscores_append: "single_underscores (p @ q) \<Longrightarrow> single_underscores p \<and> single_underscores q"
  by (auto simp: single_underscores_def successively_append_iff)

lemma single_underscores_Cons: "c \<noteq> CHR ''_'' \<Longrightarrow> single_underscores (c # s) \<longleftrightarrow> single_underscores s"
  by (cases s) auto

lemma slug_rune_char:
  assumes "slug_rune U r" "\<not> (65 \<le> r \<and> r \<le> 90)"
  shows "encode_rune r = [char_of r]" "slug_char (char_of r)" "char_of r \<noteq> CHR ''_''"
proof -
  have "r < 128" using assms(1) by (simp add: slug_rune_def)
  note b = byte_char_of [OF this]
  show "encode_rune r = [char_of r]" by (rule encode_rune_ascii) fact
  show "slug_char (char_of r)"
    using assms by (auto simp: slug_char_def slug_rune_def is_letter_def is_digit_def b split: if_splits)
  have "r \<noteq> 95" using assms by (auto simp: slug_rune_def is_letter_def is_digit_def)
  then have "byte (char_of r :: char) \<noteq> byte (CHR ''_'')" using b by simp
  then show "char_of r \<noteq> CHR ''_''" by metis
qed

lemma slug_loop_ok:
  assumes "\<forall>(r, b) \<in> set rs. slug_rune U r \<longrightarrow> \<not> (65 \<le> r \<and> r \<le> 90)"
  shows "list_all slug_char (slug_loop U l rs)
    \<and> single_underscores ((if l then ''_'' else []) @ slug_loop U l rs)"
  using assms
proof (induction U l rs rule: slug_loop.induct)
  case (2 U l r b rs)
  show ?case
  proof (cases "slug_rune U r")
    case True
    then have r: "\<not> (65 \<le> r \<and> r \<le> 90)" using "2.prems" by simp
    note s = slug_rune_char [OF True r]
    show ?thesis using 2 True s by (simp add: single_underscores_Cons)
  next
    case False
    then show ?thesis using 2 by (cases l) (simp_all add: slug_char_def)
  qed
qed simp

text \<open>On a text of its own alphabet the loop changes nothing.\<close>

lemma slug_loop_same:
  assumes "list_all slug_char s" "single_underscores ((if l then ''_'' else []) @ s)"
  shows "slug_loop U l (runes s) = s"
  using assms
proof (induction s arbitrary: l)
  case (Cons c s)
  then have c: "byte c < 128" by (auto simp: slug_char_def)
  show ?case
  proof (cases "c = CHR ''_''")
    case True
    then show ?thesis
      using Cons.IH [of True] Cons.prems c
      by (cases l) (simp_all add: slug_rune_def is_letter_def is_digit_def)
  next
    case False
    then have "slug_rune U (byte c)" using Cons.prems(1) by (auto simp: slug_char_def slug_rune_def is_letter_def is_digit_def)
    moreover have "single_underscores s"
      using Cons.prems(2) single_underscores_append [of "if l then ''_'' else []" "c # s"] False
      by (simp add: single_underscores_Cons)
    ultimately show ?thesis
      using Cons.IH [of False] Cons.prems c by (simp add: encode_rune_ascii)
  qed
qed simp

section \<open>The result\<close>

lemma slug_part:
  assumes "list_all slug_char s" "single_underscores s" "trim_set ''_'' s \<noteq> []"
  shows "list_all slug_char (trim_set ''_'' s) \<and> single_underscores (trim_set ''_'' s)
    \<and> hd (trim_set ''_'' s) \<noteq> CHR ''_'' \<and> last (trim_set ''_'' s) \<noteq> CHR ''_''"
proof -
  obtain p q where "s = p @ trim_set ''_'' s @ q" using trim_set_parts by metis
  then have "list_all slug_char (p @ trim_set ''_'' s @ q)" "single_underscores (p @ trim_set ''_'' s @ q)"
    using assms(1,2) by metis+
  then show ?thesis
    using trim_set_ends [OF assms(3)] by (auto dest!: single_underscores_append)
qed

lemma trim_set_take:
  assumes "s \<noteq> []" "hd s \<notin> set cs" "0 < n"
  shows "trim_set cs (take n s) \<noteq> []" "length (trim_set cs (take n s)) \<le> n"
proof -
  obtain p q where e: "take n s = p @ trim_set cs (take n s) @ q" "set p \<subseteq> set cs" "set q \<subseteq> set cs"
    using trim_set_parts by metis
  show "trim_set cs (take n s) \<noteq> []"
  proof
    assume "trim_set cs (take n s) = []"
    then have "take n s = p @ q" using e(1) by simp
    moreover have "hd (take n s) = hd s" "take n s \<noteq> []" using assms by (auto simp: hd_take)
    ultimately have "hd s \<in> set (p @ q)" by (metis hd_in_set)
    then show False using e(2,3) assms(2) by auto
  qed
  show "length (trim_set cs (take n s)) \<le> n"
    using arg_cong [OF e(1), of length] by simp
qed

lemma slugify_ok:
  assumes "lower_table U" "slugify U name = Inr slug"
  shows "slug_ok slug"
proof -
  let ?t = "to_lower U (trim_space name)"
  define s where "s = slug_loop U True (runes ?t)"
  define t where "t = trim_set ''_'' s"
  have "\<forall>(r, b) \<in> set (runes ?t). slug_rune U r \<longrightarrow> \<not> (65 \<le> r \<and> r \<le> 90)"
  proof safe
    fix r b assume rb: "(r, b) \<in> set (runes ?t)" "slug_rune U r" "65 \<le> r" "r \<le> 90"
    then have "char_of r \<in> set ?t" using runes_low by fastforce
    from to_lower_no_capital [OF assms(1) this] rb(3,4) show False by simp
  qed
  from slug_loop_ok [OF this, of True] have s: "list_all slug_char s" "single_underscores s"
    using single_underscores_append [of "''_''" s] by (simp_all add: s_def)
  have t: "t \<noteq> []" "slug = (if 100 < length t then trim_set ''_'' (take 100 t) else t)"
    using assms(2) by (auto simp: slugify_def Let_def s_def [symmetric] t_def [symmetric] max_slug_length_def split: if_splits)
  note p = slug_part [OF s, folded t_def, OF t(1)]
  show ?thesis
  proof (cases "100 < length t")
    case True
    have "list_all slug_char (take 100 t @ drop 100 t)" "single_underscores (take 100 t @ drop 100 t)" using p by simp_all
    then have "list_all slug_char (take 100 t)" "single_underscores (take 100 t)"
      unfolding list_all_append by (blast dest: single_underscores_append)+
    moreover have n: "trim_set ''_'' (take 100 t) \<noteq> []" "length (trim_set ''_'' (take 100 t)) \<le> 100"
      using trim_set_take [of t "''_''" 100] t(1) p by simp_all
    ultimately show ?thesis using slug_part n True t(2) by (simp add: slug_ok_def)
  qed (use p t in \<open>simp add: slug_ok_def\<close>)
qed

lemma slug_trim_space: "list_all slug_char s \<Longrightarrow> trim_space s = s"
  by (rule trim_space_visible, subst runes_of_ascii)
    (auto simp: ascii_def list_all_iff slug_char_def space_rune_def is_space_def)

lemma slugify_same:
  assumes "slug_ok s"
  shows "slugify U s = Inr s"
proof -
  have s: "list_all slug_char s" "single_underscores s" "s \<noteq> []" "hd s \<noteq> CHR ''_''" "last s \<noteq> CHR ''_''" "length s \<le> 100"
    using assms by (simp_all add: slug_ok_def)
  then have "single_underscores (''_'' @ s)" by (cases s) auto
  then have "slug_loop U True (runes s) = s" using slug_loop_same [of s True U] s(1) by simp
  moreover have "trim_set ''_'' s = s" using s by (intro trim_set_same) simp
  ultimately show ?thesis
    using s by (simp add: slugify_def Let_def slug_trim_space to_lower_slug max_slug_length_def)
qed

section \<open>Digits survive lower-casing\<close>

lemma to_lower_same: "\<forall>c \<in> set s. byte c < 128 \<and> \<not> (65 \<le> byte c \<and> byte c \<le> 90) \<Longrightarrow> to_lower U s = s"
proof (induction s)
  case (Cons c s)
  then have "to_lower U (c # s) = [c] @ to_lower U s"
    by (auto simp add: to_lower_def to_lower_rune_def encode_rune_ascii)
  with Cons show ?case by simp
qed (simp add: to_lower_def)

text \<open>Digits at the front of a lower-cased text were there before.\<close>

lemma to_lower_digits:
  assumes "lower_table U" "to_lower U s = p @ q" "\<forall>c \<in> set p. 48 \<le> byte c \<and> byte c \<le> 57"
  shows "prefix p s"
  using assms(2,3)
proof (induction p arbitrary: s)
  case (Cons c p)
  have ne: "s \<noteq> []" using Cons.prems(1) by (auto simp: to_lower_def)
  let ?r = "fst (decode_rune s)" and ?n = "snd (decode_rune s)"
  have l: "to_lower U s = encode_rune (to_lower_rune U ?r) @ to_lower U (drop ?n s)"
    by (simp add: to_lower_def runes_step [OF ne])
  have "encode_rune (to_lower_rune U ?r) \<noteq> []" by (simp add: encode_rune_def Let_def)
  then have c: "c = hd (encode_rune (to_lower_rune U ?r))" "c \<in> set (encode_rune (to_lower_rune U ?r))"
    using l Cons.prems(1) by (cases "encode_rune (to_lower_rune U ?r)"; simp)+
  have d: "48 \<le> byte c" "byte c \<le> 57" using Cons.prems(2) by simp_all
  then have "to_lower_rune U ?r < 128" using encode_rune_high [OF _ c(2)] by fastforce
  then have b: "byte c = to_lower_rune U ?r" and one: "encode_rune (to_lower_rune U ?r) = [c]"
    using c by (simp_all add: encode_rune_ascii)
  have r: "?r < 128" "?r = byte c"
    using b d assms(1) by (auto simp: to_lower_rune_def lower_table_def split: if_splits)
  then have "decode_rune s = (byte (hd s), 1)" using decode_rune_low [OF ne] by simp
  then have "s = c # drop ?n s" using r ne by (cases s) auto
  moreover have "prefix p (drop ?n s)"
    using l one Cons.prems by (intro Cons.IH) simp_all
  ultimately show ?case by (metis Cons_prefix_Cons)
qed simp

end
