(* ===== verification/Scaffold_Correct.thy ===== *)
theory Scaffold_Correct
  imports Slug_Correct Script_Parser
begin

text \<open>
  The loader accepts every scaffold as it is, and reads from it the directives that the options asked for.
\<close>

section \<open>Scripts made of quiet lines\<close>

definition quiet_line :: "string \<Rightarrow> bool" where
  "quiet_line l \<longleftrightarrow> NL \<notin> set l \<and> directive_names l = None \<and> trim_space l \<noteq> statement_begin_line"

lemma quiet_no_plus: "NL \<notin> set l \<Longrightarrow> CHR ''+'' \<notin> set l \<Longrightarrow> quiet_line l"
  by (simp add: quiet_line_def no_plus)

lemma quiet_slug: "list_all slug_char slug \<Longrightarrow> CHR ''+'' \<notin> set slug \<and> NL \<notin> set slug"
  by (induction slug) (auto simp: slug_char_def)

definition visible_ends :: "string list \<Rightarrow> bool" where
  "visible_ends ls \<longleftrightarrow> ls \<noteq> [] \<and> hd ls \<noteq> [] \<and> last ls \<noteq> [] \<and> visible (hd (hd ls)) \<and> visible (last (last ls))"

lemma text_lines_append: "text_lines (ls @ ls') = text_lines ls @ text_lines ls'"
  by (simp add: text_lines_def)

lemma text_lines_join: "ls \<noteq> [] \<Longrightarrow> text_lines ls = join [NL] ls @ [NL]"
  by (cases ls rule: rev_cases) (simp_all add: text_lines_def join_snoc)

lemma join_hd: "ls \<noteq> [] \<Longrightarrow> hd ls \<noteq> [] \<Longrightarrow> join sep ls \<noteq> [] \<and> hd (join sep ls) = hd (hd ls)"
  by (cases ls; cases "tl ls") auto

lemma trim_join:
  assumes "visible_ends ls" "list_all ascii_space q"
  shows "trim_space (join [NL] ls @ q) = join [NL] ls" "join [NL] ls \<noteq> []"
proof -
  obtain ks l where ls: "ls = ks @ [l]" using assms(1) by (cases ls rule: rev_cases) (auto simp: visible_ends_def)
  then have "last (join [NL] ls) = last (last ls)" using assms(1) by (simp add: join_snoc visible_ends_def)
  moreover have j: "join [NL] ls \<noteq> []" "hd (join [NL] ls) = hd (hd ls)"
    using join_hd [of ls "[NL]"] assms(1) by (simp_all add: visible_ends_def)
  ultimately show "trim_space (join [NL] ls @ q) = join [NL] ls" "join [NL] ls \<noteq> []"
    using trim_space_ends [of "join [NL] ls" q] assms by (simp_all add: visible_ends_def)
qed

lemma quiet_lines_split:
  assumes "ls \<noteq> []" "list_all quiet_line ls"
  shows "no_directive_line (join [NL] ls)" "is_ok (split_sql_statements U (join [NL] ls))"
proof -
  have s: "split_on NL (join [NL] ls) = ls"
    by (rule split_on_join) (use assms in \<open>auto simp: quiet_line_def list_all_iff\<close>)
  show "no_directive_line (join [NL] ls)"
    unfolding no_directive_line_def s using assms(2) by (auto simp: quiet_line_def list_all_iff)
  have "list_all (\<lambda>l. trim_space l \<noteq> statement_begin_line) (split_on NL (join [NL] ls))"
    unfolding s using assms(2) by (auto simp: quiet_line_def list_all_iff)
  then show "is_ok (split_sql_statements U (join [NL] ls))"
    by (rule split_total_without_begin [of _ U]) simp
qed

lemma accepted_quiet:
  assumes "visible_ends ls" "list_all quiet_line ls" "\<not> looks_like_directive (hd ls)"
  shows "parse_directive_header (join [NL] ls) = Inr (Map.empty, join [NL] ls)" "accepted_script U b (join [NL] ls)"
proof -
  have ne: "ls \<noteq> []" using assms(1) by (simp add: visible_ends_def)
  have "split_on NL (join [NL] ls) = ls"
    by (rule split_on_join) (use assms(2) ne in \<open>auto simp: quiet_line_def list_all_iff\<close>)
  moreover have "hd (split_on NL s) = cut_before NL s" for s
    by (cases "NL \<in> set s") (simp_all add: split_on_cut split_on_single)
  ultimately have "cut_before NL (join [NL] ls) = hd ls" by metis
  then have "plain_line (cut_before NL (join [NL] ls))"
    using assms(2,3) ne by (cases ls) (auto simp: plain_line_def quiet_line_def)
  then show p: "parse_directive_header (join [NL] ls) = Inr (Map.empty, join [NL] ls)"
    using quiet_lines_split(1) [OF ne assms(2)] by (simp add: parse_directive_header_Inr)
  show "accepted_script U b (join [NL] ls)"
    using quiet_lines_split(2) [OF ne assms(2)] trim_join [OF assms(1), of "[]"]
    by (simp add: accepted_script_def p has_directive_def)
qed

lemma accepted_notransaction:
  assumes "visible_ends ls" "list_all quiet_line ls" "script = directive_header_for directive_no_transaction @ NL # join [NL] ls"
  shows "parse_directive_header script = Inr ([directive_no_transaction \<mapsto> True], join [NL] ls)" "accepted_script U b script"
proof -
  have ne: "ls \<noteq> []" using assms(1) by (simp add: visible_ends_def)
  show p: "parse_directive_header script = Inr ([directive_no_transaction \<mapsto> True], join [NL] ls)"
    using quiet_lines_split(1) [OF ne assms(2)] header_for_tokens(1) header_for_no_NL(1)
    by (auto simp: assms(3) parse_directive_header_Inr intro!: exI [of _ "[directive_no_transaction]"])
  show "accepted_script U b script"
    using quiet_lines_split(2) [OF ne assms(2)] trim_join [OF assms(1), of "[]"]
    by (simp add: accepted_script_def p has_directive_def directive_no_transaction_def directive_irreversible_def)
qed

section \<open>The templates\<close>

lemma quiet_directive_comment:
  "quiet_line ''--   -- +migrate notransaction''" "quiet_line ''--   -- +migrate irreversible''"
  by (simp_all add: quiet_line_def go_eval char_of_def Let_def bit_0)

lemma visible_chars [simp]: "visible (CHR ''-'')" "visible (CHR ''.'')" "visible (CHR ''e'')"
  by (simp_all add: visible_def is_space_def)

definition template_ok :: "string \<Rightarrow> string list \<Rightarrow> bool" where
  "template_ok t ls \<longleftrightarrow> t = text_lines (ls @ [[]]) \<and> visible_ends ls \<and> list_all quiet_line ls"

lemma last_empty: "butlast L \<noteq> [] \<Longrightarrow> last L = [] \<Longrightarrow> L = butlast L @ [[]]"
  by (metis append_butlast_last_id butlast.simps(1))

lemma template_trim: "template_ok t ls \<Longrightarrow> trim_space t = join [NL] ls"
  using trim_join(1) [of ls "[NL, NL]"]
  by (auto simp: template_ok_def text_lines_append text_lines_join visible_ends_def ascii_space_def is_space_def text_lines_def [of "[[]]"])

lemma templates_ok:
  assumes "list_all slug_char slug"
  shows "\<exists>ls. template_ok (up_template slug) ls \<and> hd ls = ''-- '' @ slug"
    "\<exists>ls. template_ok (down_template slug) ls \<and> hd ls = ''-- Undo: '' @ slug"
proof -
  have ok: "\<exists>ls. template_ok t ls \<and> hd ls = h"
    if "t = text_lines L" "last L = []" "visible_ends (butlast L)" "list_all quiet_line (butlast L)" "hd (butlast L) = h" for t L h
    using that last_empty [of L] by (intro exI [of _ "butlast L"]) (auto simp: template_ok_def visible_ends_def)
  note q = quiet_slug [OF assms]
  show "\<exists>ls. template_ok (up_template slug) ls \<and> hd ls = ''-- '' @ slug"
    by (rule ok, rule up_template_def)
      (use q in \<open>auto simp: visible_ends_def intro: quiet_directive_comment quiet_no_plus\<close>)
  show "\<exists>ls. template_ok (down_template slug) ls \<and> hd ls = ''-- Undo: '' @ slug"
    by (rule ok, rule down_template_def)
      (use q in \<open>auto simp: visible_ends_def intro: quiet_directive_comment quiet_no_plus\<close>)
qed

lemma notransaction_template_ok:
  assumes "CHR ''+'' \<notin> set slug" "NL \<notin> set slug"
  shows "\<exists>ls. notransaction_template slug = directive_header_for directive_no_transaction @ NL # text_lines (ls @ [[]])
    \<and> visible_ends ls \<and> list_all quiet_line ls"
proof -
  have ok: "\<exists>ls. t = h @ NL # text_lines (ls @ [[]]) \<and> visible_ends ls \<and> list_all quiet_line ls"
    if "t = text_lines (h # L)" "last L = []" "visible_ends (butlast L)" "list_all quiet_line (butlast L)" for t h L
    using that last_empty [of L] by (intro exI [of _ "butlast L"]) (simp add: visible_ends_def text_lines_def [of "h # L"] text_lines_def [symmetric])
  show ?thesis
    by (rule ok, simp only: notransaction_template_def directive_header_for_def directive_tokens append.simps)
      (use assms in \<open>auto simp: visible_ends_def intro: quiet_no_plus\<close>)
qed

section \<open>Reading a scaffold\<close>

text \<open>The directives that a script carries, and that the loader accepts it in the half it is for.\<close>

definition reads_as :: "unicode \<Rightarrow> bool \<Rightarrow> string \<Rightarrow> string list \<Rightarrow> bool" where
  "reads_as U down script names \<longleftrightarrow> accepted_script U down (trim_space script)
     \<and> (\<exists>d body. parse_directive_header (trim_space script) = Inr (d, body) \<and> (\<forall>n. has_directive d n \<longleftrightarrow> n \<in> set names))"

lemma reads_as_plain:
  assumes "template_ok t ls" "\<not> looks_like_directive (hd ls)"
  shows "reads_as U b t []"
proof -
  have ls: "visible_ends ls" "list_all quiet_line ls" using assms(1) by (simp_all add: template_ok_def)
  show ?thesis
    unfolding reads_as_def template_trim [OF assms(1)]
    using accepted_quiet [OF ls assms(2)] by (simp add: has_directive_def)
qed

lemma reads_as_notransaction:
  assumes "CHR ''+'' \<notin> set slug" "NL \<notin> set slug"
  shows "reads_as U b (notransaction_template slug) [directive_no_transaction]"
proof -
  obtain ls where t: "notransaction_template slug = directive_header_for directive_no_transaction @ NL # text_lines (ls @ [[]])"
    and ls: "visible_ends ls" "list_all quiet_line ls"
    using notransaction_template_ok [OF assms] by blast
  define script where "script = directive_header_for directive_no_transaction @ NL # join [NL] ls"
  have "ls \<noteq> []" using ls(1) by (simp add: visible_ends_def)
  then have e: "notransaction_template slug = script @ [NL, NL]"
    by (simp add: t script_def text_lines_append text_lines_join text_lines_def [of "[[]]"])
  obtain ks l where k: "ls = ks @ [l]" using \<open>ls \<noteq> []\<close> by (cases ls rule: rev_cases) auto
  then have "last (join [NL] ls) = last (last ls)" "join [NL] ls \<noteq> []"
    using ls(1) by (simp_all add: join_snoc visible_ends_def)
  then have "script \<noteq> []" "visible (hd script)" "visible (last script)"
    using ls(1) by (simp_all add: script_def visible_ends_def directive_header_for_def directive_start_def comment_token_def)
  then have trim: "trim_space (notransaction_template slug) = script"
    unfolding e by (rule trim_space_ends) (simp add: ascii_space_def is_space_def)
  show ?thesis
    unfolding reads_as_def trim using accepted_notransaction [OF ls script_def] by (simp add: has_directive_def)
qed

lemma reads_as_irreversible: "reads_as U True irreversible_template [directive_irreversible]"
proof -
  have "trim_space irreversible_template = directive_header_for directive_irreversible"
    using trim_space_ends [of "''-- +migrate irreversible''" "[NL]"]
    by (simp add: irreversible_template_def text_lines_def directive_header_for_def directive_tokens ascii_space_def is_space_def)
  moreover have p: "parse_directive_header (directive_header_for directive_irreversible) = Inr ([directive_irreversible \<mapsto> True], [])"
    using header_for_tokens(2) header_for_no_NL(2)
    by (auto simp: parse_directive_header_Inr no_directive_line_def directive_names_def Go_Strings.fields_def
        intro!: exI [of _ "[directive_irreversible]"])
  moreover have "is_ok (split_sql_statements U [])"
    by (rule split_total_without_begin [of "[]" U]) (simp_all add: directive_tokens)
  ultimately show ?thesis by (simp add: reads_as_def accepted_script_def has_directive_def)
qed

lemma scaffold_reads_as:
  assumes "list_all slug_char slug"
  shows "reads_as U False (up_content opts slug) (if no_transaction opts then [directive_no_transaction] else [])"
    "reads_as U True (down_content opts slug)
       (if irreversible opts then [directive_irreversible] else if no_transaction opts then [directive_no_transaction] else [])"
proof -
  note q = quiet_slug [OF assms]
  have plain: "\<not> looks_like_directive (''-- '' @ slug)" "\<not> looks_like_directive (''-- Undo: '' @ slug)"
    using q by (simp_all add: no_plus)
  show "reads_as U False (up_content opts slug) (if no_transaction opts then [directive_no_transaction] else [])"
    using templates_ok(1) [OF assms] plain(1) q reads_as_plain reads_as_notransaction unfolding up_content_def
    by (metis (full_types))
  have "reads_as U True (notransaction_template (''Undo: '' @ slug)) [directive_no_transaction]"
    using q by (intro reads_as_notransaction) simp_all
  moreover have "reads_as U True (down_template slug) []"
    using templates_ok(2) [OF assms] plain(2) reads_as_plain by metis
  ultimately show "reads_as U True (down_content opts slug)
      (if irreversible opts then [directive_irreversible] else if no_transaction opts then [directive_no_transaction] else [])"
    using reads_as_irreversible by (simp add: down_content_def)
qed

end
