(* ===== verification/New_Files.thy ===== *)
theory New_Files
  imports Scaffold_Correct
begin

text \<open>
  The files that \<open>new\<close> makes: paths and the names in them, the free stamp, and the pair on every way the
  operating system answers.
\<close>

section \<open>Paths\<close>

lemma split_on_snoc: "c \<notin> set n \<Longrightarrow> split_on c (d @ c # n) = split_on c d @ [n]"
proof (induction d)
  case Nil
  then show ?case by (simp add: split_on_single)
next
  case (Cons x d)
  then show ?case by (cases "split_on c d") auto
qed

definition plain_name :: "string \<Rightarrow> bool" where
  "plain_name n \<longleftrightarrow> n \<noteq> [] \<and> n \<noteq> ''.'' \<and> n \<noteq> ''..'' \<and> CHR ''/'' \<notin> set n"

lemma base_name_plain:
  assumes "CHR ''/'' \<notin> set n"
  shows "base_name n = n" "base_name (p @ CHR ''/'' # n) = n"
proof -
  have n: "takeWhile (\<lambda>c. c \<noteq> CHR ''/'') (rev n) = rev n" using assms by (auto simp: takeWhile_all_conv)
  show "base_name n = n" unfolding base_name_def n by simp
  have "takeWhile (\<lambda>c. c \<noteq> CHR ''/'') (rev (p @ CHR ''/'' # n)) = rev n"
    using n takeWhile_tail [of "\<lambda>c. c \<noteq> CHR ''/''" "CHR ''/''" "rev n" "rev p"] by simp
  then show "base_name (p @ CHR ''/'' # n) = n" unfolding base_name_def by simp
qed

lemma join_snoc_Nil: "join [c] (cs @ [n]) = [] \<Longrightarrow> n = []"
  by (simp add: join_snoc)

lemma base_name_join_snoc:
  assumes "CHR ''/'' \<notin> set n"
  shows "base_name (join ''/'' (cs @ [n])) = n" "base_name (CHR ''/'' # join ''/'' (cs @ [n])) = n"
proof -
  show "base_name (join ''/'' (cs @ [n])) = n"
  proof (cases cs rule: rev_cases)
    case (snoc ks k)
    then show ?thesis
      using base_name_plain(2) [OF assms, of "concat (map (\<lambda>l. l @ ''/'') ks) @ k"]
      using join_snoc [of "CHR ''/''" cs n] by simp
  qed (simp add: base_name_plain assms)
  show "base_name (CHR ''/'' # join ''/'' (cs @ [n])) = n"
  proof (cases cs rule: rev_cases)
    case Nil
    then show ?thesis using base_name_plain(2) [OF assms, of "[]"] by simp
  next
    case (snoc ks k)
    then show ?thesis
      using base_name_plain(2) [OF assms, of "CHR ''/'' # concat (map (\<lambda>l. l @ ''/'') ks) @ k"]
      using join_snoc [of "CHR ''/''" cs n] by simp
  qed
qed

text \<open>The name joined to a directory is the last component of the path.\<close>

lemma base_name_join:
  assumes "plain_name n"
  shows "base_name (filepath_join d n) = n"
proof -
  have n: "CHR ''/'' \<notin> set n" "n \<noteq> []" "n \<noteq> ''.''" "n \<noteq> ''..''" using assms by (simp_all add: plain_name_def)
  have last: "foldl (clean_step rooted) acc (cs @ [n]) = foldl (clean_step rooted) acc cs @ [n]" for rooted acc cs
    using n by (simp add: clean_step_def)
  have "\<exists>cs. clean_path (d @ ''/'' @ n) = join ''/'' (cs @ [n]) \<or> clean_path (d @ ''/'' @ n) = CHR ''/'' # join ''/'' (cs @ [n])"
    using n join_snoc_Nil [of "CHR ''/''" _ n]
    by (auto simp: clean_path_def Let_def split_on_snoc last [simplified])
  moreover have "\<exists>cs. clean_path n = join ''/'' (cs @ [n]) \<or> clean_path n = CHR ''/'' # join ''/'' (cs @ [n])"
    using n by (auto simp: clean_path_def Let_def split_on_single clean_step_def intro!: exI [of _ "[]"])
  ultimately show ?thesis
    using base_name_join_snoc [OF n(1)] n(2) by (auto simp: filepath_join_def)
qed

lemma filepath_join_inj: "plain_name m \<Longrightarrow> plain_name n \<Longrightarrow> filepath_join d m = filepath_join d n \<longleftrightarrow> m = n"
  by (metis base_name_join)

section \<open>The free stamp\<close>

lemma taken_stamps_iff:
  "s \<in> set (taken_stamps es) \<longleftrightarrow> (\<exists>e \<in> set es. \<not> entry_is_dir e \<and> 14 \<le> length (entry_name e) \<and> s = take 14 (entry_name e))"
  by (auto simp: taken_stamps_def timestamp_length_def)

text \<open>The loop answers the first stamp that is free, and passes one taken stamp for each second it moves on.\<close>

lemma next_free_first:
  obtains u where "t \<le> u" "next_free es t = format_stamp u" "format_stamp u \<notin> set (taken_stamps es)"
    "\<forall>v. t \<le> v \<and> v < u \<longrightarrow> format_stamp v \<in> set (taken_stamps es)"
proof -
  have "\<exists>u \<ge> t. next_free es t = format_stamp u \<and> format_stamp u \<notin> set (taken_stamps es)
      \<and> (\<forall>v. t \<le> v \<and> v < u \<longrightarrow> format_stamp v \<in> set (taken_stamps es))"
  proof (induction es t rule: next_free.induct)
    case (1 es t)
    show ?case
    proof (cases "format_stamp t \<in> set (taken_stamps es)")
      case True
      then obtain u where u: "t + 1 \<le> u" "next_free es (t + 1) = format_stamp u" "format_stamp u \<notin> set (taken_stamps es)"
        "\<forall>v. t + 1 \<le> v \<and> v < u \<longrightarrow> format_stamp v \<in> set (taken_stamps es)" using "1.IH" by blast
      have "next_free es t = format_stamp u" using True u(2) by (subst next_free.simps) simp
      moreover have "\<forall>v. t \<le> v \<and> v < u \<longrightarrow> format_stamp v \<in> set (taken_stamps es)"
        using u(4) True by (metis Suc_eq_plus1 Suc_leI le_neq_implies_less)
      ultimately show ?thesis using u by (intro exI [of _ u]) simp
    next
      case False
      then have "next_free es t = format_stamp t" by (subst next_free.simps) simp
      then show ?thesis using False by (intro exI [of _ t]) auto
    qed
  qed
  then show ?thesis using that by blast
qed

lemma taken_four_digits: "format_stamp v \<in> set (taken_stamps es) \<Longrightarrow> four_digit_time v"
  by (auto simp: taken_stamps_iff length_format_stamp [symmetric])

lemma next_free_steps:
  assumes "\<forall>v. t \<le> v \<and> v < u \<longrightarrow> format_stamp v \<in> set (taken_stamps es)"
  shows "u - t \<le> length (taken_stamps es)"
proof -
  have "inj_on format_stamp {t..<u}"
  proof (rule linorder_inj_onI)
    fix v v' assume "v < v'" "v \<in> {t..<u}" "v' \<in> {t..<u}"
    then show "format_stamp v \<noteq> format_stamp v'"
      using format_stamp_mono [of v v'] taken_four_digits assms by fastforce
  qed auto
  then have "card {t..<u} = card (format_stamp ` {t..<u})" by (simp add: card_image)
  also have "\<dots> \<le> card (set (taken_stamps es))" using assms by (intro card_mono) auto
  also have "\<dots> \<le> length (taken_stamps es)" by (rule card_length)
  finally show ?thesis by simp
qed

section \<open>Writing the pair\<close>

lemma write_new_file_cases:
  assumes "write_new_file p content w = (w', e)"
  shows "os_dirs w' = os_dirs w \<and> os_fault w' = os_fault w
    \<and> (case e of
         None \<Rightarrow> map_of (os_files w) p = None \<and> os_files w' = (p, content) # os_files w
       | Some _ \<Rightarrow> os_files w' = os_files w
           \<or> os_fault w (Write_File p) \<noteq> None \<and> map_of (os_files w) p = None
             \<and> os_files w' = (p, take (os_short w) content) # os_files w)"
  using assms
  by (auto simp: write_new_file_def os_open_new_def os_write_def split: option.splits prod.splits os_error.splits if_splits)

lemma delete_absent: "map_of xs k = None \<Longrightarrow> AList.delete k xs = xs"
  by (simp add: map_of_None_fst)

lemma plain_half:
  "CHR ''/'' \<notin> set i \<Longrightarrow> plain_name (i @ up_file_suffix)" "CHR ''/'' \<notin> set i \<Longrightarrow> plain_name (i @ down_file_suffix)"
  by (auto simp: plain_name_def up_file_suffix_def down_file_suffix_def append_eq_Cons_conv)

abbreviation up_path :: "string \<Rightarrow> string \<Rightarrow> string" where
  "up_path d i \<equiv> filepath_join d (i @ up_file_suffix)"

abbreviation down_path :: "string \<Rightarrow> string \<Rightarrow> string" where
  "down_path d i \<equiv> filepath_join d (i @ down_file_suffix)"

lemma up_down_path: "CHR ''/'' \<notin> set i \<Longrightarrow> up_path d i \<noteq> down_path d i"
  using filepath_join_inj [OF plain_half] by (simp add: up_file_suffix_def down_file_suffix_def)

lemma write_pair_Inr:
  assumes "write_migration_pair d i slug opts w = (w', Inr paths)"
  shows "paths = [up_path d i, down_path d i] \<and> map_of (os_files w) (up_path d i) = None \<and> map_of (os_files w) (down_path d i) = None
    \<and> os_files w' = (down_path d i, down_content opts slug) # (up_path d i, up_content opts slug) # os_files w
    \<and> os_dirs w' = List.insert (clean_path d) (os_dirs w) \<and> os_fault w' = os_fault w"
  using assms
  by (auto simp: write_migration_pair_def Let_def os_mkdir_all_def dest!: write_new_file_cases
      split: prod.splits option.splits if_splits)

text \<open>
  After an error a file differs only where there was none, and where its own write, or its own removal, has failed.
\<close>

lemma write_pair_Inl:
  assumes "write_migration_pair d i slug opts w = (w', Inl e)" "CHR ''/'' \<notin> set i"
    and "map_of (os_files w') q \<noteq> map_of (os_files w) q"
  shows "map_of (os_files w) q = None \<and> q \<in> {up_path d i, down_path d i}
    \<and> (os_fault w (Write_File q) \<noteq> None \<or> os_fault w (Remove_File q) \<noteq> None)"
  using assms up_down_path [OF assms(2), of d]
  by (auto simp: write_migration_pair_def Let_def os_mkdir_all_def os_remove_def delete_conv' delete_absent
      dest!: write_new_file_cases split: prod.splits option.splits if_splits)

section \<open>The command\<close>

lemma show_nat_slug: "list_all slug_char (show_nat n)"
proof (induction n rule: show_nat.induct)
  case (1 n)
  have "slug_char (digit_char d)" if "d < 10" for d
    using that by (simp add: slug_char_def digit_char_def)
  with 1 show ?case by (subst show_nat.simps) auto
qed

lemma pad_slug: "list_all slug_char (pad w n)"
  using show_nat_slug [of n] by (auto simp: pad_def list_all_iff slug_char_def)

lemma format_stamp_slug: "list_all slug_char (format_stamp t)"
  by (simp add: format_stamp_def Let_def pad_slug split: prod.split)

lemma slug_no_slash: "list_all slug_char i \<Longrightarrow> CHR ''/'' \<notin> set i"
  by (induction i) (auto simp: slug_char_def)

end
