(* ===== verification/New_Loads.thy ===== *)
theory New_Loads
  imports New_Files "HOL-Library.Multiset"
begin

text \<open>
  The file source takes in a new pair: when a directory loads, and two files are added to it that are the halves
  of an accepted migration with an ID that is new in every letter case, it loads again, with this migration more.
\<close>

section \<open>When the pairs are collected\<close>

definition folds_from :: "unicode \<Rightarrow> name_map \<Rightarrow> name_map \<Rightarrow> bool" where
  "folds_from U seen names \<longleftrightarrow> (\<forall>k v. map_of seen k = Some v \<longrightarrow> v \<in> fst ` set names \<and> k = to_lower U v)"

lemma collect_loop_complete:
  assumes "\<forall>e \<in> set es. is_ok (entry_half U e)" "folds_to U sf (ups @ downs)" "folds_from U sf (ups @ downs)"
    "pairs_ok U (rev (half_names U True es) @ ups) (rev (half_names U False es) @ downs)"
  shows "\<exists>r. collect_loop U es ups downs sf = Inr r"
  using assms
proof (induction es arbitrary: ups downs sf)
  case (Cons e es)
  obtain h where h: "entry_half U e = Inr h" using Cons.prems(1) by (auto simp: is_ok_iff)
  show ?case
  proof (cases h)
    case None
    with Cons h show ?thesis by simp
  next
    case (Some bi)
    obtain b i where bi: "bi = (b, i)" by force
    let ?n = "entry_name e" and ?half = "if b then ups else downs" and ?sf = "(to_lower U i, i) # sf"
    let ?ups = "if b then (i, ?n) # ups else ups" and ?downs = "if b then downs else (i, ?n) # downs"
    have ok: "pairs_ok U (rev (half_names U True es) @ ?ups) (rev (half_names U False es) @ ?downs)"
      using Cons.prems(4) h Some bi by (cases b) simp_all
    have i: "i \<noteq> []" "i \<notin> fst ` set ?half" using ok by (auto simp: pairs_ok_def split: if_splits)
    have "v = i" if "map_of sf (to_lower U i) = Some v" for v
    proof -
      have "v \<in> fst ` set (ups @ downs)" "to_lower U i = to_lower U v"
        using Cons.prems(3) that by (auto simp: folds_from_def)
      then have "v \<in> fst ` set ((rev (half_names U True es) @ ?ups) @ rev (half_names U False es) @ ?downs)"
        "i \<in> fst ` set ((rev (half_names U True es) @ ?ups) @ rev (half_names U False es) @ ?downs)"
        by auto
      with ok \<open>to_lower U i = to_lower U v\<close> show "v = i"
        unfolding pairs_ok_def by (metis (no_types) inj_onD)
    qed
    then have f: "map_of sf (to_lower U i) \<in> {None, Some i}" by (cases "map_of sf (to_lower U i)") auto
    have "folds_to U ?sf (?ups @ ?downs)" using folds_to_Cons [OF Cons.prems(2) f] by simp
    moreover have "folds_from U ?sf (?ups @ ?downs)" using Cons.prems(3) by (auto simp: folds_from_def)
    ultimately have "\<exists>r. collect_loop U es ?ups ?downs ?sf = Inr r"
      using Cons.IH [OF _ _ _ ok] Cons.prems(1) by simp
    moreover have "check_half U ?n i ?half sf = Inr ()" using check_half_Inr i f by auto
    ultimately show ?thesis using h Some bi by (cases b) simp_all
  qed
qed simp

lemma collect_pairs_ok:
  assumes "\<forall>e \<in> set es. is_ok (entry_half U e)" "pairs_ok U (rev (half_names U True es)) (rev (half_names U False es))"
  shows "collect_pairs U es = Inr (rev (half_names U True es), rev (half_names U False es))"
proof -
  have "\<exists>r. collect_loop U es [] [] [] = Inr r"
    by (rule collect_loop_complete) (use assms in \<open>simp_all add: folds_to_def folds_from_def\<close>)
  then obtain a b where r: "collect_pairs U es = Inr (a, b)" by (auto simp: collect_pairs_def)
  from collect_pairs_Inr [OF r] r show ?thesis by simp
qed

section \<open>One pair more\<close>

lemma half_names_mset:
  assumes "mset es = mset es'"
  shows "mset (half_names U b es) = mset (half_names U b es')"
proof -
  define f where "f e = mset (half_names U b [e])" for e
  have "mset (half_names U b es) = sum_mset (image_mset f (mset es))" for es
    by (induction es) (auto simp: f_def half_names_def)
  with assms show ?thesis by presburger
qed

lemma map_of_mset:
  assumes "distinct (map fst xs)" "mset xs = mset ys"
  shows "map_of xs = map_of ys" "distinct (map fst ys)" "set xs = set ys"
proof -
  have "mset (map fst xs) = mset (map fst ys)" using assms(2) by simp
  then show d: "distinct (map fst ys)" using assms(1) mset_eq_imp_distinct_iff by blast
  show s: "set xs = set ys" using assms(2) by (rule mset_eq_setD)
  show "map_of xs = map_of ys" using d s assms(1) by (metis map_of_inject_set)
qed

lemma pairs_ok_mset:
  assumes "pairs_ok U ups downs" "mset ups = mset ups'" "mset downs = mset downs'"
  shows "pairs_ok U ups' downs'"
  using assms(1) map_of_mset(2,3) [OF _ assms(2)] map_of_mset(2,3) [OF _ assms(3)]
  unfolding pairs_ok_def by (metis set_append)

definition up_entry :: "string \<Rightarrow> dir_entry" where
  "up_entry i = \<lparr>entry_name = i @ up_file_suffix, entry_is_dir = False\<rparr>"

definition down_entry :: "string \<Rightarrow> dir_entry" where
  "down_entry i = \<lparr>entry_name = i @ down_file_suffix, entry_is_dir = False\<rparr>"

lemma extended_pairs:
  assumes "pairs_ok U ups downs" "i \<noteq> []" "\<forall>j \<in> fst ` set (ups @ downs). to_lower U j \<noteq> to_lower U i"
  shows "pairs_ok U ((i, m) # ups) ((i, n) # downs)"
proof -
  have i: "i \<notin> fst ` set (ups @ downs)" using assms(3) by blast
  have names: "fst ` set (((i, m) # ups) @ (i, n) # downs) = insert i (fst ` set (ups @ downs))" by auto
  have "to_lower U i \<notin> to_lower U ` fst ` set (ups @ downs)" using assms(3) by force
  then have "inj_on (to_lower U) (insert i (fst ` set (ups @ downs)))"
    using assms(1) i by (simp add: pairs_ok_def inj_on_insert)
  then show ?thesis
    unfolding pairs_ok_def names using assms(1,2) i by (simp add: pairs_ok_def image_Un)
qed

lemma load_migration_grows:
  assumes "load_migration U F ups downs j = Inr m"
    "map_of ups' j = map_of ups j" "map_of downs' j = map_of downs j"
    "\<And>n content. fs_read_file F n = Inr content \<Longrightarrow> fs_read_file F' n = Inr content"
  shows "load_migration U F' ups' downs' j = Inr m"
  using assms by (auto simp: load_migration_Inr)

lemma load_all_exists: "\<forall>i \<in> set is. \<exists>m. load i = Inr m \<Longrightarrow> \<exists>ms. load_all load is [] = Inr ms \<and> list_all2 (\<lambda>i m. load i = Inr m) is ms"
proof -
  assume "\<forall>i \<in> set is. \<exists>m. load i = Inr m"
  then have "\<exists>ms. list_all2 (\<lambda>i m. load i = Inr m) is ms"
    by (induction "is") (auto simp: list_all2_Cons1)
  then show ?thesis by (auto simp: load_all_Inr)
qed

text \<open>What the lower-casing of a half's name must not change for it to be taken as a script.\<close>

lemma entry_half_new:
  assumes "list_all slug_char i"
  shows "entry_half U (up_entry i) = Inr (Some (True, i))" "entry_half U (down_entry i) = Inr (Some (False, i))"
proof -
  have low: "to_lower U (i @ s) = i @ s" if "\<forall>c \<in> set s. byte c < 128 \<and> \<not> (65 \<le> byte c \<and> byte c \<le> 90)" for s
    using that assms by (intro to_lower_same) (auto simp: list_all_iff slug_char_def)
  have l: "to_lower U (i @ up_file_suffix) = i @ up_file_suffix" "to_lower U (i @ down_file_suffix) = i @ down_file_suffix"
    by (rule low; simp add: up_file_suffix_def down_file_suffix_def)+
  have "suffix sql_ext (i @ up_file_suffix)" "suffix sql_ext (i @ down_file_suffix)" "\<not> suffix up_file_suffix (i @ down_file_suffix)"
    by (auto simp: sql_ext_def up_file_suffix_def down_file_suffix_def suffix_def append_eq_append_conv2 Cons_eq_append_conv)
  moreover have "trim_suffix (i @ s) s = i" for s by (simp add: trim_suffix_def suffix_def)
  ultimately show "entry_half U (up_entry i) = Inr (Some (True, i))" "entry_half U (down_entry i) = Inr (Some (False, i))"
    using l by (simp_all add: entry_half_def Let_def up_entry_def down_entry_def suffix_def [of up_file_suffix "i @ up_file_suffix"]
        suffix_def [of down_file_suffix "i @ down_file_suffix"])
qed

lemma loaded_set: "list_all2 (\<lambda>i m. load i = Inr m) is ms \<Longrightarrow> set ms = {n. \<exists>j \<in> set is. load j = Inr n}"
  by (induction rule: list_all2_induct) auto

lemma loaded_all: "list_all2 (\<lambda>i m. load i = Inr m) is ms \<Longrightarrow> j \<in> set is \<Longrightarrow> \<exists>n. load j = Inr n"
  by (induction rule: list_all2_induct) auto

lemma get_migrations_extend:
  assumes old: "get_migrations U F = Inr ms" "fs_read_dir F ''.'' = Inr es"
    and new: "fs_read_dir F' ''.'' = Inr es'" "mset es' = mset (up_entry i # down_entry i # es)"
    and i: "list_all slug_char i" "i \<noteq> []"
    and fresh: "\<forall>e \<in> set es. \<forall>b j. entry_half U e = Inr (Some (b, j)) \<longrightarrow> to_lower U j \<noteq> to_lower U i"
    and files: "\<And>n content. fs_read_file F n = Inr content \<Longrightarrow> fs_read_file F' n = Inr content"
    and halves: "fs_read_file F' (i @ up_file_suffix) = Inr uc" "fs_read_file F' (i @ down_file_suffix) = Inr dc"
      "parse_migration_pair U i uc dc = Inr m"
  obtains ms' where "get_migrations U F' = Inr ms'" "set ms' = insert m (set ms)"
proof -
  let ?u = "half_names U True es" and ?d = "half_names U False es"
  obtain ok: "\<forall>e \<in> set es. is_ok (entry_half U e)" and pr: "pairs_ok U (rev ?u) (rev ?d)"
    and l: "list_all2 (\<lambda>i m. load_migration U F (rev ?u) (rev ?d) i = Inr m) (sorted_ids (rev ?u) (rev ?d)) ms"
    by (rule get_migrations_loads [OF old(1)]) (use old(2) in auto)
  let ?u' = "rev (half_names U True es')" and ?d' = "rev (half_names U False es')"
  note e = entry_half_new [OF i(1), of U]
  have names: "entry_name (up_entry i) = i @ up_file_suffix" "entry_name (down_entry i) = i @ down_file_suffix"
    by (simp_all add: up_entry_def down_entry_def)
  have fr: "\<forall>j \<in> fst ` set (rev ?u @ rev ?d). to_lower U j \<noteq> to_lower U i"
  proof
    fix j assume "j \<in> fst ` set (rev ?u @ rev ?d)"
    then obtain b n where "(j, n) \<in> set (half_names U b es)" by auto
    then obtain e where "e \<in> set es" "entry_half U e = Inr (Some (b, j))" unfolding half_names_iff by blast
    with fresh show "to_lower U j \<noteq> to_lower U i" by blast
  qed
  let ?xu = "(i, i @ up_file_suffix) # rev ?u" and ?xd = "(i, i @ down_file_suffix) # rev ?d"
  have x: "pairs_ok U ?xu ?xd" by (rule extended_pairs [OF pr i(2) fr])
  have m: "mset ?xu = mset ?u'" "mset ?xd = mset ?d'"
    using half_names_mset [OF new(2), of U True] half_names_mset [OF new(2), of U False] names
    by (simp_all add: half_names_simps(3) [OF e(1)] half_names_simps(3) [OF e(2)])
  have pr': "pairs_ok U ?u' ?d'" by (rule pairs_ok_mset [OF x m])
  have "set es' = set (up_entry i # down_entry i # es)" using new(2) by (rule mset_eq_setD)
  then have c: "collect_pairs U es' = Inr (?u', ?d')" using ok e by (intro collect_pairs_ok pr') simp
  have mp: "map_of ?u' = map_of ?xu" "map_of ?d' = map_of ?xd"
    using map_of_mset(1) [OF _ m(1)] map_of_mset(1) [OF _ m(2)] x by (simp_all add: pairs_ok_def)
  have ids: "set (sorted_ids ?u' ?d') = insert i (set (sorted_ids (rev ?u) (rev ?d)))"
  proof -
    have "set ?u' = set ?xu" "set ?d' = set ?xd"
      using map_of_mset(3) [OF _ m(1)] map_of_mset(3) [OF _ m(2)] x by (simp_all add: pairs_ok_def)
    then have "set (?u' @ ?d') = set (?xu @ ?xd)" by (simp only: set_append)
    moreover have "fst ` set (?xu @ ?xd) = insert i (fst ` set (rev ?u @ rev ?d))" by (simp only: set_append image_Un) auto
    ultimately show ?thesis unfolding sorted_ids_props(3) [OF pr'] sorted_ids_props(3) [OF pr] by metis
  qed
  have fi: "load_migration U F' ?u' ?d' i = Inr m" using halves by (simp add: load_migration_Inr mp)
  have fj: "load_migration U F' ?u' ?d' j = Inr n" if "load_migration U F (rev ?u) (rev ?d) j = Inr n" "j \<noteq> i" for j n
    by (rule load_migration_grows [OF that(1) _ _ files]) (use that(2) in \<open>auto simp: mp\<close>)
  have ne: "j \<noteq> i" if "j \<in> set (sorted_ids (rev ?u) (rev ?d))" for j
    using that fr unfolding sorted_ids_props(3) [OF pr] by blast
  note old_set = loaded_set [OF l]
  have "\<exists>n. load_migration U F' ?u' ?d' j = Inr n" if j: "j \<in> set (sorted_ids ?u' ?d')" for j
  proof (cases "j = i")
    case False
    then have "j \<in> set (sorted_ids (rev ?u) (rev ?d))" using j ids by blast
    then obtain n where "load_migration U F (rev ?u) (rev ?d) j = Inr n" using loaded_all [OF l] by blast
    then show ?thesis using fj False by blast
  qed (use fi in blast)
  then have "\<forall>j \<in> set (sorted_ids ?u' ?d'). \<exists>n. load_migration U F' ?u' ?d' j = Inr n" by blast
  from load_all_exists [OF this] obtain ms' where ms': "load_all (load_migration U F' ?u' ?d') (sorted_ids ?u' ?d') [] = Inr ms'"
    "list_all2 (\<lambda>j n. load_migration U F' ?u' ?d' j = Inr n) (sorted_ids ?u' ?d') ms'" by blast
  have g: "get_migrations U F' = Inr ms'"
    using new(1) c ms'(1) arg_cong [OF m(1), of size] by (simp add: get_migrations_def) auto
  have "set ms' = {n. \<exists>j \<in> insert i (set (sorted_ids (rev ?u) (rev ?d))). load_migration U F' ?u' ?d' j = Inr n}"
    unfolding ids [symmetric] by (rule loaded_set [OF ms'(2)])
  also have "\<dots> = insert m (set ms)"
  proof -
    have "load_migration U F' ?u' ?d' j = load_migration U F (rev ?u) (rev ?d) j" if "j \<in> set (sorted_ids (rev ?u) (rev ?d))" for j
      using loaded_all [OF l that] fj [of j] ne [OF that] by metis
    then show ?thesis unfolding old_set using fi by auto
  qed
  finally show thesis using that g by blast
qed

end
