(* ===== verification/Api.thy ===== *)
theory Api
  imports Providers Source_FS
begin

text \<open>
  \<open>migrate.go\<close>, the public package: options, the wiring of source, executor and lock into a service, and the
  eight entry points. Each call makes a service and a \<open>Postgres\<close> of its own, so the lock's state starts afresh.
  A nil \<open>*sql.DB\<close> or \<open>fs.FS\<close> is \<open>None\<close>. The logger is left out.
\<close>

section \<open>Options\<close>

record config =
  cf_table :: table_config
  cf_lock_timeout :: int
  cf_lock_id :: int
  cf_allow_rollback :: bool
  cf_allow_interleaved :: bool
  cf_allow_empty_source :: bool
  cf_lock_timeout_set :: bool

type_synonym api_option = "config \<Rightarrow> config"

definition with_rollback :: api_option where
  "with_rollback c = c\<lparr>cf_allow_rollback := True\<rparr>"

definition with_interleaved :: api_option where
  "with_interleaved c = c\<lparr>cf_allow_interleaved := True\<rparr>"

definition with_lock_timeout :: "int \<Rightarrow> api_option" where
  "with_lock_timeout d c = c\<lparr>cf_lock_timeout := d, cf_lock_timeout_set := True\<rparr>"

definition with_lock_id :: "int \<Rightarrow> api_option" where
  "with_lock_id i c = c\<lparr>cf_lock_id := i\<rparr>"

definition with_allow_empty_source :: api_option where
  "with_allow_empty_source c = c\<lparr>cf_allow_empty_source := True\<rparr>"

definition with_table_name :: "string \<Rightarrow> api_option" where
  "with_table_name name c = c\<lparr>cf_table := (cf_table c)\<lparr>tc_name := name\<rparr>\<rparr>"

definition with_schema :: "string \<Rightarrow> api_option" where
  "with_schema schema c = c\<lparr>cf_table := (cf_table c)\<lparr>tc_schema := schema\<rparr>\<rparr>"

text \<open>Go's zero value of \<open>config\<close>.\<close>

definition zero_config :: config where
  "zero_config =
     \<lparr>cf_table = \<lparr>tc_schema = [], tc_name = []\<rparr>, cf_lock_timeout = 0, cf_lock_id = 0, cf_allow_rollback = False,
      cf_allow_interleaved = False, cf_allow_empty_source = False, cf_lock_timeout_set = False\<rparr>"

definition resolve_options :: "api_option list \<Rightarrow> config result" where
  "resolve_options opts =
     (let cfg = fold (\<lambda>opt cfg. opt cfg) opts zero_config
      in if cf_lock_timeout cfg < 0 then
           Inl (Errorf [Lit ''migrate: lock timeout must not be negative, got '', Lit (duration_string (cf_lock_timeout cfg))])
         else Inr cfg)"

definition run_options_of :: "config \<Rightarrow> run_options" where
  "run_options_of c =
     \<lparr>allow_rollback = cf_allow_rollback c, allow_interleaved = cf_allow_interleaved c,
      allow_empty_source = cf_allow_empty_source c\<rparr>"

section \<open>The service of one call\<close>

definition postgres_config_of :: "config \<Rightarrow> postgres_config" where
  "postgres_config_of cfg =
     \<lparr>cfg_dsn = [], cfg_host = [], cfg_port = [], cfg_user = [], cfg_password = [], cfg_db_name = [], cfg_ssl_mode = [],
      cfg_lock_timeout = cf_lock_timeout cfg, cfg_lock_timeout_set = cf_lock_timeout_set cfg, cfg_lock_id = cf_lock_id cfg\<rparr>"

definition api_service :: "unicode \<Rightarrow> 'w sql_db option \<Rightarrow> fsys option \<Rightarrow> api_option list
    \<Rightarrow> (('w, lock_state) service \<times> config \<times> lock_state) result" where
  "api_service U sql_d F opts =
     (case sql_d of
        None \<Rightarrow> Inl (Errorf [Lit ''migrate: sqlDB must not be nil''])
      | Some D \<Rightarrow>
          (case F of
             None \<Rightarrow> Inl (Errorf [Lit ''migrate: fsys must not be nil''])
           | Some files \<Rightarrow>
               (case resolve_options opts of
                  Inl e \<Rightarrow> Inl e
                | Inr cfg \<Rightarrow>
                    (case new_custom_executor (cf_table cfg) of
                       Inl e \<Rightarrow> Inl e
                     | Inr ref \<Rightarrow>
                         (case new_postgres_from_db (postgres_config_of cfg) of
                            (pg, l) \<Rightarrow> Inr (new_service (get_migrations U files) U D ref pg, cfg, l))))))"

definition empty_fs :: fsys where
  "empty_fs = \<lparr>fs_read_dir = (\<lambda>_. Inl ''file does not exist''), fs_read_file = (\<lambda>_. Inl ''file does not exist'')\<rparr>"

section \<open>What the package reports\<close>

record analysis =
  an_blocked_reason :: string
  an_to_apply :: "string list"
  an_to_rollback :: "string list"
  an_interleaved :: "string list"
  an_blocked :: bool

record api_result =
  ar_applied :: "string list"
  ar_rolled_back :: "string list"
  ar_extras_left :: "string list"
  ar_interleaved :: "string list"

record api_applied =
  aa_applied_at :: int
  aa_id :: string
  aa_error :: string
  aa_down_script :: string
  aa_failed :: bool

definition migration_ids :: "migration list \<Rightarrow> string list" where
  "migration_ids ms = map mig_id ms"

definition to_analysis :: "migration_plan \<Rightarrow> goerr option \<Rightarrow> analysis" where
  "to_analysis plan blocked =
     \<lparr>an_blocked_reason = (case blocked of None \<Rightarrow> [] | Some e \<Rightarrow> error_string e),
      an_to_apply = migration_ids (to_apply plan), an_to_rollback = migration_ids (to_rollback plan),
      an_interleaved = migration_ids (plan_interleaved plan), an_blocked = (blocked \<noteq> None)\<rparr>"

definition to_result :: "migrate_result \<Rightarrow> api_result" where
  "to_result r =
     \<lparr>ar_applied = migration_ids (res_applied r), ar_rolled_back = migration_ids (res_rolled_back r),
      ar_extras_left = migration_ids (res_extras_left r), ar_interleaved = migration_ids (res_interleaved r)\<rparr>"

definition status_record :: "applied_migration \<Rightarrow> api_applied" where
  "status_record m =
     \<lparr>aa_applied_at = am_applied_at m, aa_id = am_id m,
      aa_error = (case am_error m of None \<Rightarrow> [] | Some e \<Rightarrow> e), aa_down_script = am_down_script m,
      aa_failed = (am_error m \<noteq> None)\<rparr>"

section \<open>The entry points\<close>

text \<open>A call answers with the world after it, a result, which is nil when there is none, and an error or nil.\<close>

type_synonym ('w, 'r) call = "'w \<Rightarrow> 'w \<times> 'r option \<times> goerr option"

definition Reconcile ::
  "unicode \<Rightarrow> ctx \<Rightarrow> 'w sql_db option \<Rightarrow> fsys option \<Rightarrow> api_option list \<Rightarrow> ('w, api_result) call" where
  "Reconcile U c sql_d F opts w =
     (case api_service U sql_d F opts of
        Inl e \<Rightarrow> (w, None, Some e)
      | Inr (svc, cfg, l) \<Rightarrow>
          (case reconcile svc c (run_options_of cfg) (w, l) of ((w', _), r, err) \<Rightarrow> (w', Some (to_result r), err)))"

definition Up :: "unicode \<Rightarrow> ctx \<Rightarrow> 'w sql_db option \<Rightarrow> fsys option \<Rightarrow> api_option list \<Rightarrow> ('w, api_result) call" where
  "Up U c sql_d F opts w =
     (case api_service U sql_d F opts of
        Inl e \<Rightarrow> (w, None, Some e)
      | Inr (svc, cfg, l) \<Rightarrow> (case up svc c (w, l) of ((w', _), r, err) \<Rightarrow> (w', Some (to_result r), err)))"

definition all_migrations :: int where "all_migrations = -1"

definition api_rollback :: "unicode \<Rightarrow> ctx \<Rightarrow> 'w sql_db option \<Rightarrow> int \<Rightarrow> api_option list \<Rightarrow> ('w, api_result) call" where
  "api_rollback U c sql_d count opts w =
     (case api_service U sql_d (Some empty_fs) opts of
        Inl e \<Rightarrow> (w, None, Some e)
      | Inr (svc, cfg, l) \<Rightarrow> (case rollback svc c count (w, l) of ((w', _), r, err) \<Rightarrow> (w', Some (to_result r), err)))"

definition Down :: "unicode \<Rightarrow> ctx \<Rightarrow> 'w sql_db option \<Rightarrow> int \<Rightarrow> api_option list \<Rightarrow> ('w, api_result) call" where
  "Down U c sql_d count opts w =
     (if count \<le> 0 then
        (w, None, Some (Errorf [Lit ''migrate: Down count must be positive, got '', Num count,
           Lit ''; use DownAll to roll back everything'']))
      else api_rollback U c sql_d count opts w)"

definition DownAll :: "unicode \<Rightarrow> ctx \<Rightarrow> 'w sql_db option \<Rightarrow> api_option list \<Rightarrow> ('w, api_result) call" where
  "DownAll U c sql_d opts w = api_rollback U c sql_d all_migrations opts w"

definition Plan :: "unicode \<Rightarrow> ctx \<Rightarrow> 'w sql_db option \<Rightarrow> fsys option \<Rightarrow> api_option list \<Rightarrow> ('w, analysis) call" where
  "Plan U c sql_d F opts w =
     (case api_service U sql_d F opts of
        Inl e \<Rightarrow> (w, None, Some e)
      | Inr (svc, cfg, l) \<Rightarrow>
          (case build_reconcile_plan svc c (run_options_of cfg) w of
             (w', Inl e) \<Rightarrow> (w', None, Some e)
           | (w', Inr a) \<Rightarrow> (w', Some (to_analysis (ra_plan a) (ra_blocked_by a)), None)))"

definition Forget :: "unicode \<Rightarrow> ctx \<Rightarrow> 'w sql_db option \<Rightarrow> string \<Rightarrow> api_option list \<Rightarrow> 'w \<Rightarrow> 'w \<times> goerr option" where
  "Forget U c sql_d i opts w =
     (case api_service U sql_d (Some empty_fs) opts of
        Inl e \<Rightarrow> (w, Some e)
      | Inr (svc, cfg, l) \<Rightarrow> (case forget svc c i (w, l) of ((w', _), err) \<Rightarrow> (w', err)))"

definition Baseline ::
  "unicode \<Rightarrow> ctx \<Rightarrow> 'w sql_db option \<Rightarrow> fsys option \<Rightarrow> string \<Rightarrow> api_option list \<Rightarrow> ('w, api_result) call" where
  "Baseline U c sql_d F through_id opts w =
     (if through_id = [] then
        (w, None, Some (Errorf [Lit ''migrate: Baseline requires the ID to baseline through'']))
      else
        case api_service U sql_d F opts of
          Inl e \<Rightarrow> (w, None, Some e)
        | Inr (svc, cfg, l) \<Rightarrow>
            (case baseline svc c through_id (w, l) of ((w', _), r, err) \<Rightarrow> (w', Some (to_result r), err)))"

definition Status :: "unicode \<Rightarrow> ctx \<Rightarrow> 'w sql_db option \<Rightarrow> api_option list \<Rightarrow> ('w, api_applied list) call" where
  "Status U c sql_d opts w =
     (case api_service U sql_d (Some empty_fs) opts of
        Inl e \<Rightarrow> (w, None, Some e)
      | Inr (svc, cfg, l) \<Rightarrow>
          (case applied_migrations svc c w of
             (w', Inl e) \<Rightarrow> (w', None, Some e)
           | (w', Inr ms) \<Rightarrow> (w', Some (map status_record ms), None)))"

end
