(* ===== verification/Config.thy ===== *)
theory Config
  imports Api
begin

text \<open>
  \<open>cmd/pg-migrate/config.go\<close> and the flag handling of \<open>cmd/pg-migrate/main.go\<close>: the environment, the flags that
  override it, and the library options made of both. \<open>time.ParseDuration\<close> and \<open>strconv.Atoi\<close> are written out;
  the float64 product that gives a duration its fraction is the parameter \<open>frac\<close>, of the fraction's digits, their
  scale and the unit.
\<close>

section \<open>Numbers\<close>

definition is_digit_char :: "char \<Rightarrow> bool" where
  "is_digit_char c \<longleftrightarrow> 48 \<le> byte c \<and> byte c \<le> 57"

definition digit_value :: "char \<Rightarrow> nat" where
  "digit_value c = byte c - 48"

fun leading_int :: "nat \<Rightarrow> string \<Rightarrow> (nat \<times> string) option" where
  "leading_int x [] = Some (x, [])"
| "leading_int x (c # s) =
     (if \<not> is_digit_char c then Some (x, c # s)
      else if 2 ^ 63 div 10 < x then None
      else if 2 ^ 63 < x * 10 + digit_value c then None
      else leading_int (x * 10 + digit_value c) s)"

text \<open>Digits that do not fit any more are read and dropped.\<close>

fun leading_fraction :: "bool \<Rightarrow> nat \<Rightarrow> nat \<Rightarrow> string \<Rightarrow> nat \<times> nat \<times> string" where
  "leading_fraction overflow x scale [] = (x, scale, [])"
| "leading_fraction overflow x scale (c # s) =
     (if \<not> is_digit_char c then (x, scale, c # s)
      else if overflow \<or> (2 ^ 63 - 1) div 10 < x \<or> 2 ^ 63 < x * 10 + digit_value c then leading_fraction True x scale s
      else leading_fraction False (x * 10 + digit_value c) (scale * 10) s)"

definition duration_unit :: "string \<Rightarrow> nat option" where
  "duration_unit u =
     map_of [(''ns'', 1), (''us'', 1000), ([CHR 0xC2, CHR 0xB5, CHR ''s''], 1000), ([CHR 0xCE, CHR 0xBC, CHR ''s''], 1000),
       (''ms'', 1000000), (''s'', 1000000000), (''m'', 60000000000), (''h'', 3600000000000)] u"

definition invalid_duration :: "string \<Rightarrow> goerr" where
  "invalid_duration orig = Errorf [Lit ''time: invalid duration '', Quo orig]"

lemma leading_int_length: "leading_int x s = Some (v, r) \<Longrightarrow> length r \<le> length s"
  by (induction x s rule: leading_int.induct) (auto split: if_splits)

lemma leading_fraction_length: "leading_fraction b x scale s = (f, sc, r) \<Longrightarrow> length r \<le> length s"
  by (induction b x scale s rule: leading_fraction.induct) (auto split: if_splits)

definition unit_text :: "string \<Rightarrow> string" where
  "unit_text s = takeWhile (\<lambda>c. c \<noteq> CHR ''.'' \<and> \<not> is_digit_char c) s"

text \<open>
  One number with its unit: the value, the fraction's digits with their scale, and the rest from the unit on. \<open>None\<close> is
  the invalid duration.
\<close>

definition read_number :: "string \<Rightarrow> (nat \<times> nat \<times> nat \<times> string) option" where
  "read_number s =
     (if s = [] \<or> \<not> (hd s = CHR ''.'' \<or> is_digit_char (hd s)) then None
      else case leading_int 0 s of
        None \<Rightarrow> None
      | Some (v, s1) \<Rightarrow>
          (if s1 \<noteq> [] \<and> hd s1 = CHR ''.'' then
             (case leading_fraction False 0 1 (tl s1) of (f, scale, s2) \<Rightarrow>
                if length s1 = length s \<and> length s2 = length (tl s1) then None else Some (v, f, scale, s2))
           else if length s1 = length s then None
           else Some (v, 0, 1, s1)))"

lemma read_number_length: "read_number s = Some (v, f, scale, r) \<Longrightarrow> length r \<le> length s"
  by (auto simp: read_number_def dest!: leading_int_length leading_fraction_length split: if_splits option.splits prod.splits)

lemma unit_text_drop: "unit_text r \<noteq> [] \<Longrightarrow> length r \<le> n \<Longrightarrow> length r - length (unit_text r) < n"
  by (cases r) (auto simp: unit_text_def)

function parse_groups :: "(nat \<Rightarrow> nat \<Rightarrow> nat \<Rightarrow> nat) \<Rightarrow> string \<Rightarrow> nat \<Rightarrow> string \<Rightarrow> nat result" where
  "parse_groups frac orig d s =
     (if s = [] then Inr d
      else case read_number s of
        None \<Rightarrow> Inl (invalid_duration orig)
      | Some (v, f, scale, r) \<Rightarrow>
          (let u = unit_text r
           in if u = [] then Inl (Errorf [Lit ''time: missing unit in duration '', Quo orig])
              else case duration_unit u of
                None \<Rightarrow> Inl (Errorf [Lit ''time: unknown unit '', Quo u, Lit '' in duration '', Quo orig])
              | Some unit \<Rightarrow>
                  if 2 ^ 63 div unit < v then Inl (invalid_duration orig)
                  else
                    let v = v * unit + (if 0 < f then frac f scale unit else 0)
                    in if 2 ^ 63 < v \<or> 2 ^ 63 < (d + v) mod 2 ^ 64 then Inl (invalid_duration orig)
                       else parse_groups frac orig ((d + v) mod 2 ^ 64) (drop (length u) r)))"
  by pat_completeness auto
termination
  by (relation "measure (\<lambda>(frac, orig, d, s). length s)") (auto dest!: read_number_length simp: unit_text_drop)

declare parse_groups.simps [simp del]

definition parse_duration :: "(nat \<Rightarrow> nat \<Rightarrow> nat \<Rightarrow> nat) \<Rightarrow> string \<Rightarrow> int result" where
  "parse_duration frac orig =
     (let neg = orig \<noteq> [] \<and> hd orig = CHR ''-'';
          s = (if orig \<noteq> [] \<and> (hd orig = CHR ''-'' \<or> hd orig = CHR ''+'') then tl orig else orig)
      in if s = ''0'' then Inr 0
         else if s = [] then Inl (invalid_duration orig)
         else case parse_groups frac orig 0 s of
           Inl e \<Rightarrow> Inl e
         | Inr d \<Rightarrow>
             if neg then Inr (- int d)
             else if 2 ^ 63 - 1 < d then Inl (invalid_duration orig)
             else Inr (int d))"

text \<open>\<open>strconv.Atoi\<close>; only whether it fails is used.\<close>

definition atoi :: "string \<Rightarrow> int option" where
  "atoi s =
     (let neg = s \<noteq> [] \<and> hd s = CHR ''-'';
          ds = (if s \<noteq> [] \<and> (hd s = CHR ''-'' \<or> hd s = CHR ''+'') then tl s else s);
          n = foldl (\<lambda>n c. n * 10 + digit_value c) 0 ds
      in if ds = [] \<or> \<not> list_all is_digit_char ds \<or> (if neg then 2 ^ 63 < n else 2 ^ 63 \<le> n) then None
         else Some (if neg then - int n else int n))"

section \<open>config.go\<close>

definition cli_lock_timeout :: int where "cli_lock_timeout = 5 * 60 * 1000000000"

record cli_config =
  cc_migration_path :: string
  cc_postgres :: postgres_config
  cc_lock_timeout :: int

fun first_non_empty :: "string list \<Rightarrow> string" where
  "first_non_empty [] = []"
| "first_non_empty (v # vs) = (if v \<noteq> [] then v else first_non_empty vs)"

definition config_lock_timeout :: "(nat \<Rightarrow> nat \<Rightarrow> nat \<Rightarrow> nat) \<Rightarrow> string \<Rightarrow> int result" where
  "config_lock_timeout frac raw =
     (if raw = [] then Inr cli_lock_timeout
      else case parse_duration frac raw of
        Inl e \<Rightarrow>
          Inl (wrapf [Lit ''invalid MIGRATION_LOCK_TIMEOUT '', Quo raw, Lit '': expected a duration such as 30s or 5m: ''] e)
      | Inr parsed \<Rightarrow>
          if parsed \<le> 0 then Inl (Errorf [Lit ''invalid MIGRATION_LOCK_TIMEOUT '', Quo raw, Lit '': must be positive''])
          else Inr parsed)"

text \<open>The environment is a function; an unset variable reads as the empty string.\<close>

definition new_config :: "(nat \<Rightarrow> nat \<Rightarrow> nat \<Rightarrow> nat) \<Rightarrow> (string \<Rightarrow> string) \<Rightarrow> cli_config result" where
  "new_config frac getenv =
     (case config_lock_timeout frac (getenv ''MIGRATION_LOCK_TIMEOUT'') of
        Inl e \<Rightarrow> Inl e
      | Inr timeout \<Rightarrow>
          Inr \<lparr>cc_migration_path = getenv ''MIGRATION_PATH'',
            cc_postgres =
              \<lparr>cfg_dsn = first_non_empty [getenv ''DATABASE_URL'', getenv ''POSTGRES_DSN''],
               cfg_host = getenv ''POSTGRES_HOST'', cfg_port = getenv ''POSTGRES_PORT'', cfg_user = getenv ''POSTGRES_USER'',
               cfg_password = getenv ''POSTGRES_PASSWORD'', cfg_db_name = getenv ''POSTGRES_DB'',
               cfg_ssl_mode = getenv ''POSTGRES_SSLMODE'', cfg_lock_timeout = 0, cfg_lock_timeout_set = False, cfg_lock_id = 0\<rparr>,
            cc_lock_timeout = timeout\<rparr>)"

section \<open>Flags\<close>

record cli_flags =
  fl_lock_timeout :: string
  fl_lock_id :: int
  fl_migration_path :: string
  fl_table :: string
  fl_schema :: string
  fl_dsn :: string
  fl_ssl_mode :: string

text \<open>What the flags are when the command line does not give them.\<close>

definition default_flags :: cli_flags where
  "default_flags = \<lparr>fl_lock_timeout = [], fl_lock_id = 0, fl_migration_path = [], fl_table = [], fl_schema = [], fl_dsn = [],
     fl_ssl_mode = []\<rparr>"

definition default_log_level :: string where "default_log_level = ''info''"
definition default_log_format :: string where "default_log_format = ''text''"

definition build_options ::
  "(nat \<Rightarrow> nat \<Rightarrow> nat \<Rightarrow> nat) \<Rightarrow> cli_config \<Rightarrow> cli_flags \<Rightarrow> bool \<Rightarrow> bool \<Rightarrow> api_option list result" where
  "build_options frac cfg fl rollbacks interleaves =
     (case (if fl_lock_timeout fl = [] then Inr (cc_lock_timeout cfg)
            else case parse_duration frac (fl_lock_timeout fl) of
              Inl e \<Rightarrow> Inl (wrapf [Lit ''invalid --lock-timeout '', Quo (fl_lock_timeout fl), Lit '': ''] e)
            | Inr parsed \<Rightarrow> Inr parsed) of
        Inl e \<Rightarrow> Inl e
      | Inr timeout \<Rightarrow>
          Inr ([with_lock_timeout timeout]
            @ (if fl_lock_id fl \<noteq> 0 then [with_lock_id (fl_lock_id fl)] else [])
            @ (if fl_table fl \<noteq> [] then [with_table_name (fl_table fl)] else [])
            @ (if fl_schema fl \<noteq> [] then [with_schema (fl_schema fl)] else [])
            @ (if rollbacks then [with_rollback] else [])
            @ (if interleaves then [with_interleaved] else [])))"

definition resolve_path :: "cli_config \<Rightarrow> cli_flags \<Rightarrow> string result" where
  "resolve_path cfg fl =
     (let path = (if fl_migration_path fl \<noteq> [] then fl_migration_path fl else cc_migration_path cfg)
      in if path = [] then
           Inl (Errorf [Lit ''migration path is required (use --migration-path flag or MIGRATION_PATH env var)''])
         else Inr path)"

definition connect_config :: "cli_config \<Rightarrow> cli_flags \<Rightarrow> postgres_config" where
  "connect_config cfg fl =
     (let pg = cc_postgres cfg;
          pg = (if fl_dsn fl \<noteq> [] then pg\<lparr>cfg_dsn := fl_dsn fl\<rparr> else pg)
      in if fl_ssl_mode fl \<noteq> [] then pg\<lparr>cfg_ssl_mode := fl_ssl_mode fl\<rparr> else pg)"

definition add_cli_hint :: "goerr \<Rightarrow> goerr" where
  "add_cli_hint e =
     (if error_is e ErrDivergence then
        Errorf [Wrap e, Lit '' (re-run with --allow-rollback to roll back missing migrations)'']
      else if error_is e ErrInterleaved then
        Errorf [Wrap e, Lit '' (re-run with --allow-interleaved to apply out-of-order migrations)'']
      else if error_is e ErrFailedMigrations then Errorf [Wrap e, Lit '' (see `migrate status` for the recorded error)'']
      else e)"

text \<open>\<open>down\<close>'s argument: \<open>None\<close> is \<open>all\<close>.\<close>

definition down_count :: "string \<Rightarrow> int option result" where
  "down_count arg =
     (if arg = ''all'' then Inr None
      else case atoi arg of
        Some count \<Rightarrow>
          if count \<le> 0 then
            Inl (Errorf [Lit ''invalid count argument: '', Lit arg, Lit '' (must be positive integer or 'all')''])
          else Inr (Some count)
      | None \<Rightarrow> Inl (Errorf [Lit ''invalid count argument: '', Lit arg, Lit '' (must be positive integer or 'all')'']))"

section \<open>Logging\<close>

datatype log_level = Level_Debug | Level_Info | Level_Warn | Level_Error

definition log_level_of :: "unicode \<Rightarrow> string \<Rightarrow> log_level result" where
  "log_level_of U level =
     (let l = to_lower U level
      in if l = ''debug'' then Inr Level_Debug
         else if l = ''info'' then Inr Level_Info
         else if l = ''warn'' \<or> l = ''warning'' then Inr Level_Warn
         else if l = ''error'' then Inr Level_Error
         else Inl (Errorf [Lit ''invalid --log-level '', Quo level, Lit '': expected debug, info, warn or error'']))"

text \<open>The second component of the answer is whether the handler writes JSON.\<close>

definition setup_logging :: "unicode \<Rightarrow> string \<Rightarrow> string \<Rightarrow> (log_level \<times> bool) result" where
  "setup_logging U level format =
     (case log_level_of U level of
        Inl e \<Rightarrow> Inl e
      | Inr l \<Rightarrow>
          (let f = to_lower U format
           in if f = ''text'' then Inr (l, False)
              else if f = ''json'' then Inr (l, True)
              else Inl (Errorf [Lit ''invalid --log-format '', Quo format, Lit '': expected text or json''])))"

end
