(* ===== verification/Dsn.thy ===== *)
theory Dsn
  imports Lock Ascii_Text
begin

text \<open>
  \<open>internal/db/postgres.go\<close>, \<open>GetDataSource\<close> and \<open>quoteDSNValue\<close>: the connection string in keyword/value form,
  and how libpq reads it, which is what the quoting has to survive.
\<close>

definition quote_dsn_value :: "string \<Rightarrow> string" where
  "quote_dsn_value s =
     (if \<not> (\<exists>c \<in> set s. c \<in> {CHR '' '', SQ, BSL}) then s
      else [SQ] @ concat (map (\<lambda>(r, b). (if r = byte SQ \<or> r = byte BSL then [BSL] else []) @ encode_rune r) (runes s)) @ [SQ])"

definition dsn_fields :: "postgres_config \<Rightarrow> (string \<times> string) list" where
  "dsn_fields c =
     [(''host'', cfg_host c), (''port'', cfg_port c), (''user'', cfg_user c), (''password'', cfg_password c),
      (''dbname'', cfg_db_name c), (''sslmode'', cfg_ssl_mode c)]"

definition get_data_source :: "postgres_config \<Rightarrow> string" where
  "get_data_source c =
     (if cfg_dsn c \<noteq> [] then cfg_dsn c
      else join '' '' (map (\<lambda>(k, v). k @ ''='' @ quote_dsn_value v) (filter (\<lambda>(k, v). v \<noteq> []) (dsn_fields c))))"

section \<open>Reading a connection string\<close>

text \<open>
  libpq's rules: blanks separate the pairs; a bare value ends at a blank, a quoted one at the closing quote; a
  backslash makes the next byte literal in either.
\<close>

definition dsn_blank :: "char \<Rightarrow> bool" where
  "dsn_blank c \<longleftrightarrow> byte c \<in> {9, 10, 11, 12, 13, 32}"

fun read_bare :: "string \<Rightarrow> string \<times> string" where
  "read_bare [] = ([], [])"
| "read_bare [c] = (if dsn_blank c then ([], [c]) else if c = BSL then ([], []) else ([c], []))"
| "read_bare (c # d # s) =
     (if dsn_blank c then ([], c # d # s)
      else if c = BSL then (case read_bare s of (v, r) \<Rightarrow> (d # v, r))
      else (case read_bare (d # s) of (v, r) \<Rightarrow> (c # v, r)))"

fun read_single :: "string \<Rightarrow> (string \<times> string) option" where
  "read_single [] = None"
| "read_single [c] = (if c = SQ then Some ([], []) else None)"
| "read_single (c # d # s) =
     (if c = SQ then Some ([], d # s)
      else if c = BSL then map_option (\<lambda>(v, r). (d # v, r)) (read_single s)
      else map_option (\<lambda>(v, r). (c # v, r)) (read_single (d # s)))"

definition read_value :: "string \<Rightarrow> (string \<times> string) option" where
  "read_value s = (case s of c # t \<Rightarrow> if c = SQ then read_single t else Some (read_bare s) | [] \<Rightarrow> Some ([], []))"

text \<open>One pair and what follows it, with the blanks around it; \<open>fuel\<close> bounds the number of pairs.\<close>

definition read_pair :: "string \<Rightarrow> ((string \<times> string) \<times> string) option" where
  "read_pair s =
     (let key = takeWhile (\<lambda>c. c \<noteq> CHR ''='' \<and> \<not> dsn_blank c) s
      in case dropWhile dsn_blank (drop (length key) s) of
           [] \<Rightarrow> None
         | c # t \<Rightarrow>
             if c \<noteq> CHR ''='' then None
             else map_option (\<lambda>(v, r). ((key, v), dropWhile dsn_blank r)) (read_value (dropWhile dsn_blank t)))"

fun read_dsn :: "nat \<Rightarrow> string \<Rightarrow> (string \<times> string) list option" where
  "read_dsn fuel [] = Some []"
| "read_dsn 0 (c # s) = None"
| "read_dsn (Suc fuel) (c # s) =
     (case read_pair (c # s) of
        None \<Rightarrow> None
      | Some (p, r) \<Rightarrow> map_option (\<lambda>ps. p # ps) (read_dsn fuel r))"

section \<open>Quoting survives reading\<close>

text \<open>A text that decoding to runes and encoding again gives back: valid UTF-8.\<close>

definition utf8 :: "string \<Rightarrow> bool" where
  "utf8 s \<longleftrightarrow> concat (map (\<lambda>(r, b). encode_rune r) (runes s)) = s"

definition dsn_value_ok :: "string \<Rightarrow> bool" where
  "dsn_value_ok s \<longleftrightarrow> utf8 s \<and> (\<forall>c \<in> set s. dsn_blank c \<longrightarrow> c = CHR '' '')"

lemma read_single_plain: "c \<noteq> SQ \<Longrightarrow> c \<noteq> BSL \<Longrightarrow> read_single (c # s) = map_option (\<lambda>(v, r). (c # v, r)) (read_single s)"
  by (cases s) auto

lemma read_single_plains:
  "\<forall>c \<in> set t. c \<noteq> SQ \<and> c \<noteq> BSL \<Longrightarrow> read_single (t @ s) = map_option (\<lambda>(v, r). (t @ v, r)) (read_single s)"
  by (induction t) (auto simp: read_single_plain option.map_comp comp_def split_def option.map_ident)

lemma read_single_escape: "read_single (BSL # c # s) = map_option (\<lambda>(v, r). (c # v, r)) (read_single s)"
  by simp

lemma read_single_rune:
  "read_single (((if r = byte SQ \<or> r = byte BSL then [BSL] else []) @ encode_rune r) @ s)
     = map_option (\<lambda>(v, q). (encode_rune r @ v, q)) (read_single s)"
proof (cases "r < 128")
  case True
  show ?thesis
  proof (cases "r = byte SQ \<or> r = byte BSL")
    case False
    have "r = byte (char_of r)" using True by simp
    then have "char_of r \<noteq> SQ" "char_of r \<noteq> BSL" using False by metis+
    with True False show ?thesis by (simp add: encode_rune_ascii read_single_plain)
  qed (use True in \<open>auto simp: encode_rune_ascii\<close>)
next
  case False
  then have "\<forall>c \<in> set (encode_rune r). c \<noteq> SQ \<and> c \<noteq> BSL" using encode_rune_high [of r] by force
  moreover have "r \<noteq> byte SQ" "r \<noteq> byte BSL" using False by auto
  ultimately show ?thesis by (simp add: read_single_plains)
qed

lemma read_single_runes:
  "read_single (concat (map (\<lambda>(r, b). (if r = byte SQ \<or> r = byte BSL then [BSL] else []) @ encode_rune r) rs) @ SQ # q)
     = Some (concat (map (\<lambda>(r, b). encode_rune r) rs), q)"
proof (induction rs)
  case Nil
  then show ?case by (cases q) auto
next
  case (Cons x rs)
  obtain r b where x: "x = (r, b)" by force
  show ?case using Cons unfolding x list.map concat.simps prod.case append_assoc
    by (subst append_assoc [symmetric], subst read_single_rune) simp
qed

lemma read_bare_plain:
  assumes "\<forall>c \<in> set v. \<not> dsn_blank c \<and> c \<noteq> BSL" "q = [] \<or> dsn_blank (hd q)"
  shows "read_bare (v @ q) = (v, q)"
  using assms
proof (induction v)
  case Nil
  then show ?case by (cases q; cases "tl q") auto
next
  case (Cons c v)
  then show ?case by (cases "v @ q") auto
qed

lemma read_value_quote:
  assumes "dsn_value_ok v" "v \<noteq> []" "q = [] \<or> dsn_blank (hd q)"
  shows "read_value (quote_dsn_value v @ q) = Some (v, q)"
proof (cases "\<exists>c \<in> set v. c \<in> {CHR '' '', SQ, BSL}")
  case True
  then show ?thesis
    using assms(1) read_single_runes [of "runes v" q]
    by (simp add: quote_dsn_value_def read_value_def dsn_value_ok_def utf8_def)
next
  case False
  then have "\<forall>c \<in> set v. \<not> dsn_blank c \<and> c \<noteq> BSL" "hd v \<noteq> SQ"
    using assms(1,2) by (auto simp: dsn_value_ok_def)
  with False assms(2,3) show ?thesis
    using read_bare_plain [of v q] by (cases v) (simp_all add: quote_dsn_value_def read_value_def)
qed

text \<open>Keywords have no blank and no equals sign.\<close>

definition dsn_key_ok :: "string \<Rightarrow> bool" where
  "dsn_key_ok k \<longleftrightarrow> k \<noteq> [] \<and> (\<forall>c \<in> set k. c \<noteq> CHR ''='' \<and> \<not> dsn_blank c)"

lemma dsn_blank_simps [simp]: "dsn_blank (CHR '' '')" "\<not> dsn_blank (CHR ''='')" "\<not> dsn_blank SQ"
  by (simp_all add: dsn_blank_def)

lemma quote_not_blank: "dsn_value_ok v \<Longrightarrow> v \<noteq> [] \<Longrightarrow> quote_dsn_value v \<noteq> [] \<and> \<not> dsn_blank (hd (quote_dsn_value v))"
  by (cases v) (auto simp: quote_dsn_value_def dsn_value_ok_def)

lemma read_pair_quote:
  assumes "dsn_key_ok k" "dsn_value_ok v" "v \<noteq> []" "q = [] \<or> dsn_blank (hd q)"
  shows "read_pair (k @ CHR ''='' # quote_dsn_value v @ q) = Some ((k, v), dropWhile dsn_blank q)"
proof -
  have key: "takeWhile (\<lambda>c. c \<noteq> CHR ''='' \<and> \<not> dsn_blank c) (k @ CHR ''='' # quote_dsn_value v @ q) = k"
    using assms(1) by (subst takeWhile_append2) (auto simp: dsn_key_ok_def)
  have "dropWhile dsn_blank (quote_dsn_value v @ q) = quote_dsn_value v @ q"
    using quote_not_blank [OF assms(2,3)] by (cases "quote_dsn_value v") auto
  then show ?thesis
    using read_value_quote [OF assms(2-4)] by (simp add: read_pair_def key)
qed

lemma join_Cons: "join sep (x # xs) = x @ (if xs = [] then [] else sep @ join sep xs)"
  by (cases xs) auto

abbreviation dsn_pair :: "string \<times> string \<Rightarrow> string" where
  "dsn_pair p \<equiv> (case p of (k, v) \<Rightarrow> k @ ''='' @ quote_dsn_value v)"

definition dsn_pair_ok :: "string \<times> string \<Rightarrow> bool" where
  "dsn_pair_ok p \<longleftrightarrow> dsn_key_ok (fst p) \<and> dsn_value_ok (snd p) \<and> snd p \<noteq> []"

lemma no_leading_blank:
  assumes "dsn_pair_ok p"
  shows "dropWhile dsn_blank (join '' '' (map dsn_pair (p # ps))) = join '' '' (map dsn_pair (p # ps))"
proof -
  obtain a t where "fst p = a # t" "\<not> dsn_blank a" using assms by (cases "fst p") (auto simp: dsn_pair_ok_def dsn_key_ok_def)
  then show ?thesis by (cases p) (simp add: join_Cons)
qed

lemma read_dsn_join:
  assumes "\<forall>p \<in> set ps. dsn_pair_ok p" "length ps \<le> fuel"
  shows "read_dsn fuel (join '' '' (map dsn_pair ps)) = Some ps"
  using assms
proof (induction ps arbitrary: fuel)
  case (Cons p ps)
  obtain k v where p: "p = (k, v)" by force
  obtain n where n: "fuel = Suc n" "length ps \<le> n" using Cons.prems(2) by (cases fuel) auto
  let ?q = "if ps = [] then [] else '' '' @ join '' '' (map dsn_pair ps)"
  have whole: "join '' '' (map dsn_pair (p # ps)) = k @ CHR ''='' # quote_dsn_value v @ ?q"
    by (simp add: p join_Cons)
  obtain a t where k: "k = a # t" using Cons.prems(1) by (cases k) (auto simp: p dsn_pair_ok_def dsn_key_ok_def)
  have rest: "dropWhile dsn_blank ?q = join '' '' (map dsn_pair ps)"
    using Cons.prems(1) no_leading_blank [of "hd ps" "tl ps"] by (cases ps) auto
  have pair: "read_pair (k @ CHR ''='' # quote_dsn_value v @ ?q) = Some ((k, v), dropWhile dsn_blank ?q)"
    by (rule read_pair_quote) (use Cons.prems(1) in \<open>auto simp: p dsn_pair_ok_def\<close>)
  have "read_dsn n (join '' '' (map dsn_pair ps)) = Some ps" using Cons n(2) by simp
  with pair show ?case unfolding whole n(1) rest by (simp add: k p)
qed simp

declare quote_dsn_value_def [go_eval] dsn_fields_def [go_eval] get_data_source_def [go_eval] dsn_blank_def [go_eval]
declare read_value_def [go_eval] read_pair_def [go_eval] utf8_def [go_eval] dsn_value_ok_def [go_eval]

section \<open>The properties\<close>

text \<open>
  C32: a connection string built from discrete fields whose values are valid UTF-8 and hold no white space but the
  space (no tab and no line break, which are not quoted: \<open>dsn_tab_breaks\<close>) is read back as exactly the fields that are
  set, whatever spaces, quotes and backslashes the values hold; reading takes no more turns than there are fields.
\<close>

theorem dsn_reads_back:
  assumes "cfg_dsn c = []" "\<forall>(k, v) \<in> set (dsn_fields c). dsn_value_ok v" "6 \<le> fuel"
  shows "read_dsn fuel (get_data_source c) = Some (filter (\<lambda>(k, v). v \<noteq> []) (dsn_fields c))"
proof -
  let ?ps = "filter (\<lambda>(k, v). v \<noteq> []) (dsn_fields c)"
  have "\<forall>p \<in> set (dsn_fields c). dsn_key_ok (fst p)"
    by (simp add: dsn_fields_def dsn_key_ok_def dsn_blank_def)
  then have "\<forall>p \<in> set ?ps. dsn_pair_ok p" using assms(2) by (auto simp: dsn_pair_ok_def)
  moreover have "length ?ps \<le> fuel"
    using length_filter_le [of "\<lambda>(k, v). v \<noteq> []" "dsn_fields c"] assms(3) by (simp add: dsn_fields_def)
  ultimately show ?thesis using assms(1) read_dsn_join by (simp add: get_data_source_def)
qed

theorem dsn_reads_back_witness:
  "read_dsn 6 (get_data_source \<lparr>cfg_dsn = [], cfg_host = ''h'', cfg_port = [], cfg_user = [], cfg_password = [CHR ''a'', SQ, CHR '' '', BSL],
      cfg_db_name = [], cfg_ssl_mode = [], cfg_lock_timeout = 0, cfg_lock_timeout_set = False, cfg_lock_id = 0\<rparr>)
    = Some [(''host'', ''h''), (''password'', [CHR ''a'', SQ, CHR '' '', BSL])]"
  by (subst dsn_reads_back) (simp_all add: go_eval char_of_def Let_def bit_0)

text \<open>Other blanks are not quoted: a tab in the password ends it, and what follows is no pair.\<close>

lemma dsn_tab_breaks:
  "read_dsn fuel (get_data_source \<lparr>cfg_dsn = [], cfg_host = [], cfg_port = [], cfg_user = [], cfg_password = [CHR ''a'', CHR 0x09, CHR ''b''],
      cfg_db_name = [], cfg_ssl_mode = [], cfg_lock_timeout = 0, cfg_lock_timeout_set = False, cfg_lock_id = 0\<rparr>) = None"
  by (cases fuel; cases "fuel - 1") (simp_all add: go_eval char_of_def Let_def)

end
