(* ===== verification/Commands.thy ===== *)
theory Commands
  imports Config Dsn New_Command
begin

text \<open>
  The commands of \<open>cmd/pg-migrate\<close>: what each \<open>RunE\<close> of main.go does with its flags and arguments, validate.go,
  version.go and \<open>run\<close>, over the public package. Parsing of the command line is cobra's; connecting is pgx's and a
  parameter, as are the JSON encoder and the rendering of times. Log lines are left out; a command answers with what
  it prints to standard output and its error.
\<close>

section \<open>version.go\<close>

record build_info =
  bi_go_version :: string
  bi_main_version :: string
  bi_settings :: "(string \<times> string) list"

definition dev_version :: string where "dev_version = ''dev''"
definition setting_revision :: string where "setting_revision = ''vcs.revision''"
definition setting_modified :: string where "setting_modified = ''vcs.modified''"
definition setting_goos :: string where "setting_goos = ''GOOS''"
definition setting_goarch :: string where "setting_goarch = ''GOARCH''"
definition short_revision_length :: nat where "short_revision_length = 12"

text \<open>The last setting of a key counts, as the loop overwrites the earlier ones.\<close>

definition setting :: "build_info \<Rightarrow> string \<Rightarrow> string" where
  "setting info key = foldl (\<lambda>v (k, x). if k = key then x else v) [] (bi_settings info)"

definition revision_from :: "build_info \<Rightarrow> string" where
  "revision_from info =
     (let revision = setting info setting_revision; modified = setting info setting_modified
      in if revision = [] then dev_version
         else let revision = (if short_revision_length < length revision then take short_revision_length revision else revision)
           in if modified = ''true'' then revision @ ''-dirty'' else revision)"

definition resolve_version :: "build_info option \<Rightarrow> string \<Rightarrow> string" where
  "resolve_version build stamped =
     (if stamped \<noteq> [] \<and> stamped \<noteq> dev_version then stamped
      else case build of
        None \<Rightarrow> dev_version
      | Some info \<Rightarrow>
          if bi_main_version info \<noteq> [] \<and> bi_main_version info \<noteq> ''(devel)'' then bi_main_version info else revision_from info)"

definition build_details :: "build_info option \<Rightarrow> string" where
  "build_details build =
     (case build of
        None \<Rightarrow> []
      | Some info \<Rightarrow>
          (let goos = setting info setting_goos; goarch = setting info setting_goarch;
               parts = (if bi_go_version info \<noteq> [] then [bi_go_version info] else [])
                 @ (if goos \<noteq> [] \<and> goarch \<noteq> [] then [goos @ ''/'' @ goarch] else [])
           in if parts = [] then [] else '' ('' @ join '' '' parts @ '')''))"

text \<open>The version line of the root command; \<open>stamped\<close> is what the build put into \<open>version\<close>, \<open>dev_version\<close> without it.\<close>

definition root_version :: "build_info option \<Rightarrow> string \<Rightarrow> string" where
  "root_version build stamped = resolve_version build stamped @ build_details build"

section \<open>validate.go\<close>

record validated_migration =
  vm_id :: string
  vm_no_transaction :: bool
  vm_irreversible :: bool

record validation_report =
  vr_path :: string
  vr_migrations :: "validated_migration list"
  vr_count :: int

text \<open>A directive of a script; where the header does not parse the map is nil and the answer is no.\<close>

definition script_directive :: "string \<Rightarrow> string \<Rightarrow> bool" where
  "script_directive script d =
     (case parse_directive_header script of Inl _ \<Rightarrow> False | Inr (directives, _) \<Rightarrow> has_directive directives d)"

definition validated_of :: "migration \<Rightarrow> validated_migration" where
  "validated_of m =
     \<lparr>vm_id = mig_id m, vm_no_transaction = script_directive (mig_up_script m) directive_no_transaction,
      vm_irreversible = script_directive (mig_down_script m) directive_irreversible\<rparr>"

definition validate_migrations :: "unicode \<Rightarrow> os_state \<Rightarrow> string \<Rightarrow> validation_report result" where
  "validate_migrations U os p =
     (case get_migrations U (dir_fs os p) of
        Inl e \<Rightarrow> Inl (wrapf [Lit ''migration path '', Lit p, Lit '': ''] e)
      | Inr migrations \<Rightarrow>
          Inr \<lparr>vr_path = p, vr_migrations = map validated_of migrations, vr_count = int (length migrations)\<rparr>)"

definition annotate :: "validated_migration \<Rightarrow> string" where
  "annotate m =
     (if vm_no_transaction m \<and> vm_irreversible m then ''  [notransaction, irreversible]''
      else if vm_no_transaction m then ''  [notransaction]''
      else if vm_irreversible m then ''  [irreversible]''
      else [])"

definition report_text :: "validation_report \<Rightarrow> string" where
  "report_text r =
     (if vr_count r = 0 then ''no migrations found in '' @ vr_path r @ [NL]
      else concat (map (\<lambda>m. ''  '' @ vm_id m @ annotate m @ [NL]) (vr_migrations r))
        @ [NL] @ show_int (vr_count r) @ '' migration(s) in '' @ vr_path r @ '': OK'' @ [NL])"

definition write_validation_report :: "(validation_report \<Rightarrow> string + string) \<Rightarrow> validation_report \<Rightarrow> bool \<Rightarrow> string \<times> goerr option" where
  "write_validation_report encode r as_json =
     (if as_json then
        (case encode r of
           Inl m \<Rightarrow> ([], Some (wrapf [Lit ''encode report: ''] (Extern m)))
         | Inr out \<Rightarrow> (out, None))
      else (report_text r, None))"

section \<open>The environment of a command\<close>

text \<open>
  What \<open>pgx.ParseConfig\<close> answers: the connection string it has read and the runtime parameters, the one part that
  is changed before the pool is opened.
\<close>

record pgx_config =
  px_source :: string
  px_params :: "string \<rightharpoonup> string"

record 'w cli =
  cli_unicode :: unicode
  cli_frac :: "nat \<Rightarrow> nat \<Rightarrow> nat \<Rightarrow> nat"
  cli_flags :: cli_flags
  cli_parse :: "string \<Rightarrow> string + pgx_config"
  cli_open :: "pgx_config \<Rightarrow> 'w sql_db"
  cli_ping :: "'w sql_db \<Rightarrow> 'w \<Rightarrow> 'w \<times> string option"
  cli_close :: "'w sql_db \<Rightarrow> 'w \<Rightarrow> 'w"
  cli_time :: "int \<Rightarrow> string"
  cli_json_plan :: "analysis \<Rightarrow> string + string"
  cli_json_status :: "api_applied list \<Rightarrow> string + string"
  cli_json_report :: "validation_report \<Rightarrow> string + string"

type_synonym 'w outcome = "'w \<times> string \<times> goerr option"

definition application_name :: string where "application_name = ''migrate''"

definition open_sql_db :: "'w cli \<Rightarrow> postgres_config \<Rightarrow> 'w sql_db result" where
  "open_sql_db E cfg =
     (case cli_parse E (get_data_source cfg) of
        Inl m \<Rightarrow> Inl (wrapf [Lit ''parse postgres connection string: ''] (Extern m))
      | Inr px \<Rightarrow> Inr (cli_open E (px\<lparr>px_params := (px_params px)(''application_name'' \<mapsto> application_name)\<rparr>)))"

text \<open>\<open>dbconn.NewPostgres\<close>, which the test helpers use.\<close>

definition new_postgres :: "'w cli \<Rightarrow> postgres_config \<Rightarrow> ('w sql_db \<times> postgres \<times> lock_state) result" where
  "new_postgres E cfg =
     (case open_sql_db E cfg of
        Inl e \<Rightarrow> Inl (wrapf [Lit ''open postgres connection: ''] e)
      | Inr D \<Rightarrow> Inr (D, new_postgres_from_db cfg))"

text \<open>The \<open>Postgres\<close> methods that \<open>Lock\<close> has no use for; the pool may be nil, and \<open>ExportLockConn\<close> is for the tests.\<close>

definition get_db :: "'w sql_db \<times> postgres \<times> lock_state \<Rightarrow> 'w sql_db" where
  "get_db pg = fst pg"

definition close_postgres :: "('w \<Rightarrow> 'w \<times> string option) option \<Rightarrow> 'w \<Rightarrow> 'w \<times> goerr option" where
  "close_postgres pool w =
     (case pool of
        None \<Rightarrow> (w, None)
      | Some close \<Rightarrow>
          (case close w of
             (w', Some m) \<Rightarrow> (w', Some (wrapf [Lit ''close database: ''] (Extern m)))
           | (w', None) \<Rightarrow> (w', None)))"

definition export_lock_conn :: "lock_state \<Rightarrow> nat option" where
  "export_lock_conn l = lock_conn l"

definition connect_db :: "'w cli \<Rightarrow> cli_config \<Rightarrow> 'w \<Rightarrow> 'w \<times> 'w sql_db result" where
  "connect_db E cfg w =
     (case open_sql_db E (connect_config cfg (cli_flags E)) of
        Inl e \<Rightarrow> (w, Inl (wrapf [Lit ''failed to open database connection: ''] e))
      | Inr D \<Rightarrow>
          (case cli_ping E D w of
             (w', Some m) \<Rightarrow> (cli_close E D w', Inl (wrapf [Lit ''failed to connect to database (ping): ''] (Extern m)))
           | (w', None) \<Rightarrow> (w', Inr D)))"

text \<open>The connection a command opens, and closes when it returns.\<close>

definition with_db :: "'w cli \<Rightarrow> cli_config \<Rightarrow> ('w sql_db \<Rightarrow> 'w \<Rightarrow> 'w outcome) \<Rightarrow> 'w \<Rightarrow> 'w outcome" where
  "with_db E cfg k w =
     (case connect_db E cfg w of
        (w', Inl e) \<Rightarrow> (w', [], Some e)
      | (w', Inr D) \<Rightarrow> (case k D w' of (w'', out, err) \<Rightarrow> (cli_close E D w'', out, err)))"

definition print_json :: "string + string \<Rightarrow> string \<times> goerr option" where
  "print_json encoded =
     (case encoded of
        Inl m \<Rightarrow> ([], Some (wrapf [Lit ''encode JSON output: ''] (Extern m)))
      | Inr out \<Rightarrow> (out, None))"

section \<open>The commands\<close>

definition reconcile_command :: "'w cli \<Rightarrow> cli_config \<Rightarrow> os_state \<Rightarrow> bool \<Rightarrow> bool \<Rightarrow> 'w \<Rightarrow> 'w outcome" where
  "reconcile_command E cfg os rollbacks interleaves w =
     (case build_options (cli_frac E) cfg (cli_flags E) rollbacks interleaves of
        Inl e \<Rightarrow> (w, [], Some e)
      | Inr opts \<Rightarrow>
          (case resolve_path cfg (cli_flags E) of
             Inl e \<Rightarrow> (w, [], Some e)
           | Inr p \<Rightarrow>
               with_db E cfg (\<lambda>D w.
                 case Reconcile (cli_unicode E) Caller (Some D) (Some (dir_fs os p)) opts w of
                   (w', _, err) \<Rightarrow> (w', [], map_option add_cli_hint err)) w))"

definition up_command :: "'w cli \<Rightarrow> cli_config \<Rightarrow> os_state \<Rightarrow> 'w \<Rightarrow> 'w outcome" where
  "up_command E cfg os w =
     (case build_options (cli_frac E) cfg (cli_flags E) False False of
        Inl e \<Rightarrow> (w, [], Some e)
      | Inr opts \<Rightarrow>
          (case resolve_path cfg (cli_flags E) of
             Inl e \<Rightarrow> (w, [], Some e)
           | Inr p \<Rightarrow>
               with_db E cfg (\<lambda>D w.
                 case Up (cli_unicode E) Caller (Some D) (Some (dir_fs os p)) opts w of
                   (w', _, err) \<Rightarrow> (w', [], map_option add_cli_hint err)) w))"

definition down_command :: "'w cli \<Rightarrow> cli_config \<Rightarrow> string \<Rightarrow> 'w \<Rightarrow> 'w outcome" where
  "down_command E cfg arg w =
     (case build_options (cli_frac E) cfg (cli_flags E) False False of
        Inl e \<Rightarrow> (w, [], Some e)
      | Inr opts \<Rightarrow>
          (case down_count arg of
             Inl e \<Rightarrow> (w, [], Some e)
           | Inr n \<Rightarrow>
               with_db E cfg (\<lambda>D w.
                 case (case n of
                     None \<Rightarrow> DownAll (cli_unicode E) Caller (Some D) opts w
                   | Some count \<Rightarrow> Down (cli_unicode E) Caller (Some D) count opts w) of
                   (w', _, err) \<Rightarrow> (w', [], map_option add_cli_hint err)) w))"

definition plan_list :: "string \<Rightarrow> string \<Rightarrow> string list \<Rightarrow> string" where
  "plan_list heading suf xs =
     (if xs = [] then [] else heading @ [NL] @ concat (map (\<lambda>m. ''  - '' @ m @ suf @ [NL]) xs))"

definition plan_text :: "analysis \<Rightarrow> string" where
  "plan_text a =
     ''Migration execution plan:'' @ [NL]
     @ (if an_to_rollback a \<noteq> [] then plan_list ''To Rollback:'' '' (DOWN)'' (an_to_rollback a) else ''To Rollback: None'' @ [NL])
     @ (if an_to_apply a \<noteq> [] then plan_list ''To Apply:'' '' (UP)'' (an_to_apply a) else ''To Apply: None'' @ [NL])
     @ plan_list ''Interleaved (Out-of-Order):'' '' (Interleaved)'' (an_interleaved a)"

definition plan_command :: "'w cli \<Rightarrow> cli_config \<Rightarrow> os_state \<Rightarrow> bool \<Rightarrow> 'w \<Rightarrow> 'w outcome" where
  "plan_command E cfg os json w =
     (case build_options (cli_frac E) cfg (cli_flags E) False False of
        Inl e \<Rightarrow> (w, [], Some e)
      | Inr opts \<Rightarrow>
          (case resolve_path cfg (cli_flags E) of
             Inl e \<Rightarrow> (w, [], Some e)
           | Inr p \<Rightarrow>
               with_db E cfg (\<lambda>D w.
                 case Plan (cli_unicode E) Caller (Some D) (Some (dir_fs os p)) opts w of
                   (w', _, Some e) \<Rightarrow> (w', [], Some e)
                 | (w', None, None) \<Rightarrow> (w', [], None)
                 | (w', Some a, None) \<Rightarrow> (w', if json then print_json (cli_json_plan E a) else (plan_text a, None))) w))"

definition status_line :: "'w cli \<Rightarrow> api_applied \<Rightarrow> string" where
  "status_line E m =
     (if aa_failed m then
        ''  '' @ [CHR 0xE2, CHR 0x9C, CHR 0x97] @ '' '' @ aa_id m @ ''  '' @ cli_time E (aa_applied_at m) @ ''  FAILED: '' @ aa_error m
      else ''  '' @ [CHR 0xE2, CHR 0x9C, CHR 0x93] @ '' '' @ aa_id m @ ''  '' @ cli_time E (aa_applied_at m)) @ [NL]"

definition status_text :: "'w cli \<Rightarrow> api_applied list \<Rightarrow> string" where
  "status_text E ms =
     (if ms = [] then ''No migrations applied.'' @ [NL]
      else ''Applied migrations ('' @ show_int (int (length ms)) @ ''):'' @ [NL] @ concat (map (status_line E) ms))"

definition status_command :: "'w cli \<Rightarrow> cli_config \<Rightarrow> bool \<Rightarrow> 'w \<Rightarrow> 'w outcome" where
  "status_command E cfg json w =
     (case build_options (cli_frac E) cfg (cli_flags E) False False of
        Inl e \<Rightarrow> (w, [], Some e)
      | Inr opts \<Rightarrow>
          with_db E cfg (\<lambda>D w.
            case Status (cli_unicode E) Caller (Some D) opts w of
              (w', _, Some e) \<Rightarrow> (w', [], Some e)
            | (w', None, None) \<Rightarrow> (w', [], None)
            | (w', Some ms, None) \<Rightarrow> (w', if json then print_json (cli_json_status E ms) else (status_text E ms, None))) w)"

definition forget_command :: "'w cli \<Rightarrow> cli_config \<Rightarrow> string \<Rightarrow> 'w \<Rightarrow> 'w outcome" where
  "forget_command E cfg i w =
     (case build_options (cli_frac E) cfg (cli_flags E) False False of
        Inl e \<Rightarrow> (w, [], Some e)
      | Inr opts \<Rightarrow>
          with_db E cfg (\<lambda>D w. case Forget (cli_unicode E) Caller (Some D) i opts w of (w', err) \<Rightarrow> (w', [], err)) w)"

definition baseline_command :: "'w cli \<Rightarrow> cli_config \<Rightarrow> os_state \<Rightarrow> string \<Rightarrow> 'w \<Rightarrow> 'w outcome" where
  "baseline_command E cfg os through_id w =
     (case build_options (cli_frac E) cfg (cli_flags E) False False of
        Inl e \<Rightarrow> (w, [], Some e)
      | Inr opts \<Rightarrow>
          (case resolve_path cfg (cli_flags E) of
             Inl e \<Rightarrow> (w, [], Some e)
           | Inr p \<Rightarrow>
               with_db E cfg (\<lambda>D w.
                 case Baseline (cli_unicode E) Caller (Some D) (Some (dir_fs os p)) through_id opts w of
                   (w', _, Some e) \<Rightarrow> (w', [], Some e)
                 | (w', None, None) \<Rightarrow> (w', [], None)
                 | (w', Some r, None) \<Rightarrow> (w', text_lines (ar_applied r), None)) w))"

definition validate_command :: "'w cli \<Rightarrow> cli_config \<Rightarrow> os_state \<Rightarrow> bool \<Rightarrow> string \<times> goerr option" where
  "validate_command E cfg os json =
     (case resolve_path cfg (cli_flags E) of
        Inl e \<Rightarrow> ([], Some e)
      | Inr p \<Rightarrow>
          (case validate_migrations (cli_unicode E) os p of
             Inl e \<Rightarrow> ([], Some e)
           | Inr r \<Rightarrow> write_validation_report (cli_json_report E) r json))"

definition new_command :: "'w cli \<Rightarrow> cli_config \<Rightarrow> string \<Rightarrow> template_options \<Rightarrow> nat \<Rightarrow> os_state \<Rightarrow> os_state \<times> string \<times> goerr option" where
  "new_command E cfg name opts now os =
     (case new_run (cli_unicode E) (resolve_path cfg (cli_flags E)) name opts now os of
        (os', Inl e) \<Rightarrow> (os', [], Some e)
      | (os', Inr created) \<Rightarrow> (os', text_lines created, None))"

section \<open>run\<close>

datatype command =
    Reconcile_Command bool bool
  | Up_Command
  | Down_Command string
  | Plan_Command bool
  | Status_Command bool
  | Forget_Command string
  | Baseline_Command string
  | New_Command string template_options nat
  | Validate_Command bool

fun run_command :: "'w cli \<Rightarrow> cli_config \<Rightarrow> command \<Rightarrow> 'w \<times> os_state \<Rightarrow> ('w \<times> os_state) outcome" where
  "run_command E cfg (Reconcile_Command r i) (w, os) = (case reconcile_command E cfg os r i w of (w', o') \<Rightarrow> ((w', os), o'))"
| "run_command E cfg Up_Command (w, os) = (case up_command E cfg os w of (w', o') \<Rightarrow> ((w', os), o'))"
| "run_command E cfg (Down_Command arg) (w, os) = (case down_command E cfg arg w of (w', o') \<Rightarrow> ((w', os), o'))"
| "run_command E cfg (Plan_Command json) (w, os) = (case plan_command E cfg os json w of (w', o') \<Rightarrow> ((w', os), o'))"
| "run_command E cfg (Status_Command json) (w, os) = (case status_command E cfg json w of (w', o') \<Rightarrow> ((w', os), o'))"
| "run_command E cfg (Forget_Command i) (w, os) = (case forget_command E cfg i w of (w', o') \<Rightarrow> ((w', os), o'))"
| "run_command E cfg (Baseline_Command i) (w, os) = (case baseline_command E cfg os i w of (w', o') \<Rightarrow> ((w', os), o'))"
| "run_command E cfg (New_Command name opts now) (w, os) = (case new_command E cfg name opts now os of (os', o') \<Rightarrow> ((w, os'), o'))"
| "run_command E cfg (Validate_Command json) (w, os) = ((w, os), validate_command E cfg os json)"

definition run_cli ::
  "'w cli \<Rightarrow> (string \<Rightarrow> string) \<Rightarrow> string \<Rightarrow> string \<Rightarrow> command \<Rightarrow> 'w \<times> os_state \<Rightarrow> ('w \<times> os_state) outcome" where
  "run_cli E getenv level format cmd s =
     (case new_config (cli_frac E) getenv of
        Inl e \<Rightarrow> (s, [], Some e)
      | Inr cfg \<Rightarrow>
          (case (case setup_logging (cli_unicode E) level format of
                   Inl e \<Rightarrow> (s, [], Some e)
                 | Inr _ \<Rightarrow> run_command E cfg cmd s) of
             (s', out, err) \<Rightarrow> (s', out, map_option (wrapf [Lit ''execute command: '']) err)))"

definition exit_status :: "'s outcome \<Rightarrow> nat" where
  "exit_status answer = (if snd (snd answer) = None then 0 else 1)"

end
