(* ===== verification/New_Demo.thy ===== *)
theory New_Demo
  imports New_Loads Commands Demo
begin

text \<open>
  A directory to try the \<open>new\<close> command in: empty at first, and twice in the first second of 1970.
\<close>

lemma digits_numeral: "digits (numeral k) n = digits (pred_numeral k) (n div 10) @ [digit_char (n mod 10)]"
  by (subst numeral_eq_Suc [of k]) (rule digits.simps(2))
lemma demo_year: "year_of_day 719528 = 1970" by (simp add: year_of_day_def days_before_year_def)
lemma demo_day: "day_number 719528 = 19700101"
  by (simp add: day_number_def demo_year days_before_year_def month_lengths_def)
lemma demo_clock: "clock_number 0 = 0" "clock_number (Suc 0) = 1" by (simp_all add: clock_number_def)
lemma demo_digits: "format_stamp 0 = digits 14 19700101000000" "format_stamp (Suc 0) = digits 14 19700101000001"
  using format_stamp_number(1) [of 0] format_stamp_number(1) [of "Suc 0"]
  by (simp_all add: four_digit_time_def demo_year demo_day demo_clock)
lemma demo_stamps: "format_stamp 0 = ''19700101000000''" "format_stamp (Suc 0) = ''19700101000001''"
  by (simp_all add: demo_digits digits_numeral digit_char_def char_of_def bit_0)

definition demo_os :: os_state where
  "demo_os = \<lparr>os_files = [], os_dirs = [''m''], os_fault = (\<lambda>_. None), os_short = 0\<rparr>"

definition demo_templates :: template_options where
  "demo_templates = \<lparr>no_transaction = False, irreversible = True\<rparr>"

lemma slug_a: "slugify demo_unicode ''a'' = Inr ''a''"
  by (rule slugify_same) (simp add: slug_ok_def slug_char_def)

lemmas path_eval = filepath_join_def clean_path_def clean_step_def base_name_def up_file_suffix_def down_file_suffix_def
lemma demo_clean: "clean_path ''m'' = ''m''" by (simp add: path_eval Let_def)
lemma demo_paths: "filepath_join ''m'' ''19700101000000_a.up.sql'' = ''m/19700101000000_a.up.sql''"
  "filepath_join ''m'' ''19700101000000_a.down.sql'' = ''m/19700101000000_a.down.sql''"
  "filepath_join ''m'' ''19700101000001_a.up.sql'' = ''m/19700101000001_a.up.sql''"
  "filepath_join ''m'' ''19700101000001_a.down.sql'' = ''m/19700101000001_a.down.sql''"
  by (simp_all add: path_eval Let_def)
lemma next_free_unused: "format_stamp t \<notin> set (taken_stamps es) \<Longrightarrow> next_free es t = format_stamp t"
  by (subst next_free.simps) simp

lemma demo_free: "available_timestamp ''m'' 0 demo_os = Inr ''19700101000000''"
  by (simp add: available_timestamp_def os_read_dir_def demo_os_def demo_clean entries_of_def next_free_unused demo_stamps(1) taken_stamps_def path_eval Let_def)

definition demo_os1 :: os_state where
  "demo_os1 = demo_os\<lparr>os_files := [(''m/19700101000000_a.down.sql'', down_content demo_templates ''a''),
     (''m/19700101000000_a.up.sql'', up_content demo_templates ''a'')]\<rparr>"

lemma demo_os_fields [simp]: "os_files demo_os = []" "os_dirs demo_os = [''m'']" "os_fault demo_os = (\<lambda>_. None)"
    "demo_os\<lparr>os_dirs := [''m'']\<rparr> = demo_os"
  by (simp_all add: demo_os_def)

lemma demo_os1_fields [simp]: "os_dirs demo_os1 = [''m'']" "os_fault demo_os1 = (\<lambda>_. None)"
    "demo_os1\<lparr>os_dirs := [''m'']\<rparr> = demo_os1"
    "map fst (os_files demo_os1) = [''m/19700101000000_a.down.sql'', ''m/19700101000000_a.up.sql'']"
    "length (os_files demo_os1) = 2"
    "map_of (os_files demo_os1) q = None \<longleftrightarrow> q \<notin> {''m/19700101000000_a.down.sql'', ''m/19700101000000_a.up.sql''}"
  by (simp_all add: demo_os1_def demo_os_def)

lemma demo_new: "new_run demo_unicode (Inr ''m'') ''a'' demo_templates 0 demo_os
      = (demo_os1, Inr [''m/19700101000000_a.up.sql'', ''m/19700101000000_a.down.sql''])"
  by (simp add: new_run_def slug_a demo_free write_migration_pair_def up_file_suffix_def down_file_suffix_def demo_paths demo_clean os_mkdir_all_def
      write_new_file_def os_open_new_def os_write_def Let_def)
    (simp add: demo_os_def demo_os1_def)

lemma demo_free1: "available_timestamp ''m'' 0 demo_os1 = Inr ''19700101000001''"
proof -
  have "\<exists>es. os_read_dir ''m'' demo_os1 = Inr es \<and> set es = {\<lparr>entry_name = ''19700101000000_a.down.sql'', entry_is_dir = False\<rparr>,
      \<lparr>entry_name = ''19700101000000_a.up.sql'', entry_is_dir = False\<rparr>}"
    by (simp add: os_read_dir_def demo_clean entries_of_def path_eval Let_def)
  then obtain es where es: "os_read_dir ''m'' demo_os1 = Inr es"
    "set es = {\<lparr>entry_name = ''19700101000000_a.down.sql'', entry_is_dir = False\<rparr>,
      \<lparr>entry_name = ''19700101000000_a.up.sql'', entry_is_dir = False\<rparr>}" by blast
  have t: "s \<in> set (taken_stamps es) \<longleftrightarrow> s = ''19700101000000''" for s
    unfolding taken_stamps_iff es(2) by simp
  have "next_free es 0 = next_free es (Suc 0)" using t by (subst next_free.simps) (simp add: demo_stamps)
  also have "\<dots> = ''19700101000001''" using next_free_unused [of "Suc 0" es] t by (simp add: demo_stamps)
  finally show ?thesis using es(1) by (simp add: available_timestamp_def)
qed

lemma demo_new1:
  obtains w2 where "new_run demo_unicode (Inr ''m'') ''a'' demo_templates 0 demo_os1
      = (w2, Inr [''m/19700101000001_a.up.sql'', ''m/19700101000001_a.down.sql''])"
  by (simp add: new_run_def slug_a demo_free1 write_migration_pair_def up_file_suffix_def down_file_suffix_def demo_paths demo_clean os_mkdir_all_def
      write_new_file_def os_open_new_def os_write_def Let_def)

lemma demo_validate: "validate_migrations demo_unicode demo_os ''m'' = Inr \<lparr>vr_path = ''m'', vr_migrations = [], vr_count = 0\<rparr>"
  by (simp add: validate_migrations_def get_migrations_def dir_fs_def os_read_dir_def demo_clean entries_of_def collect_pairs_def
      sorted_ids_def path_eval Let_def)

lemma demo_lower: "lower_table demo_unicode"
  by (simp add: lower_table_def demo_unicode_def)

end
