(* ===== verification/New_Props.thy ===== *)
theory New_Props
  imports New_Demo
begin

text \<open>
  The properties of the \<open>new\<close> command: the identifiers it makes, their order, the two files on every way the
  operating system answers, and that the source it writes into still loads.
\<close>

section \<open>Identifiers\<close>

text \<open>
  the slugs are exactly the texts of at most 100 lower-case letters, digits and single underscores that neither
  begin nor end with an underscore, and a slug is its own slug.
\<close>

theorem slug_canonical:
  assumes "lower_table U"
  shows "(\<exists>name. slugify U name = Inr slug) \<longleftrightarrow> slug_ok slug \<and> slugify U slug = Inr slug"
  using slugify_ok [OF assms] slugify_same by blast

theorem slug_canonical_witness: "slug_ok ''add_users''"
proof -
  have "slugify demo_unicode '' Add--Users! '' = Inr ''add_users''"
    by (simp add: slugify_def slug_rune_def max_slug_length_def go_eval demo_unicode_def string_eval)
  then show ?thesis using slug_canonical [OF demo_lower, of "''add_users''"] by blast
qed

section \<open>What the command did\<close>

lemma length_taken_stamps: "length (taken_stamps es) \<le> length (filter (\<lambda>e. \<not> entry_is_dir e) es)"
  by (induction es) (auto simp: taken_stamps_def)

lemma available_timestamp_Inr:
  assumes "available_timestamp d t w = Inr stamp"
  obtains u es where "t \<le> u" "stamp = format_stamp u" "\<forall>v. t \<le> v \<and> v < u \<longrightarrow> format_stamp v \<in> set (taken_stamps es)"
    "stamp \<notin> set (taken_stamps es)" "set es \<subseteq> set (entries_of w d)" "u - t \<le> length (os_files w)"
    "clean_path d \<in> set (os_dirs w) \<Longrightarrow> os_read_dir d w = Inr es"
proof (cases "os_read_dir d w")
  case (Inl e)
  then have "stamp = format_stamp t" "clean_path d \<notin> set (os_dirs w)"
    using assms by (auto simp: available_timestamp_def os_read_dir_def split: os_error.splits option.splits if_splits)
  then show thesis using that [of t "[]"] by (auto simp: taken_stamps_def)
next
  case (Inr es)
  obtain u where u: "t \<le> u" "stamp = format_stamp u" "format_stamp u \<notin> set (taken_stamps es)"
    "\<forall>v. t \<le> v \<and> v < u \<longrightarrow> format_stamp v \<in> set (taken_stamps es)"
    using assms Inr by (auto simp: available_timestamp_def intro: next_free_first [of t es])
  have es: "es = sort_key entry_name (entries_of w d)" using Inr by (auto simp: os_read_dir_def split: option.splits if_splits)
  have "length (taken_stamps es) \<le> length (filter (\<lambda>e. \<not> entry_is_dir e) es)"
    by (rule length_taken_stamps)
  also have "\<dots> \<le> length (os_files w)"
    by (simp add: es entries_of_def filter_sort filter_map comp_def)
  finally have n: "length (taken_stamps es) \<le> length (os_files w)" .
  show thesis using that [OF u(1,2,4) _ _ le_trans [OF next_free_steps [OF u(4)] n]] u(2,3) Inr es by simp
qed

lemma new_run_Inr:
  assumes "lower_table U" "new_run U p name opts t w = (w', Inr paths)"
  obtains d slug stamp i where "p = Inr d" "slugify U name = Inr slug" "available_timestamp d t w = Inr stamp"
    "i = stamp @ ''_'' @ slug" "list_all slug_char i" "list_all slug_char slug" "paths = [up_path d i, down_path d i]"
    "map_of (os_files w) (up_path d i) = None" "map_of (os_files w) (down_path d i) = None"
    "os_files w' = (down_path d i, down_content opts slug) # (up_path d i, up_content opts slug) # os_files w"
    "os_dirs w' = List.insert (clean_path d) (os_dirs w)" "os_fault w' = os_fault w"
proof -
  obtain d slug stamp where r: "p = Inr d" "slugify U name = Inr slug" "available_timestamp d t w = Inr stamp"
    "write_migration_pair d (stamp @ ''_'' @ slug) slug opts w = (w', Inr paths)"
    using assms(2) by (auto simp: new_run_def split: sum.splits)
  have s: "list_all slug_char slug" using slugify_ok [OF assms(1) r(2)] by (simp add: slug_ok_def)
  obtain u where "stamp = format_stamp u" by (rule available_timestamp_Inr [OF r(3)])
  then have "list_all slug_char (stamp @ ''_'' @ slug)" using s format_stamp_slug by (simp add: slug_char_def)
  then show thesis using that [OF r(1-3) refl _ s] write_pair_Inr [OF r(4)] by simp
qed

text \<open>
  C35: every file is accounted for, however the command ends, and none that was there is changed. A success has made two
  new files and nothing else. After an error, a file that is there and was not is one whose own write failed, or which
  was to be removed again and could not be; where all writes and removals work, an error leaves every file as it was.
\<close>

theorem new_accounts_for_files:
  assumes "lower_table U" "new_run U p name opts t w = (w', r)"
  shows "map_of (os_files w) \<subseteq>\<^sub>m map_of (os_files w')
    \<and> (case r of
         Inr paths \<Rightarrow> length paths = 2 \<and> distinct paths \<and> set paths \<inter> dom (map_of (os_files w)) = {}
           \<and> dom (map_of (os_files w')) = dom (map_of (os_files w)) \<union> set paths
       | Inl e \<Rightarrow> {q. map_of (os_files w') q \<noteq> map_of (os_files w) q}
           \<subseteq> {q. map_of (os_files w) q = None \<and> (os_fault w (Write_File q) \<noteq> None \<or> os_fault w (Remove_File q) \<noteq> None)})"
proof (cases r)
  case (Inr paths)
  obtain d slug stamp i where n: "list_all slug_char i" "paths = [up_path d i, down_path d i]"
    "map_of (os_files w) (up_path d i) = None" "map_of (os_files w) (down_path d i) = None"
    "os_files w' = (down_path d i, down_content opts slug) # (up_path d i, up_content opts slug) # os_files w"
    by (rule new_run_Inr [OF assms(1) assms(2) [unfolded Inr]])
  then show ?thesis
    using up_down_path [OF slug_no_slash [OF n(1)], of d] Inr by (auto simp: map_le_def)
next
  case (Inl e)
  have left: "map_of (os_files w) q = None \<and> (os_fault w (Write_File q) \<noteq> None \<or> os_fault w (Remove_File q) \<noteq> None)"
    if q: "map_of (os_files w') q \<noteq> map_of (os_files w) q" for q
  proof -
    obtain d slug stamp where d: "slugify U name = Inr slug" "available_timestamp d t w = Inr stamp"
      "write_migration_pair d (stamp @ ''_'' @ slug) slug opts w = (w', Inl e)"
      using assms(2) Inl q by (auto simp: new_run_def split: sum.splits)
    obtain u where "stamp = format_stamp u" by (rule available_timestamp_Inr [OF d(2)])
    then have "CHR ''/'' \<notin> set (stamp @ ''_'' @ slug)"
      using slug_no_slash format_stamp_slug slugify_ok [OF assms(1) d(1)] by (auto simp: slug_ok_def)
    from write_pair_Inl [OF d(3) this q] show ?thesis by blast
  qed
  then have "map_of (os_files w) \<subseteq>\<^sub>m map_of (os_files w')" unfolding map_le_def by (metis domIff)
  with left show ?thesis unfolding Inl sum.case by blast
qed

theorem new_accounts_for_files_witness:
  "map_of (os_files demo_os) \<subseteq>\<^sub>m map_of (os_files demo_os1)
   \<and> dom (map_of (os_files demo_os1)) = {''m/19700101000000_a.up.sql'', ''m/19700101000000_a.down.sql''}"
  using new_accounts_for_files [OF demo_lower demo_new] by simp

lemma file_entry_iff:
  "e \<in> set (entries_of w d) \<and> \<not> entry_is_dir e \<longleftrightarrow>
     (\<exists>q \<in> fst ` set (os_files w). q = filepath_join d (base_name q) \<and> e = \<lparr>entry_name = base_name q, entry_is_dir = False\<rparr>)"
proof -
  let ?P = "\<lambda>q. q = filepath_join d (base_name q)"
  define fs ds where "fs = filter ?P (map fst (os_files w))" and "ds = filter (\<lambda>q. ?P q \<and> q \<noteq> clean_path d) (os_dirs w)"
  have "e \<in> set (entries_of w d) \<and> \<not> entry_is_dir e \<longleftrightarrow> (\<exists>q \<in> set fs. e = \<lparr>entry_name = base_name q, entry_is_dir = False\<rparr>)"
    unfolding entries_of_def fs_def [symmetric] ds_def [symmetric] by auto
  moreover have "q \<in> set fs \<longleftrightarrow> q \<in> fst ` set (os_files w) \<and> ?P q" for q
    unfolding fs_def set_filter set_map by blast
  ultimately show ?thesis by blast
qed

lemma entries_of_files:
  assumes "map_of (os_files w) (filepath_join d n) \<noteq> None" "plain_name n"
  shows "\<lparr>entry_name = n, entry_is_dir = False\<rparr> \<in> set (entries_of w d)"
proof -
  have "filepath_join d n \<in> fst ` set (os_files w)" using assms(1) unfolding map_of_None_fst by blast
  then show ?thesis
    using file_entry_iff [of "\<lparr>entry_name = n, entry_is_dir = False\<rparr>" w d] base_name_join [OF assms(2), of d] by metis
qed

lemma read_dir_set: "os_read_dir d w = Inr es \<Longrightarrow> set es = set (entries_of w d)"
  by (auto simp: os_read_dir_def split: option.splits if_splits)

text \<open>
  A run gets past the operating system when no call fails for a reason of its own, the directory is no file, its files
  are found only where it exists, and no directory has the name of a half.
\<close>

definition room_for :: "os_state \<Rightarrow> string \<Rightarrow> bool" where
  "room_for w d \<longleftrightarrow> (\<forall>q. os_fault w q = None) \<and> map_of (os_files w) (clean_path d) = None
     \<and> (\<forall>n. map_of (os_files w) (filepath_join d n) \<noteq> None \<longrightarrow> clean_path d \<in> set (os_dirs w))
     \<and> (\<forall>i. CHR ''/'' \<notin> set i \<longrightarrow> {up_path d i, down_path d i} \<inter> insert (clean_path d) (set (os_dirs w)) = {})"

lemma write_new_file_free:
  assumes "os_fault w (Open_New p) = None" "os_fault w (Write_File p) = None" "map_of (os_files w) p = None" "p \<notin> set (os_dirs w)"
  shows "write_new_file p content w = (w\<lparr>os_files := (p, content) # os_files w\<rparr>, None)"
  using assms by (simp add: write_new_file_def os_open_new_def os_write_def)

text \<open>
  C36: the command goes through. For a name with a letter or a digit in it, and where the operating system lets it, \<open>new\<close>
  finds a stamp that is free and makes its two files, however many migrations the directory holds.
\<close>

theorem new_goes_through:
  assumes "lower_table U" "is_ok (slugify U name)" "room_for w d" "t + length (os_files w) < year_10000"
  shows "\<exists>w' paths. new_run U (Inr d) name opts t w = (w', Inr paths)"
proof -
  obtain slug where slug: "slugify U name = Inr slug" using assms(2) by (auto simp: is_ok_iff)
  note room = assms(3) [unfolded room_for_def]
  obtain stamp where stamp: "available_timestamp d t w = Inr stamp"
    using room by (cases "clean_path d \<in> set (os_dirs w)") (auto simp: available_timestamp_def os_read_dir_def)
  define i where "i = stamp @ ''_'' @ slug"
  obtain u es where u: "stamp = format_stamp u" "stamp \<notin> set (taken_stamps es)" "u - t \<le> length (os_files w)"
    and read: "clean_path d \<in> set (os_dirs w) \<Longrightarrow> os_read_dir d w = Inr es"
    by (rule available_timestamp_Inr [OF stamp]) blast
  have chars: "list_all slug_char i"
    using format_stamp_slug slugify_ok [OF assms(1) slug] by (simp add: i_def u(1) slug_ok_def slug_char_def)
  note slash = slug_no_slash [OF chars]
  have len: "length stamp = 14" using u(3) assms(4) by (simp add: u(1) length_format_stamp four_digit_timeI)
  have free: "map_of (os_files w) (filepath_join d (i @ s)) = None" if "plain_name (i @ s)" for s
  proof (rule ccontr)
    assume e: "map_of (os_files w) (filepath_join d (i @ s)) \<noteq> None"
    then have "clean_path d \<in> set (os_dirs w)" using room by metis
    then have "set es = set (entries_of w d)" by (intro read_dir_set read)
    then have "\<lparr>entry_name = i @ s, entry_is_dir = False\<rparr> \<in> set es" using entries_of_files [OF e that] by simp
    then have "stamp \<in> set (taken_stamps es)"
      unfolding taken_stamps_iff by (rule bexI [rotated]) (simp add: i_def len)
    then show False using u(2) by simp
  qed
  have "up_path d i \<notin> insert (clean_path d) (set (os_dirs w))" "down_path d i \<notin> insert (clean_path d) (set (os_dirs w))"
    using room slash by blast+
  then have "\<exists>w' paths. write_migration_pair d i slug opts w = (w', Inr paths)"
    using free [OF plain_half(1) [OF slash]] free [OF plain_half(2) [OF slash]] up_down_path [OF slash, of d] room
    by (simp add: write_migration_pair_def os_mkdir_all_def Let_def write_new_file_free)
  then show ?thesis using slug stamp by (simp add: new_run_def i_def)
qed

theorem new_goes_through_witness: "\<exists>w' paths. new_run demo_unicode (Inr ''m'') ''a'' demo_templates 0 demo_os = (w', Inr paths)"
proof (rule new_goes_through [OF demo_lower])
  have "base_name ''m'' = ''m''" by (simp add: base_name_def)
  then have "up_path ''m'' i \<noteq> ''m''" "down_path ''m'' i \<noteq> ''m''" if "CHR ''/'' \<notin> set i" for i
    using base_name_join [OF plain_half(1) [OF that], of "''m''"] base_name_join [OF plain_half(2) [OF that], of "''m''"]
    by (auto simp: up_file_suffix_def down_file_suffix_def append_eq_Cons_conv)
  then show "room_for demo_os ''m''" by (auto simp: room_for_def demo_clean)
qed (simp_all add: slug_a year_10000_def)

section \<open>Order\<close>

lemma file_entries_grow:
  assumes "\<And>q. map_of (os_files w) q \<noteq> None \<Longrightarrow> map_of (os_files w') q \<noteq> None" "e \<in> set (entries_of w d)" "\<not> entry_is_dir e"
  shows "e \<in> set (entries_of w' d)"
proof -
  have "fst ` set (os_files w) \<subseteq> fst ` set (os_files w')" using assms(1) unfolding map_of_None_fst by blast
  then show ?thesis using assms(2,3) file_entry_iff [of e w d] file_entry_iff [of e w' d] by blast
qed

text \<open>
  C37: migrations made one after the other sort in the order they were made, also within one second and with a
  clock that stands still: the second ID is greater in the order the library uses.
\<close>

theorem new_ids_sort:
  assumes "lower_table U" "t1 \<le> t2" "t2 + length (os_files w1) < year_10000"
    "new_run U (Inr d) name1 opts1 t1 w = (w1, Inr paths1)" "new_run U (Inr d) name2 opts2 t2 w1 = (w2, Inr paths2)"
  shows "\<exists>i1 i2. paths1 = [up_path d i1, down_path d i1] \<and> paths2 = [up_path d i2, down_path d i2] \<and> i1 < i2"
proof -
  obtain slug1 stamp1 i1 where n1: "available_timestamp d t1 w = Inr stamp1" "i1 = stamp1 @ ''_'' @ slug1"
    "list_all slug_char i1" "paths1 = [up_path d i1, down_path d i1]" "os_dirs w1 = List.insert (clean_path d) (os_dirs w)"
    "os_files w1 = (down_path d i1, down_content opts1 slug1) # (up_path d i1, up_content opts1 slug1) # os_files w"
    using new_run_Inr [OF assms(1,4)] by (metis Inr_inject)
  obtain slug2 stamp2 i2 where n2: "available_timestamp d t2 w1 = Inr stamp2" "i2 = stamp2 @ ''_'' @ slug2"
    "paths2 = [up_path d i2, down_path d i2]"
    using new_run_Inr [OF assms(1,5)] by (metis Inr_inject)
  obtain u1 es1 where u1: "t1 \<le> u1" "stamp1 = format_stamp u1"
    "\<forall>v. t1 \<le> v \<and> v < u1 \<longrightarrow> format_stamp v \<in> set (taken_stamps es1)"
    "set es1 \<subseteq> set (entries_of w d)" "u1 - t1 \<le> length (os_files w)"
    by (rule available_timestamp_Inr [OF n1(1)])
  obtain u2 es2 where u2: "t2 \<le> u2" "stamp2 = format_stamp u2" "stamp2 \<notin> set (taken_stamps es2)"
    "u2 - t2 \<le> length (os_files w1)"
    and sorted: "\<forall>v. t2 \<le> v \<and> v < u2 \<longrightarrow> format_stamp v \<in> set (taken_stamps es2)" "set es2 \<subseteq> set (entries_of w1 d)"
    and read: "clean_path d \<in> set (os_dirs w1) \<Longrightarrow> os_read_dir d w1 = Inr es2"
    by (rule available_timestamp_Inr [OF n2(1)]) blast
  have "os_read_dir d w1 = Inr es2" using n1(5) by (intro read) simp
  note es2 = read_dir_set [OF this]
  have small: "four_digit_time u1" "four_digit_time u2"
    using u1(1,5) u2(1,4) assms(2,3) by (auto intro!: four_digit_timeI simp: n1(6))
  then have len: "length stamp1 = 14" "length stamp2 = 14" by (simp_all add: u1(2) u2(2) length_format_stamp)
  have "\<lparr>entry_name = i1 @ up_file_suffix, entry_is_dir = False\<rparr> \<in> set es2"
    unfolding es2 by (rule entries_of_files) (simp_all add: n1(6) plain_half slug_no_slash n1(3))
  then have last: "format_stamp u1 \<in> set (taken_stamps es2)"
    unfolding taken_stamps_iff using len(1) n1(2) u1(2) by force
  have "format_stamp v \<in> set (taken_stamps es2)" if v: "t1 \<le> v" "v < u1" for v
  proof -
    obtain e where e: "e \<in> set es1" "\<not> entry_is_dir e" "14 \<le> length (entry_name e)" "format_stamp v = take 14 (entry_name e)"
      using u1(3) v unfolding taken_stamps_iff by blast
    moreover have "e \<in> set es2"
      unfolding es2 by (rule file_entries_grow [of w]) (use e(1,2) u1(4) in \<open>auto simp: n1(6)\<close>)
    ultimately show ?thesis unfolding taken_stamps_iff by blast
  qed
  then have "u1 < u2" using last u2(1,2,3) assms(2) by (metis le_trans linorder_neqE_nat)
  then have "stamp1 < stamp2" unfolding u1(2) u2(2) by (rule format_stamp_mono [OF _ small])
  then have "i1 < i2" unfolding n1(2) n2(2) using len by (intro less_append) simp_all
  with n1(4) n2(3) show ?thesis by blast
qed

theorem new_ids_sort_witness:
  "\<exists>i1 i2. ''m/19700101000000_a.up.sql'' = up_path ''m'' i1 \<and> ''m/19700101000001_a.up.sql'' = up_path ''m'' i2 \<and> i1 < i2"
proof -
  obtain w2 where "new_run demo_unicode (Inr ''m'') ''a'' demo_templates 0 demo_os1
      = (w2, Inr [''m/19700101000001_a.up.sql'', ''m/19700101000001_a.down.sql''])" by (rule demo_new1)
  from new_ids_sort [OF demo_lower _ _ demo_new this] show ?thesis by (simp add: year_10000_def) blast
qed

section \<open>The source still loads\<close>

lemma dir_fs_read_dir [simp]: "fs_read_dir (dir_fs w d) ''.'' = Inr es \<longleftrightarrow> os_read_dir d w = Inr es"
proof -
  have "fs_read_dir (dir_fs w d) ''.'' = (case os_read_dir d w of Inl e \<Rightarrow> Inl (os_error_text e) | Inr es \<Rightarrow> Inr es)"
    unfolding dir_fs_def fsys.select_convs by (simp only: refl if_True)
  then show ?thesis by (simp split: sum.split)
qed

lemma dir_fs_read_file [simp]: "fs_read_file (dir_fs w d) n = Inr content \<longleftrightarrow> map_of (os_files w) (filepath_join d n) = Some content"
  unfolding dir_fs_def fsys.select_convs by (simp split: option.split)

lemmas dir_fs_reads = dir_fs_read_dir dir_fs_read_file

lemma reads_as_directive:
  "reads_as U b script names \<Longrightarrow> script_directive (trim_space script) n \<longleftrightarrow> n \<in> set names"
  unfolding reads_as_def script_directive_def by (elim conjE exE) (simp only: sum.case prod.case)

lemma scaffold_parses:
  assumes "list_all slug_char slug"
  obtains m where "parse_migration_pair U i (up_content opts slug) (down_content opts slug) = Inr m"
    "validated_of m = \<lparr>vm_id = i, vm_no_transaction = no_transaction opts, vm_irreversible = irreversible opts\<rparr>" "mig_id m = i"
proof -
  note r = scaffold_reads_as [OF assms, of U opts]
  let ?m = "\<lparr>mig_applied_at = zero_time, mig_id = i, mig_up_script = trim_space (up_content opts slug),
    mig_down_script = trim_space (down_content opts slug)\<rparr>"
  have "parse_migration_pair U i (up_content opts slug) (down_content opts slug) = Inr ?m"
    using r by (simp add: parse_migration_pair_Inr reads_as_def)
  moreover have "validated_of ?m = \<lparr>vm_id = i, vm_no_transaction = no_transaction opts, vm_irreversible = irreversible opts\<rparr>"
    using reads_as_directive [OF r(1)] reads_as_directive [OF r(2)]
    by (simp add: validated_of_def directive_no_transaction_def directive_irreversible_def)
  ultimately show thesis using that by simp
qed

text \<open>An ID whose first 14 bytes are a free stamp differs, also in lower case, from every ID in the directory.\<close>

lemma fresh_stamp:
  assumes "lower_table U" "list_all slug_char (stamp @ s)" "length stamp = 14" "\<forall>c \<in> set stamp. 48 \<le> byte c \<and> byte c \<le> 57"
    "stamp \<notin> set (taken_stamps es)" "e \<in> set es" "entry_half U e = Inr (Some (b, j))"
  shows "to_lower U j \<noteq> to_lower U (stamp @ s)"
proof
  assume "to_lower U j = to_lower U (stamp @ s)"
  then have "to_lower U j = stamp @ s" using to_lower_slug [OF assms(2), of U] by simp
  then have "prefix stamp j" by (rule to_lower_digits [OF assms(1) _ assms(4)])
  then have "prefix stamp (entry_name e)" "\<not> entry_is_dir e" using entry_half_Some [OF assms(7)] by auto
  then have "stamp \<in> set (taken_stamps es)"
    using assms(3,6) unfolding taken_stamps_iff by (intro bexI [of _ e]) (auto simp: prefix_def)
  then show False using assms(5) by simp
qed

lemma pad_digit_chars: "\<forall>c \<in> set (pad w n). 48 \<le> byte c \<and> byte c \<le> 57"
proof -
  have "\<forall>c \<in> set (show_nat n). 48 \<le> byte c \<and> byte c \<le> 57"
  proof (induction n rule: show_nat.induct)
    case (1 n)
    then show ?case by (subst show_nat.simps) (auto simp: digit_char_def)
  qed
  then show ?thesis by (auto simp: pad_def)
qed

lemma format_stamp_digits: "\<forall>c \<in> set (format_stamp t). 48 \<le> byte c \<and> byte c \<le> 57"
  using pad_digit_chars by (simp add: format_stamp_def Let_def split: prod.split) blast

lemma entries_of_Cons:
  assumes "os_dirs w' = os_dirs w" "os_files w' = (down_path d i, dc) # (up_path d i, uc) # os_files w" "CHR ''/'' \<notin> set i"
  shows "entries_of w' d = down_entry i # up_entry i # entries_of w d"
  using assms(1,2) base_name_join [OF plain_half(1) [OF assms(3)], of d] base_name_join [OF plain_half(2) [OF assms(3)], of d]
  by (simp add: entries_of_def up_entry_def down_entry_def)

text \<open>
  C38: \<open>new\<close> keeps a source loadable. Where \<open>validate\<close> accepts a directory and \<open>new\<close> succeeds in it, \<open>validate\<close> accepts
  it again and reports one migration more: the one just made, with the directives the flags asked for.
\<close>

theorem new_then_validate:
  assumes "lower_table U" "t + length (os_files w) < year_10000" "validate_migrations U w d = Inr r"
    "new_run U (Inr d) name opts t w = (w', Inr paths)"
  shows "\<exists>i r'. paths = [up_path d i, down_path d i] \<and> validate_migrations U w' d = Inr r' \<and> vr_count r' = vr_count r + 1
    \<and> set (vr_migrations r') = insert \<lparr>vm_id = i, vm_no_transaction = no_transaction opts, vm_irreversible = irreversible opts\<rparr>
        (set (vr_migrations r))"
proof -
  obtain ms where ms: "get_migrations U (dir_fs w d) = Inr ms"
    "r = \<lparr>vr_path = d, vr_migrations = map validated_of ms, vr_count = int (length ms)\<rparr>"
    using assms(3) by (auto simp: validate_migrations_def split: sum.splits)
  obtain es where es: "os_read_dir d w = Inr es"
    by (rule get_migrations_loads [OF ms(1)]) (use dir_fs_reads(1) in blast)
  then have dir: "clean_path d \<in> set (os_dirs w)" "es = sort_key entry_name (entries_of w d)" "os_fault w (Read_Dir d) = None"
    by (auto simp: os_read_dir_def split: option.splits if_splits)
  obtain slug stamp i where n: "available_timestamp d t w = Inr stamp" "i = stamp @ ''_'' @ slug" "list_all slug_char i"
    "list_all slug_char slug" "paths = [up_path d i, down_path d i]"
    "map_of (os_files w) (up_path d i) = None" "map_of (os_files w) (down_path d i) = None"
    "os_files w' = (down_path d i, down_content opts slug) # (up_path d i, up_content opts slug) # os_files w"
    "os_dirs w' = List.insert (clean_path d) (os_dirs w)" "os_fault w' = os_fault w"
    using new_run_Inr [OF assms(1,4)] by (metis Inr_inject)
  have slash: "CHR ''/'' \<notin> set i" by (rule slug_no_slash [OF n(3)])
  have dirs: "os_dirs w' = os_dirs w" using n(9) dir(1) by simp
  note new_es = entries_of_Cons [OF dirs n(8) slash]
  obtain u es1 where u: "stamp = format_stamp u" "stamp \<notin> set (taken_stamps es1)" "u - t \<le> length (os_files w)"
    and read: "os_read_dir d w = Inr es1"
    using available_timestamp_Inr [OF n(1)] dir(1) by metis
  have "four_digit_time u" using u(3) assms(2) by (intro four_digit_timeI) simp
  then have stamp: "length stamp = 14" "\<forall>c \<in> set stamp. 48 \<le> byte c \<and> byte c \<le> 57" "stamp \<notin> set (taken_stamps es)"
    using u(1,2) read es format_stamp_digits by (simp_all add: length_format_stamp)
  obtain m where m: "parse_migration_pair U i (up_content opts slug) (down_content opts slug) = Inr m"
    "validated_of m = \<lparr>vm_id = i, vm_no_transaction = no_transaction opts, vm_irreversible = irreversible opts\<rparr>" "mig_id m = i"
    by (rule scaffold_parses [OF n(4)])
  have es': "os_read_dir d w' = Inr (sort_key entry_name (entries_of w' d))"
    using dir n(10) dirs by (simp add: os_read_dir_def)
  obtain ms' where ms': "get_migrations U (dir_fs w' d) = Inr ms'" "set ms' = insert m (set ms)"
  proof (rule get_migrations_extend [OF ms(1)])
    show "fs_read_dir (dir_fs w d) ''.'' = Inr es" "fs_read_dir (dir_fs w' d) ''.'' = Inr (sort_key entry_name (entries_of w' d))"
      using es es' by simp_all
    show "mset (sort_key entry_name (entries_of w' d)) = mset (up_entry i # down_entry i # es)"
      by (simp add: new_es dir(2))
    show "list_all slug_char i" "i \<noteq> []" using n(2,3) by simp_all
    show "\<forall>e \<in> set es. \<forall>b j. entry_half U e = Inr (Some (b, j)) \<longrightarrow> to_lower U j \<noteq> to_lower U i"
      using fresh_stamp [OF assms(1) _ stamp(1,2,3)] n(2,3) by blast
    show "fs_read_file (dir_fs w' d) n = Inr content" if "fs_read_file (dir_fs w d) n = Inr content" for n content
      using that n(6,7) unfolding dir_fs_reads n(8) by auto
    show "fs_read_file (dir_fs w' d) (i @ up_file_suffix) = Inr (up_content opts slug)"
      "fs_read_file (dir_fs w' d) (i @ down_file_suffix) = Inr (down_content opts slug)"
      unfolding dir_fs_reads n(8) using up_down_path [OF slash, of d] by simp_all
  qed (use m(1) in auto)
  have old: "i \<notin> set (ids ms)"
    using get_migrations_well_formed [OF ms(1)] n(6) by (auto simp: loaded_from_def)
  have "distinct (ids ms)" "distinct (ids ms')"
    using get_migrations_well_formed [OF ms(1)] get_migrations_well_formed [OF ms'(1)] by (simp_all add: well_formed_source_def)
  moreover have "set (ids ms') = insert i (set (ids ms))" using ms'(2) m(3) by simp
  ultimately have "length (ids ms') = Suc (length (ids ms))"
    using old by (metis List.finite_set card_insert_disjoint distinct_card)
  then show ?thesis
    using n(5) ms'  m(2) ms(2) by (intro exI [of _ i]) (simp add: validate_migrations_def)
qed

theorem new_then_validate_witness:
  "\<exists>r. validate_migrations demo_unicode demo_os1 ''m'' = Inr r \<and> vr_count r = 1 \<and> (\<exists>m. set (vr_migrations r) = {m} \<and> vm_irreversible m)"
  using new_then_validate [OF demo_lower _ demo_validate demo_new]
  by (auto simp: year_10000_def demo_templates_def)

section \<open>A write that fails\<close>

lemma lone_half:
  assumes "get_migrations U (dir_fs w d) = Inr ms" "list_all slug_char i" "map_of (os_files w) (up_path d i) \<noteq> None"
  shows "map_of (os_files w) (down_path d i) \<noteq> None"
proof -
  note slash = slug_no_slash [OF assms(2)]
  obtain es where es: "os_read_dir d w = Inr es"
    by (rule get_migrations_loads [OF assms(1)]) (use dir_fs_reads(1) in blast)
  have e: "up_entry i \<in> set es"
    unfolding read_dir_set [OF es] up_entry_def by (rule entries_of_files [OF assms(3) plain_half(1) [OF slash]])
  have "to_lower U (i @ up_file_suffix) = i @ up_file_suffix"
    using assms(2) by (intro to_lower_same) (auto simp: list_all_iff slug_char_def up_file_suffix_def)
  then have "suffix ''.sql'' (to_lower U (entry_name (up_entry i)))"
    by (simp add: up_entry_def up_file_suffix_def suffix_def)
  then obtain m where m: "m \<in> set ms" "i @ up_file_suffix \<in> {mig_id m @ up_file_suffix, mig_id m @ down_file_suffix}"
    using get_migrations_complete [OF assms(1) _ e] es by (auto simp: up_entry_def)
  then have "mig_id m = i"
    by (auto simp: up_file_suffix_def down_file_suffix_def append_eq_append_conv2 Cons_eq_append_conv)
  then show ?thesis
    using get_migrations_well_formed [OF assms(1)] m(1) by (auto simp: loaded_from_def)
qed

text \<open>
  C39: A half is left behind when writing the up script fails after it was created: the file stays, with what had been
  written, and there is no down script beside it, so the directory does not load any more.
\<close>

theorem failed_write_leaves_half:
  assumes "list_all slug_char i" "os_mkdir_all d w = (w1, None)" "os_open_new (up_path d i) w1 = (w2, None)"
    "os_fault w (Write_File (up_path d i)) = Some m" "map_of (os_files w) (down_path d i) = None"
  shows "\<exists>w' e. write_migration_pair d i slug opts w = (w', Inl e)
    \<and> map_of (os_files w') (up_path d i) = Some (take (os_short w) (up_content opts slug))
    \<and> \<not> is_ok (validate_migrations U w' d)"
proof -
  let ?c = "take (os_short w) (up_content opts slug)"
  obtain w' e where w': "write_migration_pair d i slug opts w = (w', Inl e)" "map_of (os_files w') (up_path d i) = Some ?c"
    "map_of (os_files w') (down_path d i) = None"
    using assms(2-5) up_down_path [OF slug_no_slash [OF assms(1)], of d]
    by (auto simp: write_migration_pair_def write_new_file_def os_mkdir_all_def os_open_new_def os_write_def Let_def
        split: option.splits if_splits)
  have "\<not> is_ok (validate_migrations U w' d)"
    using lone_half [OF _ assms(1), of U w' d] w'(2,3) by (auto simp: validate_migrations_def is_ok_iff split: sum.splits)
  with w'(1,2) show ?thesis by blast
qed

definition full_disk :: os_state where
  "full_disk = demo_os\<lparr>os_fault := (\<lambda>c. case c of Write_File _ \<Rightarrow> Some ''no space left on device'' | _ \<Rightarrow> None)\<rparr>"

theorem failed_write_leaves_half_witness:
  "\<exists>w' e. write_migration_pair ''m'' ''1'' ''a'' demo_templates full_disk = (w', Inl e) \<and> \<not> is_ok (validate_migrations demo_unicode w' ''m'')"
proof -
  have p: "filepath_join ''m'' (''1'' @ up_file_suffix) = ''m/1.up.sql''" by (simp add: path_eval Let_def)
  have mk: "os_mkdir_all ''m'' full_disk = (full_disk, None)"
    by (simp add: os_mkdir_all_def full_disk_def demo_clean)
  have new: "os_open_new (filepath_join ''m'' (''1'' @ up_file_suffix)) full_disk = (full_disk\<lparr>os_files := [(''m/1.up.sql'', [])]\<rparr>, None)"
    unfolding p by (simp add: os_open_new_def full_disk_def)
  have "list_all slug_char ''1''" by (simp add: slug_char_def)
  from failed_write_leaves_half [OF this mk new, of "''no space left on device''" "''a''" demo_templates demo_unicode]
  show ?thesis by (simp add: full_disk_def) blast
qed

end
