(* ===== verification/Programs.thy ===== *)
theory Programs
  imports Commands
begin

text \<open>
  The three programs under \<open>examples/\<close>, each a client of the public package: \<open>basic\<close> applies migrations and shows
  the ledger, \<open>embedded\<close> applies those in the binary and sorts its errors, \<open>deploy-gate\<close> looks at a plan and
  refuses an unsafe one. A program answers with what it prints to standard output and its error; its exit status
  is that of \<open>exit_status\<close>. The environment, \<open>sql.Open\<close>, the pool and the rendering of times are parameters. Log lines, which
  \<open>embedded\<close> sends to standard output too, are left out.
\<close>

record 'w program =
  pe_unicode :: unicode
  pe_getenv :: "string \<Rightarrow> string"
  pe_open :: "string \<Rightarrow> string + 'w sql_db"
  pe_set_max :: "'w sql_db \<Rightarrow> nat \<Rightarrow> 'w \<Rightarrow> 'w"
  pe_ping :: "'w sql_db \<Rightarrow> 'w \<Rightarrow> 'w \<times> string option"
  pe_close :: "'w sql_db \<Rightarrow> 'w \<Rightarrow> 'w"
  pe_time :: "int \<Rightarrow> string"

text \<open>How each program comes to its database, and closes it when \<open>run\<close> returns.\<close>

definition opened :: "'w program \<Rightarrow> nat \<Rightarrow> ('w sql_db \<Rightarrow> 'w \<Rightarrow> 'w outcome) \<Rightarrow> 'w \<Rightarrow> 'w outcome" where
  "opened E max_conns k w =
     (let dsn = pe_getenv E ''DATABASE_URL''
      in if dsn = [] then (w, [], Some (Errorf [Lit ''DATABASE_URL is not set'']))
         else case pe_open E dsn of
             Inl m \<Rightarrow> (w, [], Some (wrapf [Lit ''open database: ''] (Extern m)))
           | Inr D \<Rightarrow> (case k D (pe_set_max E D max_conns w) of (w', out, err) \<Rightarrow> (pe_close E D w', out, err)))"

text \<open>\<open>%v\<close> of a \<open>[]string\<close>, and the width of \<open>%-28s\<close>, which counts runes.\<close>

definition show_strings :: "string list \<Rightarrow> string" where
  "show_strings xs = ''['' @ join '' '' xs @ '']''"

definition pad_right :: "nat \<Rightarrow> string \<Rightarrow> string" where
  "pad_right n s = s @ replicate (n - length (runes s)) (CHR '' '')"

section \<open>deploy-gate\<close>

definition basic_migrations :: string where "basic_migrations = ''examples/basic/migrations''"
definition basic_table :: string where "basic_table = ''example_basic_migrations''"

text \<open>What the gate says to an analysis, and what it has printed then.\<close>

definition gate_verdict :: "analysis \<Rightarrow> goerr option" where
  "gate_verdict a =
     (if an_blocked a then Some (Errorf [Lit ''reconcile would refuse: '', Lit (an_blocked_reason a)])
      else if an_to_rollback a \<noteq> [] then
        Some (Errorf [Lit ''plan would roll back '', Num (int (length (an_to_rollback a))), Lit '' migration(s): '',
          Lit (show_strings (an_to_rollback a))])
      else if an_interleaved a \<noteq> [] then
        Some (Errorf [Lit ''plan contains out-of-order migrations: '', Lit (show_strings (an_interleaved a))])
      else None)"

definition gate_text :: "analysis \<Rightarrow> string" where
  "gate_text a = ''would apply:    '' @ show_strings (an_to_apply a) @ [NL]
     @ ''would roll back: '' @ show_strings (an_to_rollback a) @ [NL]"

definition deploy_gate :: "'w program \<Rightarrow> os_state \<Rightarrow> 'w \<Rightarrow> 'w outcome" where
  "deploy_gate E os =
     opened E 2 (\<lambda>D w.
       case Plan (pe_unicode E) Caller (Some D) (Some (dir_fs os basic_migrations)) [with_table_name basic_table] w of
         (w', _, Some e) \<Rightarrow> (w', [], Some (wrapf [Lit ''build plan: ''] e))
       | (w', None, None) \<Rightarrow> (w', [], None)
       | (w', Some a, None) \<Rightarrow> (w', gate_text a, gate_verdict a))"

section \<open>basic\<close>

definition status_entry :: "'w program \<Rightarrow> api_applied \<Rightarrow> string" where
  "status_entry E m =
     ''  '' @ pad_right 28 (aa_id m) @ '' '' @ pe_time E (aa_applied_at m) @ ''  ''
     @ (if aa_failed m then ''FAILED: '' @ aa_error m else ''ok'') @ [NL]"

definition report_status :: "'w program \<Rightarrow> 'w sql_db \<Rightarrow> 'w \<Rightarrow> 'w outcome" where
  "report_status E D w =
     (case Status (pe_unicode E) Caller (Some D) [with_table_name basic_table] w of
        (w', _, Some e) \<Rightarrow> (w', [], Some (wrapf [Lit ''read status: ''] e))
      | (w', ms, None) \<Rightarrow>
          (let ms = (case ms of None \<Rightarrow> [] | Some ms \<Rightarrow> ms)
           in (w', [NL] @ show_int (int (length ms)) @ '' migration(s) recorded:'' @ [NL] @ concat (map (status_entry E) ms), None)))"

definition up_text :: "api_result \<Rightarrow> string" where
  "up_text r =
     (if ar_applied r \<noteq> [] then ''applied: '' @ show_strings (ar_applied r) @ [NL] else [])
     @ (if ar_extras_left r \<noteq> []
        then ''left alone (in the database, missing from files): '' @ show_strings (ar_extras_left r) @ [NL] else [])"

text \<open>A call without an error always has a result: where the code would panic for want of one, this prints nothing.\<close>

definition basic_program :: "'w program \<Rightarrow> os_state \<Rightarrow> 'w \<Rightarrow> 'w outcome" where
  "basic_program E os =
     opened E 4 (\<lambda>D w.
       case pe_ping E D w of
         (w1, Some m) \<Rightarrow> (w1, [], Some (wrapf [Lit ''ping database: ''] (Extern m)))
       | (w1, None) \<Rightarrow>
           (case Up (pe_unicode E) Caller (Some D) (Some (dir_fs os basic_migrations))
                   [with_table_name basic_table, with_lock_timeout 30000000000] w1 of
              (w2, result, err) \<Rightarrow>
                (let out = (case result of None \<Rightarrow> [] | Some r \<Rightarrow> up_text r)
                 in case err of
                      Some e \<Rightarrow> (w2, out, Some (wrapf [Lit ''apply migrations: ''] e))
                    | None \<Rightarrow>
                        (let idle = (case result of None \<Rightarrow> False | Some r \<Rightarrow> ar_applied r = []);
                             out = out @ (if idle
                               then ''nothing to do '' @ [CHR 0xE2, CHR 0x80, CHR 0x94] @ '' the database is up to date'' @ [NL]
                               else [])
                         in case report_status E D w2 of (w3, out', err') \<Rightarrow> (w3, out @ out', err')))))"

section \<open>embedded\<close>

definition embedded_table :: string where "embedded_table = ''example_embedded_migrations''"

text \<open>The advice for an error of \<open>Up\<close>: stop, wait, or look at what was done.\<close>

definition embedded_error :: "api_result option \<Rightarrow> goerr \<Rightarrow> goerr" where
  "embedded_error result e =
     (let migrations_done = (case result of None \<Rightarrow> [] | Some r \<Rightarrow> ar_applied r)
      in if error_is e ErrFailedMigrations then wrapf [Lit ''manual intervention required, do not retry: ''] e
         else if error_is e ErrLockTimeout then wrapf [Lit ''another migration is in progress, retry later: ''] e
         else wrapf [Lit ''apply migrations (applied '', Lit (show_strings migrations_done), Lit ''): ''] e)"

text \<open>\<open>sub\<close> is what \<open>fs.Sub\<close> answers on the tree that the compiler put into the binary.\<close>

definition embedded_program :: "'w program \<Rightarrow> string + fsys \<Rightarrow> 'w \<Rightarrow> 'w outcome" where
  "embedded_program E sub =
     opened E 4 (\<lambda>D w.
       case sub of
         Inl m \<Rightarrow> (w, [], Some (wrapf [Lit ''sub filesystem: ''] (Extern m)))
       | Inr F \<Rightarrow>
           (case Up (pe_unicode E) Caller (Some D) (Some F) [with_table_name embedded_table] w of
              (w', result, Some e) \<Rightarrow> (w', [], Some (embedded_error result e))
            | (w', None, None) \<Rightarrow> (w', [], None)
            | (w', Some r, None) \<Rightarrow> (w', ''applied: '' @ show_strings (ar_applied r) @ [NL], None)))"

text \<open>What \<open>main\<close> of the gate prints after \<open>run\<close>, on standard output.\<close>

definition gate_main :: "'w program \<Rightarrow> os_state \<Rightarrow> 'w \<Rightarrow> 'w outcome" where
  "gate_main E os w =
     (case deploy_gate E os w of
        (w', out, None) \<Rightarrow> (w', out @ ''plan is safe '' @ [CHR 0xE2, CHR 0x80, CHR 0x94] @ '' proceeding'' @ [NL], None)
      | (w', out, Some e) \<Rightarrow> (w', out, Some e))"

end
