(* ===== verification/Api_Props.thy ===== *)
theory Api_Props
  imports Api Ledger_Props
begin

text \<open>
  The properties of the public package: what it checks before it touches the server, and its calls as a caller
  sees them, one after another, each with a service and a lock of its own.
\<close>

section \<open>The service of a call\<close>

lemma new_postgres_free: "new_postgres_from_db cfg = (p, l) \<Longrightarrow> held_conn l = None"
  by (auto simp: new_postgres_from_db_def Let_def held_conn_def)

lemma api_service_Inr:
  assumes "resolve_options opts = Inr cfg" "resolve (cf_table cfg) = Inr ref"
  obtains p l where "api_service U (Some D) (Some F) opts = Inr (fs_service U F D ref p, cfg, l)" "held_conn l = None"
proof -
  obtain p l where pl: "new_postgres_from_db (postgres_config_of cfg) = (p, l)" by force
  then have "api_service U (Some D) (Some F) opts = Inr (fs_service U F D ref p, cfg, l)"
    using assms by (simp add: api_service_def new_custom_executor_def)
  then show thesis using that new_postgres_free [OF pl] by blast
qed

text \<open>What a call starts from: no session stranded, scripts that are tidy.\<close>

definition api_ready :: "unicode \<Rightarrow> (string \<Rightarrow> bool) \<Rightarrow> fsys \<Rightarrow> db_view \<Rightarrow> bool" where
  "api_ready U tidy F v \<longleftrightarrow> unstranded v \<and> tidy_rows U tidy v \<and> (\<forall>ms. get_migrations U F = Inr ms \<longrightarrow> tidy_migrations U tidy ms)"

lemma api_ready_service: "api_ready U tidy F v \<Longrightarrow> held_conn l = None \<Longrightarrow> ready U tidy F v l"
  by (simp add: api_ready_def ready_def)

lemma empty_fs_source: "get_migrations U empty_fs = Inl e \<Longrightarrow> True" "\<not> is_ok (get_migrations U empty_fs)"
  by (simp_all add: get_migrations_def empty_fs_def)

lemma api_ready_empty_fs: "api_ready U tidy F v \<Longrightarrow> api_ready U tidy empty_fs v"
  using empty_fs_source(2) [of U] by (auto simp: api_ready_def)

lemma up_call:
  assumes "sql_database D ref view tx_view tx_session tidy" "resolve_options opts = Inr cfg" "resolve (cf_table cfg) = Inr ref"
    "api_ready U tidy F (view w)" "Up U c (Some D) (Some F) opts w = (w', x, None)"
  obtains r where "x = Some (to_result r)" "up_done U (get_migrations U F) (view w) (view w') r" "same_sessions (view w) (view w')"
proof -
  obtain p l where s: "api_service U (Some D) (Some F) opts = Inr (fs_service U F D ref p, cfg, l)" "held_conn l = None"
    by (rule api_service_Inr [OF assms(2,3)])
  obtain l' r where run: "up (fs_service U F D ref p) c (w, l) = ((w', l'), r, None)" "x = Some (to_result r)"
    using assms(5) s(1) by (auto simp: Up_def split: prod.splits)
  from up_outcome [OF assms(1) api_ready_service [OF assms(4) s(2)] run(1)] run(2) that show thesis by simp
qed

lemma reconcile_call:
  assumes "sql_database D ref view tx_view tx_session tidy" "resolve_options opts = Inr cfg" "resolve (cf_table cfg) = Inr ref"
    "api_ready U tidy F (view w)" "Reconcile U c (Some D) (Some F) opts w = (w', x, None)"
  obtains r where "x = Some (to_result r)" "reconcile_done U (get_migrations U F) (run_options_of cfg) (view w) (view w') r"
proof -
  obtain p l where s: "api_service U (Some D) (Some F) opts = Inr (fs_service U F D ref p, cfg, l)" "held_conn l = None"
    by (rule api_service_Inr [OF assms(2,3)])
  obtain l' r where run: "reconcile (fs_service U F D ref p) c (run_options_of cfg) (w, l) = ((w', l'), r, None)" "x = Some (to_result r)"
    using assms(5) s(1) by (auto simp: Reconcile_def split: prod.splits)
  from reconcile_outcome [OF assms(1) api_ready_service [OF assms(4) s(2)] run(1)] run(2) that show thesis by simp
qed

lemma rollback_call:
  assumes "sql_database D ref view tx_view tx_session tidy" "resolve_options opts = Inr cfg" "resolve (cf_table cfg) = Inr ref"
    "api_ready U tidy empty_fs (view w)" "api_rollback U c (Some D) count opts w = (w', x, None)"
  obtains r where "x = Some (to_result r)" "rollback_done U count (view w) (view w') r"
proof -
  obtain p l where s: "api_service U (Some D) (Some empty_fs) opts = Inr (fs_service U empty_fs D ref p, cfg, l)" "held_conn l = None"
    by (rule api_service_Inr [OF assms(2,3)])
  obtain l' r where run: "rollback (fs_service U empty_fs D ref p) c count (w, l) = ((w', l'), r, None)" "x = Some (to_result r)"
    using assms(5) s(1) by (auto simp: api_rollback_def split: prod.splits)
  from rollback_outcome [OF assms(1) api_ready_service [OF assms(4) s(2)] run(1)] run(2) that show thesis by simp
qed

lemma plan_call:
  assumes "sql_database D ref view tx_view tx_session tidy" "resolve_options opts = Inr cfg" "resolve (cf_table cfg) = Inr ref"
    "Plan U c (Some D) (Some F) opts w = (w', x, err)"
  shows "view w' = view w \<and> (case err of
      Some _ \<Rightarrow> x = None
    | None \<Rightarrow> \<exists>files. get_migrations U F = Inr files
        \<and> x = Some (to_analysis (reconcile_plan files (rows_of (view w)))
            (blocked_by (reconcile_plan files (rows_of (view w))) files (run_options_of cfg))))"
proof -
  obtain p l where s: "api_service U (Some D) (Some F) opts = Inr (fs_service U F D ref p, cfg, l)"
    by (rule api_service_Inr [OF assms(2,3)])
  obtain answer where run: "build_reconcile_plan (fs_service U F D ref p) c (run_options_of cfg) w = (w', answer)"
    and x: "(x, err) = (case answer of Inl e \<Rightarrow> (None, Some e) | Inr a \<Rightarrow> (Some (to_analysis (ra_plan a) (ra_blocked_by a)), None))"
    using assms(4) s by (auto simp: Plan_def split: prod.splits sum.splits)
  show ?thesis using build_reconcile_plan_outcome [OF assms(1) run] x by (cases answer) auto
qed

section \<open>Arguments\<close>

text \<open>
  what a call accepts. A call gets past its arguments exactly when there is a database and a file system, the
  lock timeout, after all options, is not negative, and the table reference resolves.
\<close>

theorem call_accepts_exactly:
  "is_ok (api_service U sql_d F opts) \<longleftrightarrow>
     sql_d \<noteq> None \<and> F \<noteq> None \<and> 0 \<le> cf_lock_timeout (fold (\<lambda>opt cfg. opt cfg) opts zero_config)
     \<and> is_ok (resolve (cf_table (fold (\<lambda>opt cfg. opt cfg) opts zero_config)))"
  by (auto simp: api_service_def resolve_options_def Let_def new_custom_executor_def split: option.split sum.split prod.split)

text \<open>An answer with an error and no result, the server untouched.\<close>

definition rejected :: "'w \<Rightarrow> 'w \<times> 'r option \<times> goerr option \<Rightarrow> bool" where
  "rejected w answer \<longleftrightarrow> fst answer = w \<and> fst (snd answer) = None \<and> snd (snd answer) \<noteq> None"

text \<open>
  bad arguments never reach the server. Where the arguments are not accepted every entry point returns an error
  and leaves the server alone; and so do \<open>Down\<close> for a count that is not positive, and \<open>Baseline\<close> without an ID.
\<close>

theorem bad_arguments_touch_nothing:
  assumes "\<not> is_ok (api_service U sql_d F opts)" "\<not> is_ok (api_service U sql_d' (Some empty_fs) opts')" "count \<le> 0"
  shows "rejected w (Reconcile U c sql_d F opts w) \<and> rejected w (Up U c sql_d F opts w) \<and> rejected w (Plan U c sql_d F opts w)
    \<and> rejected w (Baseline U c sql_d F through_id opts w) \<and> rejected w (Down U c sql_d' n opts' w)
    \<and> rejected w (DownAll U c sql_d' opts' w) \<and> rejected w (Status U c sql_d' opts' w)
    \<and> Forget U c sql_d' i opts' w \<in> {w} \<times> range Some
    \<and> rejected w (Down U c any_db count any_opts w) \<and> rejected w (Baseline U c any_db any_fs [] any_opts w)"
proof -
  obtain e e' where e: "api_service U sql_d F opts = Inl e" "api_service U sql_d' (Some empty_fs) opts' = Inl e'"
    using assms(1,2) by (cases "api_service U sql_d F opts"; cases "api_service U sql_d' (Some empty_fs) opts'") auto
  show ?thesis
    using assms(3) by (simp add: rejected_def Reconcile_def Up_def Plan_def Baseline_def Down_def DownAll_def api_rollback_def
        Status_def Forget_def e)
qed

theorem bad_arguments_touch_nothing_witness:
  "\<forall>w. rejected w (Up demo_unicode Caller (Some (ref_db (\<lambda>_. False) ''m'')) (Some demo_files) [with_lock_timeout (-1)] w)
   \<and> rejected w (Down demo_unicode Caller None 0 [] w)"
proof
  fix w
  have bad: "\<not> is_ok (api_service demo_unicode (Some (ref_db (\<lambda>_. False) ''m'')) (Some demo_files) [with_lock_timeout (-1)])"
    "\<not> is_ok (api_service demo_unicode (None :: ref_world sql_db option) (Some empty_fs) [])"
    by (simp_all add: api_service_def resolve_options_def with_lock_timeout_def Let_def)
  from bad_arguments_touch_nothing [OF bad, of 0 w]
  show "rejected w (Up demo_unicode Caller (Some (ref_db (\<lambda>_. False) ''m'')) (Some demo_files) [with_lock_timeout (-1)] w)
   \<and> rejected w (Down demo_unicode Caller None 0 [] w)" by blast
qed

section \<open>Calls\<close>

text \<open>
  \<open>Down\<close> and \<open>DownAll\<close>. A call without error has removed the rows of the last \<open>count\<close> migrations, or of all,
  and reports their IDs, the last one first; the files do not matter.
\<close>

theorem down_removes_newest:
  assumes "sql_database D ref view tx_view tx_session tidy" "resolve_options opts = Inr cfg" "resolve (cf_table cfg) = Inr ref"
    and "api_ready U tidy empty_fs (view w)"
    and "(w', x, None) = (if all then DownAll U c (Some D) opts w else Down U c (Some D) count opts w)"
  shows "\<exists>k. k = (if all then 0 else length (rows_of (view w)) - nat count)
    \<and> v_rows (view w') = Some (take k (rows_of (view w)))
    \<and> map_option ar_rolled_back x = Some (rev (row_ids (drop k (rows_of (view w)))))"
proof -
  define n where "n = (if all then -1 else count)"
  have "api_rollback U c (Some D) n opts w = (w', x, None)" and n: "all \<or> 0 < n"
    using assms(5) by (auto simp: n_def DownAll_def Down_def all_migrations_def split: if_splits)
  then obtain r where x: "x = Some (to_result r)" and d: "rollback_done U n (view w) (view w') r"
    using rollback_call [OF assms(1-4)] by blast
  from rollback_done_rows [OF assms(1) d] n x show ?thesis
    by (auto simp: n_def to_result_def migration_ids_def split: if_splits)
qed

text \<open>A server with the table of the default name.\<close>

definition demo_ref :: table_ref where "demo_ref = [DQ] @ default_table_name @ [DQ]"

lemma demo_defaults: "resolve_options [] = Inr zero_config" "resolve (cf_table zero_config) = Inr demo_ref"
  by (simp_all add: resolve_options_def zero_config_def demo_ref_def go_eval)

lemma demo_ref_tidy: "tidy_script demo_unicode (ref_tidy ref) ''A''" "tidy_script demo_unicode (ref_tidy ref) ''B''"
  by (simp_all add: tidy_script_def script_steps_def demo_header has_directive_def ref_tidy_def statement_texts)

lemma demo_api_ready:
  "api_ready demo_unicode (ref_tidy ref) demo_files (ref_view (demo_world (Some [demo_row ''0'' e]) fs b))"
  "api_ready demo_unicode (ref_tidy ref) demo_files (ref_view (demo_world None fs b))"
  using demo_ref_tidy
  by (simp_all add: api_ready_def demo_view demo_source tidy_rows_def tidy_migrations_def unstranded_def)

lemma demo_api_service:
  "api_service demo_unicode (Some D) (Some F) [] =
     Inr (new_service (get_migrations demo_unicode F) demo_unicode D demo_ref \<lparr>pg_lock_timeout = 5000000000, pg_lock_id = default_lock_id\<rparr>,
       zero_config, demo_lock)"
  using demo_defaults
  by (simp add: api_service_def new_custom_executor_def new_postgres_from_db_def postgres_config_of_def demo_lock_def)
    (simp add: zero_config_def default_lock_timeout_def)

lemmas api_eval = demo_api_service Up_def Down_def DownAll_def api_rollback_def Status_def all_migrations_def

theorem down_removes_newest_witness:
  "\<exists>w' x. Down demo_unicode Caller (Some (ref_db (\<lambda>_. False) demo_ref)) 1 [] (demo_world (Some [demo_row ''0'' None]) [] False) = (w', x, None)
     \<and> v_rows (ref_view w') = Some [] \<and> map_option ar_rolled_back x = Some [''0'']"
proof -
  let ?w = "demo_world (Some [demo_row ''0'' None]) [] False"
  obtain w' x where run: "Down demo_unicode Caller (Some (ref_db (\<lambda>_. False) demo_ref)) 1 [] ?w = (w', x, None)"
    by (simp add: api_eval run_eval demo_eval cong: run_congs)
  then have "(w', x, None) = (if False then DownAll demo_unicode Caller (Some (ref_db (\<lambda>_. False) demo_ref)) [] ?w
      else Down demo_unicode Caller (Some (ref_db (\<lambda>_. False) demo_ref)) 1 [] ?w)" by simp
  from down_removes_newest [OF ref_db_laws demo_defaults api_ready_empty_fs [OF demo_api_ready(1)] this]
  have "v_rows (ref_view w') = Some [] \<and> map_option ar_rolled_back x = Some [''0'']" by (simp add: demo_rows)
  with run show ?thesis by blast
qed

text \<open>
  C31: up and all the way down again. On a ledger without rows, an Up and then a DownAll that both succeed leave a
  ledger without rows; every up script of the files has run in order, then every down script in the
  reverse order, and the two calls report the same migrations.
\<close>

theorem up_then_down_all:
  assumes "sql_database D ref view tx_view tx_session tidy" "resolve_options opts = Inr cfg" "resolve (cf_table cfg) = Inr ref"
    and "api_ready U tidy F (view w)" "rows_of (view w) = []"
    and "get_migrations U F = Inr files" "\<forall>m \<in> set files. tidy_script U tidy (mig_down_script m)"
    and "Up U c (Some D) (Some F) opts w = (w1, x1, None)" "DownAll U c' (Some D) opts w1 = (w2, x2, None)"
  shows "rows_of (view w2) = []
    \<and> v_ran (view w2) = v_ran (view w) @ concat (map (\<lambda>m. script_steps U (mig_up_script m)) files)
        @ concat (map (\<lambda>m. script_steps U (mig_down_script m)) (rev files))
    \<and> map_option ar_applied x1 = Some (ids files) \<and> map_option ar_rolled_back x2 = Some (rev (ids files))"
proof -
  obtain r1 where x1: "x1 = Some (to_result r1)" and up1: "up_done U (get_migrations U F) (view w) (view w1) r1"
    and same: "same_sessions (view w) (view w1)"
    by (rule up_call [OF assms(1-4,8)])
  have plan: "up_plan files [] = \<lparr>to_rollback = [], to_apply = files, plan_interleaved = []\<rparr>" by (simp add: up_plan_def)
  then have ok: "plan_done U (up_plan files []) (table_created (view w)) (view w1)" and a1: "res_applied r1 = files"
    using up1 assms(5,6) by (auto simp: up_done_def)
  from plan_done_rows [OF ok keyed_rows [OF assms(1)]] assms(5) obtain new where
    new: "v_rows (view w1) = Some new" "list_all2 stores files new"
      "v_ran (view w1) = v_ran (view w) @ concat (map (\<lambda>m. script_steps U (mig_up_script m)) files)"
    by (auto simp: plan)
  have "tidy_script U tidy (row_down r)" if "r \<in> set new" for r by (rule stores_tidy [OF new(2) assms(7) that])
  then have "tidy_rows U tidy (view w1)" using new(1) by (simp add: tidy_rows_def)
  moreover have "unstranded (view w1)" using same same_sessions_unstranded assms(4) by (auto simp: api_ready_def)
  ultimately have "api_ready U tidy empty_fs (view w1)" using assms(4) by (simp add: api_ready_def) (metis empty_fs_source(2) is_ok.simps(2))
  then obtain r2 where x2: "x2 = Some (to_result r2)" and d2: "rollback_done U (-1) (view w1) (view w2) r2"
    using rollback_call [OF assms(1-3)] assms(9) unfolding DownAll_def all_migrations_def by blast
  have downs: "map (\<lambda>r. script_steps U (row_down r)) (rev new) = map (\<lambda>m. script_steps U (mig_down_script m)) (rev files)"
    using new(2) unfolding rev_map [symmetric] by (induction rule: list_all2_induct) (auto simp: stores_def)
  from rollback_done_rows [OF assms(1) d2] have "rows_of (view w2) = []"
    "ids (res_rolled_back r2) = rev (row_ids new)"
    "v_ran (view w2) = v_ran (view w1) @ concat (map (\<lambda>r. script_steps U (row_down r)) (rev new))"
    by (simp_all add: rows_of_Some [OF new(1)] rows_of_def [of "view w2"])
  with new x1 x2 a1 downs stores_ids [OF new(2)] show ?thesis
    by (simp add: to_result_def migration_ids_def)
qed

theorem up_then_down_all_witness:
  "\<exists>w1 x1 w2 x2. Up demo_unicode Caller (Some (ref_db (\<lambda>_. False) demo_ref)) (Some demo_files) [] (demo_world None [] False) = (w1, x1, None)
     \<and> DownAll demo_unicode Caller (Some (ref_db (\<lambda>_. False) demo_ref)) [] w1 = (w2, x2, None)
     \<and> rows_of (ref_view w2) = [] \<and> v_ran (ref_view w2) = [''A'', ''B'']"
proof -
  obtain w1 x1 w2 x2 where run:
    "Up demo_unicode Caller (Some (ref_db (\<lambda>_. False) demo_ref)) (Some demo_files) [] (demo_world None [] False) = (w1, x1, None)"
    "DownAll demo_unicode Caller (Some (ref_db (\<lambda>_. False) demo_ref)) [] w1 = (w2, x2, None)"
    by (simp add: api_eval run_eval demo_eval build_plan_eq cong: run_congs)
  have tidy: "\<forall>m \<in> set [demo_migration]. tidy_script demo_unicode (ref_tidy demo_ref) (mig_down_script m)"
    by (simp add: demo_ref_tidy)
  from up_then_down_all [OF ref_db_laws demo_defaults demo_api_ready(2) demo_rows(2) demo_source tidy run]
  have "rows_of (ref_view w2) = [] \<and> v_ran (ref_view w2) = [''A'', ''B'']" by (simp add: demo_view demo_steps)
  with run show ?thesis by blast
qed

context sql_database begin

lemmas serve_applied = sv.applied_migrations_wp [where src = src and U = U and p = p] for src U p

end

text \<open>
  \<open>Status\<close> shows the ledger. It changes nothing, and a call without error lists the rows in the order they were
  applied, each with its ID, time, stored rollback script and error, and as failed exactly when there is one.
\<close>

theorem status_shows_ledger:
  assumes "sql_database D ref view tx_view tx_session tidy" "resolve_options opts = Inr cfg" "resolve (cf_table cfg) = Inr ref"
    and "Status U c (Some D) opts w = (w', x, err)"
  shows "view w' = view w \<and> (case err of
      Some _ \<Rightarrow> x = None
    | None \<Rightarrow> x = Some (map (\<lambda>r. \<lparr>aa_applied_at = row_time r, aa_id = row_id r, aa_error = (case row_error r of None \<Rightarrow> [] | Some e \<Rightarrow> e),
        aa_down_script = row_down r, aa_failed = (row_error r \<noteq> None)\<rparr>) (rows_of (view w))))"
proof -
  obtain p l where s: "api_service U (Some D) (Some empty_fs) opts = Inr (fs_service U empty_fs D ref p, cfg, l)"
    by (rule api_service_Inr [OF assms(2,3)])
  obtain answer where run: "applied_migrations (fs_service U empty_fs D ref p) c w = (w', answer)"
    and x: "(x, err) = (case answer of Inl e \<Rightarrow> (None, Some e) | Inr ms \<Rightarrow> (Some (map status_record ms), None))"
    using assms(4) s by (auto simp: Status_def split: prod.splits sum.splits)
  have "view w' = view w \<and> (case answer of Inl _ \<Rightarrow> True | Inr ms \<Rightarrow> ms = map applied_of (rows_of (view w)))"
    using sql_database.serve_applied [OF assms(1), of "get_migrations U empty_fs" U p c w] run
    by (auto simp: wp_def split: sum.splits)
  with x show ?thesis by (auto simp: status_record_def applied_of_def split: sum.splits)
qed

theorem status_shows_ledger_witness:
  "\<exists>w' x. Status demo_unicode Caller (Some (ref_db (\<lambda>_. False) demo_ref)) [] (demo_world (Some [demo_row ''0'' (Some ''boom'')]) [] False)
       = (w', Some [x], None) \<and> aa_id x = ''0'' \<and> aa_failed x \<and> aa_error x = ''boom''"
proof -
  obtain w' x where run: "Status demo_unicode Caller (Some (ref_db (\<lambda>_. False) demo_ref)) []
      (demo_world (Some [demo_row ''0'' (Some ''boom'')]) [] False) = (w', x, None)"
    by (simp add: api_eval run_eval demo_eval cong: run_congs)
  from status_shows_ledger [OF ref_db_laws demo_defaults run] run show ?thesis
    by (auto simp: demo_rows)
qed

end
