(* ===== verification/Command_Props.thy ===== *)
theory Command_Props
  imports New_Demo Api_Props
begin

text \<open>
  The properties of the command line: how flags reach the library, what is refused before a connection is opened, and
  what the exit status promises about the database.
\<close>

section \<open>Flags\<close>

definition flag_timeout :: "(nat \<Rightarrow> nat \<Rightarrow> nat \<Rightarrow> nat) \<Rightarrow> cli_config \<Rightarrow> cli_flags \<Rightarrow> int result" where
  "flag_timeout frac cfg fl =
     (if fl_lock_timeout fl = [] then Inr (cc_lock_timeout cfg) else parse_duration frac (fl_lock_timeout fl))"

text \<open>
  the flags reach the library. Options are built exactly when the lock timeout flag, if given, is a duration; the
  library then resolves them to the configuration that holds the flags, with the environment's lock timeout where
  there is no flag, unless the timeout is negative, which it refuses.
\<close>

theorem flags_reach_options:
  assumes "build_options frac cfg fl rollbacks interleaves = Inr opts"
  shows "\<exists>timeout. flag_timeout frac cfg fl = Inr timeout \<and> (is_ok (resolve_options opts) \<longleftrightarrow> 0 \<le> timeout)
    \<and> (0 \<le> timeout \<longrightarrow> resolve_options opts = Inr
        \<lparr>cf_table = \<lparr>tc_schema = fl_schema fl, tc_name = fl_table fl\<rparr>, cf_lock_timeout = timeout, cf_lock_id = fl_lock_id fl,
         cf_allow_rollback = rollbacks, cf_allow_interleaved = interleaves, cf_allow_empty_source = False,
         cf_lock_timeout_set = True\<rparr>)"
proof -
  obtain timeout where t: "flag_timeout frac cfg fl = Inr timeout"
    and opts: "opts = [with_lock_timeout timeout]
            @ (if fl_lock_id fl \<noteq> 0 then [with_lock_id (fl_lock_id fl)] else [])
            @ (if fl_table fl \<noteq> [] then [with_table_name (fl_table fl)] else [])
            @ (if fl_schema fl \<noteq> [] then [with_schema (fl_schema fl)] else [])
            @ (if rollbacks then [with_rollback] else [])
            @ (if interleaves then [with_interleaved] else [])"
    using assms by (auto simp: build_options_def flag_timeout_def split: sum.splits if_split_asm)
  have "fold (\<lambda>opt cfg. opt cfg) opts zero_config =
        \<lparr>cf_table = \<lparr>tc_schema = fl_schema fl, tc_name = fl_table fl\<rparr>, cf_lock_timeout = timeout, cf_lock_id = fl_lock_id fl,
         cf_allow_rollback = rollbacks, cf_allow_interleaved = interleaves, cf_allow_empty_source = False,
         cf_lock_timeout_set = True\<rparr>"
    unfolding opts fold_append comp_def
    by (simp add: zero_config_def with_lock_timeout_def with_lock_id_def with_table_name_def with_schema_def
        with_rollback_def with_interleaved_def)
  then show ?thesis using t by (simp add: resolve_options_def Let_def)
qed

definition demo_flags :: cli_flags where
  "demo_flags = \<lparr>fl_lock_timeout = ''1m30s'', fl_lock_id = 0, fl_migration_path = ''m'', fl_table = [], fl_schema = [],
     fl_dsn = ''d'', fl_ssl_mode = []\<rparr>"

definition demo_config :: cli_config where
  "demo_config = \<lparr>cc_migration_path = [], cc_postgres = postgres_config_of zero_config, cc_lock_timeout = cli_lock_timeout\<rparr>"

lemma demo_duration: "parse_duration frac ''1m30s'' = Inr 90000000000"
  by (simp add: parse_duration_def Let_def parse_groups.simps [of _ _ _ "_ # _"] parse_groups.simps [of _ _ _ "[]"] read_number_def is_digit_char_def digit_value_def unit_text_def
      duration_unit_def)

lemma demo_options_built: "build_options frac demo_config demo_flags r i =
    Inr ([with_lock_timeout 90000000000] @ (if r then [with_rollback] else []) @ (if i then [with_interleaved] else []))"
  by (simp add: build_options_def demo_flags_def demo_duration)

theorem flags_reach_options_witness:
  "\<exists>c. resolve_options ([with_lock_timeout 90000000000] @ [with_rollback]) = Inr c \<and> cf_allow_rollback c \<and> cf_lock_timeout c = 90000000000"
  using flags_reach_options [OF demo_options_built [of "\<lambda>_ _ _. 0" True False]]
  by (auto simp: flag_timeout_def demo_flags_def demo_duration)

text \<open>Without any flag the options are the environment's lock timeout, and logging is set up.\<close>

lemma defaults_accepted:
  "build_options frac cfg default_flags False False = Inr [with_lock_timeout (cc_lock_timeout cfg)]"
  "is_ok (setup_logging U default_log_level default_log_format)"
proof -
  have "to_lower U ''info'' = ''info''" "to_lower U ''text'' = ''text''" by (rule to_lower_same, simp)+
  then show "is_ok (setup_logging U default_log_level default_log_format)"
    by (simp add: setup_logging_def log_level_of_def default_log_level_def default_log_format_def)
qed (simp add: build_options_def default_flags_def)

text \<open>Every connection the tool opens carries its name, whatever the connection string asks for.\<close>

lemma connections_are_named:
  assumes "connect_db E cfg w = (w', Inr D)"
  shows "\<exists>px. D = cli_open E px \<and> px_params px ''application_name'' = Some ''migrate''"
  using assms by (auto simp: connect_db_def open_sql_db_def application_name_def split: sum.splits prod.splits option.splits)

section \<open>Refusals\<close>

text \<open>What is wrong with a command line before anything is opened.\<close>

fun bad_command_line :: "'w cli \<Rightarrow> cli_config \<Rightarrow> command \<Rightarrow> bool" where
  "bad_command_line E cfg (New_Command name opts now) \<longleftrightarrow>
     \<not> is_ok (resolve_path cfg (cli_flags E)) \<or> \<not> is_ok (slugify (cli_unicode E) name)"
| "bad_command_line E cfg (Validate_Command json) \<longleftrightarrow> \<not> is_ok (resolve_path cfg (cli_flags E))"
| "bad_command_line E cfg (Down_Command arg) \<longleftrightarrow>
     \<not> is_ok (flag_timeout (cli_frac E) cfg (cli_flags E)) \<or> \<not> is_ok (down_count arg)"
| "bad_command_line E cfg (Status_Command json) \<longleftrightarrow> \<not> is_ok (flag_timeout (cli_frac E) cfg (cli_flags E))"
| "bad_command_line E cfg (Forget_Command i) \<longleftrightarrow> \<not> is_ok (flag_timeout (cli_frac E) cfg (cli_flags E))"
| "bad_command_line E cfg cmd \<longleftrightarrow>
     \<not> is_ok (flag_timeout (cli_frac E) cfg (cli_flags E)) \<or> \<not> is_ok (resolve_path cfg (cli_flags E))"

lemma not_ok: "\<not> is_ok r \<Longrightarrow> \<exists>e. r = Inl e"
  by (cases r) auto

lemma build_options_Inl:
  "\<not> is_ok (flag_timeout frac cfg fl) \<Longrightarrow> \<exists>e. \<forall>r i. build_options frac cfg fl r i = Inl e"
  by (auto simp: build_options_def flag_timeout_def dest!: not_ok split: if_splits)

lemma refused_for_flags:
  assumes "\<forall>r i. build_options (cli_frac E) cfg (cli_flags E) r i = Inl e"
  shows "reconcile_command E cfg os r i w = (w, [], Some e)" "up_command E cfg os w = (w, [], Some e)"
    "down_command E cfg arg w = (w, [], Some e)" "plan_command E cfg os json w = (w, [], Some e)"
    "status_command E cfg json w = (w, [], Some e)" "forget_command E cfg j w = (w, [], Some e)"
    "baseline_command E cfg os j w = (w, [], Some e)"
  using assms
  by (simp_all add: reconcile_command_def up_command_def down_command_def plan_command_def status_command_def
      forget_command_def baseline_command_def)

lemma refused_for_path:
  assumes "resolve_path cfg (cli_flags E) = Inl e"
  shows "\<exists>e. reconcile_command E cfg os r i w = (w, [], Some e)" "\<exists>e. up_command E cfg os w = (w, [], Some e)"
    "\<exists>e. plan_command E cfg os json w = (w, [], Some e)" "\<exists>e. baseline_command E cfg os j w = (w, [], Some e)"
    "\<exists>e. validate_command E cfg os json = ([], Some e)" "\<exists>e. new_command E cfg name opts now os = (os, [], Some e)"
  using assms
  by (simp_all add: reconcile_command_def up_command_def plan_command_def baseline_command_def validate_command_def
      new_command_def new_run_def split: sum.split)

lemma refused_for_argument:
  "\<not> is_ok (down_count arg) \<Longrightarrow> \<exists>e. down_command E cfg arg w = (w, [], Some e)"
  "\<not> is_ok (slugify (cli_unicode E) name) \<Longrightarrow> \<exists>e. new_command E cfg name opts now os = (os, [], Some e)"
  by (auto simp: down_command_def new_command_def new_run_def dest!: not_ok split: sum.split)

lemma bad_command:
  assumes "bad_command_line E cfg cmd"
  shows "\<exists>e. run_command E cfg cmd (w, os) = ((w, os), [], Some e)"
proof -
  have f: "\<exists>e. \<forall>r i. build_options (cli_frac E) cfg (cli_flags E) r i = Inl e"
    if "\<not> is_ok (flag_timeout (cli_frac E) cfg (cli_flags E))" by (rule build_options_Inl [OF that])
  have q: "\<exists>e. resolve_path cfg (cli_flags E) = Inl e" if "\<not> is_ok (resolve_path cfg (cli_flags E))" by (rule not_ok [OF that])
  show ?thesis
  proof (cases cmd)
    case (Reconcile_Command r i)
    then have "\<exists>e. reconcile_command E cfg os r i w = (w, [], Some e)"
      using assms f q refused_for_flags(1) [of E cfg _ os r i w] refused_for_path(1) [of cfg E _ os r i w] by auto
    then show ?thesis unfolding Reconcile_Command by auto
  next
    case Up_Command
    then have "\<exists>e. up_command E cfg os w = (w, [], Some e)"
      using assms f q refused_for_flags(2) [of E cfg _ os w] refused_for_path(2) [of cfg E _ os w] by auto
    then show ?thesis unfolding Up_Command by auto
  next
    case (Down_Command arg)
    then have "\<exists>e. down_command E cfg arg w = (w, [], Some e)"
      using assms f refused_for_flags(3) [of E cfg _ arg w] refused_for_argument(1) [of arg E cfg w] by auto
    then show ?thesis unfolding Down_Command by auto
  next
    case (Plan_Command json)
    then have "\<exists>e. plan_command E cfg os json w = (w, [], Some e)"
      using assms f q refused_for_flags(4) [of E cfg _ os json w] refused_for_path(3) [of cfg E _ os json w] by auto
    then show ?thesis unfolding Plan_Command by auto
  next
    case (Status_Command json)
    then have "\<exists>e. status_command E cfg json w = (w, [], Some e)"
      using assms f refused_for_flags(5) [of E cfg _ json w] by auto
    then show ?thesis unfolding Status_Command by auto
  next
    case (Forget_Command j)
    then have "\<exists>e. forget_command E cfg j w = (w, [], Some e)"
      using assms f refused_for_flags(6) [of E cfg _ j w] by auto
    then show ?thesis unfolding Forget_Command by auto
  next
    case (Baseline_Command j)
    then have "\<exists>e. baseline_command E cfg os j w = (w, [], Some e)"
      using assms f q refused_for_flags(7) [of E cfg _ os j w] refused_for_path(4) [of cfg E _ os j w] by auto
    then show ?thesis unfolding Baseline_Command by auto
  next
    case (New_Command name opts now)
    then have "\<exists>e. new_command E cfg name opts now os = (os, [], Some e)"
      using assms q refused_for_path(6) [of cfg E _ name opts now os] refused_for_argument(2) [of E name cfg opts now os] by auto
    then show ?thesis unfolding New_Command by auto
  next
    case (Validate_Command json)
    then have "\<exists>e. validate_command E cfg os json = ([], Some e)"
      using assms q refused_for_path(5) [of cfg E _ os json] by auto
    then show ?thesis unfolding Validate_Command by auto
  qed
qed

text \<open>
  C34: bad input opens nothing. When the environment, the logging flags or the command line are not acceptable the tool
  exits with status 1, and neither the database nor a file has been touched.
\<close>

theorem cli_refuses_before_connecting:
  assumes "case new_config (cli_frac E) getenv of
      Inl _ \<Rightarrow> True
    | Inr cfg \<Rightarrow> \<not> is_ok (setup_logging (cli_unicode E) level format) \<or> bad_command_line E cfg cmd"
  shows "fst (run_cli E getenv level format cmd s) = s \<and> exit_status (run_cli E getenv level format cmd s) = 1"
proof (cases "new_config (cli_frac E) getenv")
  case (Inr cfg)
  obtain w os where s: "s = (w, os)" by force
  show ?thesis
  proof (cases "setup_logging (cli_unicode E) level format")
    case (Inr l)
    then obtain e where "run_command E cfg cmd (w, os) = ((w, os), [], Some e)"
      using assms \<open>new_config (cli_frac E) getenv = Inr cfg\<close> bad_command [of E cfg cmd w os] by auto
    then show ?thesis using Inr \<open>new_config (cli_frac E) getenv = Inr cfg\<close> s by (simp add: run_cli_def exit_status_def)
  qed (use Inr in \<open>simp add: run_cli_def exit_status_def\<close>)
qed (simp add: run_cli_def exit_status_def)

definition demo_cli :: "ref_world cli" where
  "demo_cli = \<lparr>cli_unicode = demo_unicode, cli_frac = (\<lambda>_ _ _. 0), cli_flags = demo_flags,
     cli_parse = (\<lambda>dsn. Inr \<lparr>px_source = dsn, px_params = Map.empty\<rparr>),
     cli_open = (\<lambda>_. ref_db (\<lambda>_. False) demo_ref), cli_ping = (\<lambda>_ w. (w, None)), cli_close = (\<lambda>_ w. w),
     cli_time = (\<lambda>_. []), cli_json_plan = (\<lambda>_. Inr []), cli_json_status = (\<lambda>_. Inr []), cli_json_report = (\<lambda>_. Inr [])\<rparr>"

theorem cli_refuses_before_connecting_witness:
  "\<forall>w. fst (run_cli demo_cli (\<lambda>_. []) ''info'' ''text'' (Down_Command ''0'') (w, demo_os)) = (w, demo_os)"
proof
  fix w
  have "case new_config (cli_frac demo_cli) (\<lambda>_. []) of
      Inl _ \<Rightarrow> True
    | Inr cfg \<Rightarrow> \<not> is_ok (setup_logging (cli_unicode demo_cli) ''info'' ''text'') \<or> bad_command_line demo_cli cfg (Down_Command ''0'')"
    by (simp add: down_count_def atoi_def is_digit_char_def digit_value_def Let_def split: sum.split)
  from cli_refuses_before_connecting [OF this, of "(w, demo_os)"]
  show "fst (run_cli demo_cli (\<lambda>_. []) ''info'' ''text'' (Down_Command ''0'') (w, demo_os)) = (w, demo_os)" by simp
qed

section \<open>What the exit status promises\<close>

lemma with_db_view:
  assumes "open_sql_db E (connect_config cfg (cli_flags E)) = Inr D" "\<And>w. view (fst (cli_ping E D w)) = view w"
    "with_db E cfg k w = (w', out, None)"
  obtains w1 w2 where "view w1 = view w" "k D w1 = (w2, out, None)" "w' = cli_close E D w2"
proof -
  obtain w1 res where p: "cli_ping E D w = (w1, res)" by force
  then have "view w1 = view w" using assms(2) [of w] by simp
  moreover obtain w2 where "k D w1 = (w2, out, None)" "w' = cli_close E D w2"
    using assms(1,3) p by (auto simp: with_db_def connect_db_def split: option.splits prod.splits)
  ultimately show thesis using that by blast
qed

text \<open>
  C33: status 0 of \<open>reconcile\<close>. When the command exits with it, the bookkeeping table holds exactly the IDs of the
  migrations in the directory, and none of its rows carries an error; the files have not been touched.
\<close>

theorem cli_reconcile_synchronizes:
  assumes "sql_database D ref view tx_view tx_session tidy"
    and "new_config (cli_frac E) getenv = Inr cfg" "build_options (cli_frac E) cfg (cli_flags E) r i = Inr opts"
    and "resolve_options opts = Inr c" "resolve (cf_table c) = Inr ref" "resolve_path cfg (cli_flags E) = Inr p"
    and "open_sql_db E (connect_config cfg (cli_flags E)) = Inr D"
    and "\<And>w. view (fst (cli_ping E D w)) = view w" "\<And>w. rows_of (view (cli_close E D w)) = rows_of (view w)"
    and "api_ready (cli_unicode E) tidy (dir_fs os p) (view w)"
    and "run_cli E getenv level format (Reconcile_Command r i) (w, os) = ((w', os'), answer)" "exit_status ((w', os'), answer) = 0"
  shows "os' = os \<and> (\<exists>files. get_migrations (cli_unicode E) (dir_fs os p) = Inr files
    \<and> set (row_ids (rows_of (view w'))) = set (ids files) \<and> healthy (rows_of (view w')))"
proof -
  obtain out where a: "answer = (out, None)" using assms(12) by (cases answer) (auto simp: exit_status_def split: if_splits)
  then have run: "reconcile_command E cfg os r i w = (w', out, None)" and os: "os' = os"
    using assms(2,11) by (auto simp: run_cli_def split: sum.splits prod.splits)
  have db: "with_db E cfg (\<lambda>D w. case Reconcile (cli_unicode E) Caller (Some D) (Some (dir_fs os p)) opts w of
      (w', _, err) \<Rightarrow> (w', [], map_option add_cli_hint err)) w = (w', out, None)"
    using run assms(3,6) by (simp add: reconcile_command_def)
  obtain w1 w2 where w: "view w1 = view w" "w' = cli_close E D w2"
    and k: "(case Reconcile (cli_unicode E) Caller (Some D) (Some (dir_fs os p)) opts w1 of
      (w', _, err) \<Rightarrow> (w', [], map_option add_cli_hint err)) = (w2, out, None)"
    by (rule with_db_view [where view = view, OF assms(7) assms(8) db]) blast
  then obtain x where x: "Reconcile (cli_unicode E) Caller (Some D) (Some (dir_fs os p)) opts w1 = (w2, x, None)"
    by (auto split: prod.splits)
  obtain res where d: "reconcile_done (cli_unicode E) (get_migrations (cli_unicode E) (dir_fs os p)) (run_options_of c) (view w1) (view w2) res"
    using reconcile_call [OF assms(1,4,5) _ x] assms(10) w(1) by metis
  obtain files new where f: "get_migrations (cli_unicode E) (dir_fs os p) = Inr files" "healthy (rows_of (view w1))"
    "v_rows (view w2) = Some (filter (\<lambda>r. row_id r \<in> set (ids files)) (rows_of (view w1)) @ new)"
    "list_all2 stores (pending files (rows_of (view w1))) new"
    by (rule reconcile_rows [OF assms(1) d])
  have "healthy (filter (\<lambda>r. row_id r \<in> set (ids files)) (rows_of (view w1)) @ new)"
    using f(2) stores_healthy [OF f(4)] by (auto simp: healthy_def)
  then show ?thesis
    using os f(1) synchronized_ids [OF f(4)] assms(9) [of w2] w(2) rows_of_Some [OF f(3)] by (auto intro!: exI [of _ files])
qed

text \<open>A directory with one migration, and a server that answers.\<close>

definition demo_source_os :: os_state where
  "demo_source_os = \<lparr>os_files = [(''m/1.up.sql'', ''A''), (''m/1.down.sql'', ''B'')], os_dirs = [''m''], os_fault = (\<lambda>_. None), os_short = 0\<rparr>"

lemma demo_source_loads: "get_migrations demo_unicode (dir_fs demo_source_os ''m'') = Inr [demo_migration]"
proof -
  have p: "filepath_join ''m'' ''1.up.sql'' = ''m/1.up.sql''" "filepath_join ''m'' ''1.down.sql'' = ''m/1.down.sql''"
    "filepath_join ''m'' ''m'' = ''m/m''" "clean_path ''m'' = ''m''" "base_name ''m'' = ''m''"
    "base_name ''m/1.up.sql'' = ''1.up.sql''" "base_name ''m/1.down.sql'' = ''1.down.sql''"
    by (simp_all add: path_eval Let_def)
  have "fs_read_dir (dir_fs demo_source_os ''m'') ''.'' = Inr [\<lparr>entry_name = ''1.down.sql'', entry_is_dir = False\<rparr>,
      \<lparr>entry_name = ''1.up.sql'', entry_is_dir = False\<rparr>]"
    by (simp add: dir_fs_def os_read_dir_def entries_of_def demo_source_os_def p less_char_def)
  moreover have "fs_read_file (dir_fs demo_source_os ''m'') ''1.up.sql'' = Inr ''A''"
    "fs_read_file (dir_fs demo_source_os ''m'') ''1.down.sql'' = Inr ''B''"
    by (simp_all add: dir_fs_def demo_source_os_def p)
  ultimately show ?thesis
    by (simp add: go_eval demo_unicode_def demo_migration_def string_eval)
qed

definition demo_cli_config :: config where
  "demo_cli_config = zero_config\<lparr>cf_lock_timeout := 90000000000, cf_lock_timeout_set := True\<rparr>"

lemma demo_cli_options: "resolve_options [with_lock_timeout 90000000000] = Inr demo_cli_config" "resolve (cf_table demo_cli_config) = Inr demo_ref"
  using demo_defaults(2) by (simp_all add: resolve_options_def with_lock_timeout_def demo_cli_config_def Let_def zero_config_def)

lemma demo_cli_service:
  "api_service demo_unicode (Some D) (Some F) [with_lock_timeout 90000000000] =
     Inr (new_service (get_migrations demo_unicode F) demo_unicode D demo_ref \<lparr>pg_lock_timeout = 90000000000, pg_lock_id = default_lock_id\<rparr>,
       demo_cli_config, demo_lock)"
  using demo_cli_options
  by (simp add: api_service_def new_custom_executor_def new_postgres_from_db_def postgres_config_of_def demo_lock_def)
    (simp add: demo_cli_config_def zero_config_def)

lemma demo_logging: "is_ok (setup_logging demo_unicode ''info'' ''text'')"
  by (simp add: setup_logging_def log_level_of_def go_eval demo_unicode_def string_eval)

lemma demo_cli_reconcile:
  obtains w' x where "Reconcile demo_unicode Caller (Some (ref_db (\<lambda>_. False) demo_ref)) (Some (dir_fs demo_source_os ''m''))
      [with_lock_timeout 90000000000] (demo_world None [] False) = (w', x, None)"
  by (simp add: Reconcile_def demo_cli_service demo_source_loads run_options_of_def demo_cli_config_def zero_config_def
      run_eval demo_eval build_plan_eq cong: run_congs)

lemma demo_cli_run:
  obtains w' where "run_cli demo_cli (\<lambda>_. []) ''info'' ''text'' (Reconcile_Command False False) (demo_world None [] False, demo_source_os)
      = ((w', demo_source_os), [], None)"
proof -
  obtain w' x where "Reconcile demo_unicode Caller (Some (ref_db (\<lambda>_. False) demo_ref)) (Some (dir_fs demo_source_os ''m''))
      [with_lock_timeout 90000000000] (demo_world None [] False) = (w', x, None)" by (rule demo_cli_reconcile)
  moreover obtain l where "setup_logging demo_unicode ''info'' ''text'' = Inr l" using demo_logging by (auto simp: is_ok_iff)
  ultimately show thesis
    using that [of w'] 
    by (simp add: run_cli_def new_config_def config_lock_timeout_def demo_cli_def reconcile_command_def resolve_path_def
        demo_flags_def build_options_def demo_duration with_db_def connect_db_def open_sql_db_def)
qed

lemma demo_cli_simps: "cli_frac demo_cli = (\<lambda>_ _ _. 0)" "cli_unicode demo_cli = demo_unicode" "cli_flags demo_cli = demo_flags"
  by (simp_all add: demo_cli_def)

theorem cli_reconcile_synchronizes_witness:
  "\<exists>w'. run_cli demo_cli (\<lambda>_. []) ''info'' ''text'' (Reconcile_Command False False) (demo_world None [] False, demo_source_os)
      = ((w', demo_source_os), [], None) \<and> set (row_ids (rows_of (ref_view w'))) = {''1''}"
proof -
  obtain w' where run: "run_cli demo_cli (\<lambda>_. []) ''info'' ''text'' (Reconcile_Command False False) (demo_world None [] False, demo_source_os)
      = ((w', demo_source_os), [], None)" by (rule demo_cli_run)
  obtain cfg where cfg: "new_config (cli_frac demo_cli) (\<lambda>_. []) = Inr cfg"
    by (simp add: new_config_def config_lock_timeout_def)
  have opts: "build_options (cli_frac demo_cli) cfg (cli_flags demo_cli) False False = Inr [with_lock_timeout 90000000000]"
    by (simp add: build_options_def demo_cli_simps demo_flags_def demo_duration)
  have dir: "resolve_path cfg (cli_flags demo_cli) = Inr ''m''" by (simp add: resolve_path_def demo_cli_simps demo_flags_def)
  have pgx: "open_sql_db demo_cli (connect_config cfg (cli_flags demo_cli)) = Inr (ref_db (\<lambda>_. False) demo_ref)"
    by (simp add: demo_cli_def open_sql_db_def)
  have ready: "api_ready (cli_unicode demo_cli) (ref_tidy demo_ref) (dir_fs demo_source_os ''m'') (ref_view (demo_world None [] False))"
    using demo_ref_tidy
    by (simp add: demo_cli_simps api_ready_def demo_view demo_source_loads tidy_rows_def tidy_migrations_def unstranded_def)
  have "\<exists>files. get_migrations demo_unicode (dir_fs demo_source_os ''m'') = Inr files
      \<and> set (row_ids (rows_of (ref_view w'))) = set (ids files) \<and> healthy (rows_of (ref_view w'))"
    using cli_reconcile_synchronizes [OF ref_db_laws cfg opts demo_cli_options dir pgx _ _ ready run]
    by (simp add: demo_cli_def exit_status_def)
  then show ?thesis using run by (auto simp: demo_source_loads)
qed

end
