(* ===== verification/Program_Props.thy ===== *)
theory Program_Props
  imports Programs Command_Props
begin

text \<open>
  The properties of the example programs: what the deploy gate promises about the Reconcile that follows it,
  and what it does not see.
\<close>

section \<open>The gate\<close>

definition gate_config :: config where
  "gate_config = zero_config\<lparr>cf_table := \<lparr>tc_schema = [], tc_name = basic_table\<rparr>\<rparr>"

definition gate_ref :: table_ref where "gate_ref = [DQ] @ basic_table @ [DQ]"

lemma gate_defaults: "resolve_options [with_table_name basic_table] = Inr gate_config" "resolve (cf_table gate_config) = Inr gate_ref"
  by (simp_all add: resolve_options_def gate_config_def with_table_name_def Let_def zero_config_def)
    (simp add: gate_ref_def basic_table_def go_eval)

lemma deploy_gate_passes:
  assumes "sql_database D gate_ref view tx_view tx_session tidy" "pe_open E (pe_getenv E ''DATABASE_URL'') = Inr D"
    and "\<And>n w. view (pe_set_max E D n w) = view w" "\<And>w. rows_of (view (pe_close E D w)) = rows_of (view w)"
    and "deploy_gate E os w = (w1, out, None)"
  obtains files where "rows_of (view w1) = rows_of (view w)" "get_migrations (pe_unicode E) (dir_fs os basic_migrations) = Inr files"
    "to_rollback (reconcile_plan files (rows_of (view w))) = []" "plan_interleaved (reconcile_plan files (rows_of (view w))) = []"
proof -
  let ?F = "dir_fs os basic_migrations" and ?w = "pe_set_max E D 2 w"
  obtain w' x err where p: "Plan (pe_unicode E) Caller (Some D) (Some ?F) [with_table_name basic_table] ?w = (w', x, err)" by (metis prod.exhaust)
  note plan = plan_call [OF assms(1) gate_defaults p]
  have run: "w1 = pe_close E D w'" "err = None" "gate_verdict (the x) = None"
    using assms(2,5) p plan by (auto simp: deploy_gate_def opened_def Let_def split: if_splits option.splits)
  then obtain files where f: "get_migrations (pe_unicode E) ?F = Inr files"
    "x = Some (to_analysis (reconcile_plan files (rows_of (view w)))
       (blocked_by (reconcile_plan files (rows_of (view w))) files (run_options_of gate_config)))"
    using plan assms(3) by auto
  show thesis
    using that [of files] run plan assms(3,4) f
    by (auto simp: gate_verdict_def to_analysis_def migration_ids_def split: if_splits)
qed

lemma no_interleaved_sorts:
  assumes "plan_interleaved (reconcile_plan files rs) = []" "to_rollback (reconcile_plan files rs) = []" "m \<in> set (pending files rs)" "r \<in> set rs"
  shows "\<not> mig_id m < row_id r"
proof -
  have "row_id r \<in> set (kept_applied True files (db_of rs))"
    using reconcile_plan_extras [of files rs] assms(2,4) by (auto simp: kept_applied_def extras_def filter_empty_conv)
  then show ?thesis using assms(1,3) by (auto simp: reconcile_plan_def pending_def filter_empty_conv)
qed

text \<open>
  C40: the deploy gate. When it exits with 0 it has changed no row, and a Reconcile on the same rows that follows
  and succeeds is harmless: it removes no row, runs no down script, and runs the up scripts of the pending
  migrations, none of which sorts before a recorded one.
\<close>

theorem deploy_gate_predicts:
  assumes "sql_database D gate_ref view tx_view tx_session tidy" "pe_open E (pe_getenv E ''DATABASE_URL'') = Inr D"
    and "\<And>n w. view (pe_set_max E D n w) = view w" "\<And>w. rows_of (view (pe_close E D w)) = rows_of (view w)"
    and "deploy_gate E os w = (w1, out, None)"
    and "rows_of (view w2) = rows_of (view w1)" "api_ready (pe_unicode E) tidy (dir_fs os basic_migrations) (view w2)"
    and "Reconcile (pe_unicode E) c (Some D) (Some (dir_fs os basic_migrations)) [with_table_name basic_table] w2 = (w3, x, None)"
  shows "rows_of (view w1) = rows_of (view w)
    \<and> (\<exists>files new. get_migrations (pe_unicode E) (dir_fs os basic_migrations) = Inr files
        \<and> v_rows (view w3) = Some (rows_of (view w) @ new) \<and> list_all2 stores (pending files (rows_of (view w))) new
        \<and> v_ran (view w3) = v_ran (view w2)
            @ concat (map (\<lambda>m. script_steps (pe_unicode E) (mig_up_script m)) (pending files (rows_of (view w))))
        \<and> (\<forall>m \<in> set (pending files (rows_of (view w))). \<forall>r \<in> set (rows_of (view w)). \<not> mig_id m < row_id r))"
proof -
  let ?F = "dir_fs os basic_migrations"
  obtain files where g: "rows_of (view w1) = rows_of (view w)" "get_migrations (pe_unicode E) ?F = Inr files"
    "to_rollback (reconcile_plan files (rows_of (view w))) = []" "plan_interleaved (reconcile_plan files (rows_of (view w))) = []"
    by (rule deploy_gate_passes [where view = view, OF assms(1-5)])
  have rows: "rows_of (view w2) = rows_of (view w)" using assms(6) g(1) by simp
  obtain res where d: "reconcile_done (pe_unicode E) (get_migrations (pe_unicode E) ?F) (run_options_of gate_config) (view w2) (view w3) res"
    using reconcile_call [OF assms(1) gate_defaults assms(7,8)] by metis
  have extras: "extras files (rows_of (view w)) = []"
    using g(3) reconcile_plan_extras [of files "rows_of (view w)"] by simp
  then have "filter (\<lambda>r. row_id r \<in> set (ids files)) (rows_of (view w)) = rows_of (view w)"
    by (auto simp: extras_def filter_empty_conv intro!: filter_True)
  then obtain new where "v_rows (view w3) = Some (rows_of (view w) @ new)" "list_all2 stores (pending files (rows_of (view w))) new"
    "v_ran (view w3) = v_ran (view w2)
       @ concat (map (\<lambda>m. script_steps (pe_unicode E) (mig_up_script m)) (pending files (rows_of (view w))))"
    using g(2) extras by (rule_tac reconcile_rows [OF assms(1) d]) (auto simp: rows)
  then show ?thesis using g(1,2) no_interleaved_sorts [OF g(4,3)] by blast
qed

text \<open>A machine to run the gate on: one migration in the directory, and a server that answers.\<close>

definition gate_os :: os_state where
  "gate_os = \<lparr>os_files = [(''examples/basic/migrations/1.up.sql'', ''A''), (''examples/basic/migrations/1.down.sql'', ''B'')],
     os_dirs = [''examples/basic/migrations''], os_fault = (\<lambda>_. None), os_short = 0\<rparr>"

definition gate_program :: "ref_world program" where
  "gate_program = \<lparr>pe_unicode = demo_unicode, pe_getenv = (\<lambda>_. ''d''), pe_open = (\<lambda>_. Inr (ref_db (\<lambda>_. False) gate_ref)),
     pe_set_max = (\<lambda>_ _ w. w), pe_ping = (\<lambda>_ w. (w, None)), pe_close = (\<lambda>_ w. w), pe_time = (\<lambda>_. [])\<rparr>"

lemma gate_source_loads: "get_migrations demo_unicode (dir_fs gate_os basic_migrations) = Inr [demo_migration]"
proof -
  have p: "filepath_join basic_migrations ''1.up.sql'' = ''examples/basic/migrations/1.up.sql''"
    "filepath_join basic_migrations ''1.down.sql'' = ''examples/basic/migrations/1.down.sql''"
    "clean_path basic_migrations = ''examples/basic/migrations''"
    "base_name ''examples/basic/migrations/1.up.sql'' = ''1.up.sql''" "base_name ''examples/basic/migrations/1.down.sql'' = ''1.down.sql''"
    "base_name ''examples/basic/migrations'' = ''migrations''"
    "filepath_join basic_migrations ''migrations'' = ''examples/basic/migrations/migrations''"
    by (simp_all add: basic_migrations_def path_eval Let_def)
  have "fs_read_dir (dir_fs gate_os basic_migrations) ''.'' = Inr [\<lparr>entry_name = ''1.down.sql'', entry_is_dir = False\<rparr>,
      \<lparr>entry_name = ''1.up.sql'', entry_is_dir = False\<rparr>]"
    by (simp add: dir_fs_def os_read_dir_def entries_of_def gate_os_def p less_char_def)
  moreover have "fs_read_file (dir_fs gate_os basic_migrations) ''1.up.sql'' = Inr ''A''"
    "fs_read_file (dir_fs gate_os basic_migrations) ''1.down.sql'' = Inr ''B''"
    by (simp_all add: dir_fs_def gate_os_def p)
  ultimately show ?thesis
    by (simp add: go_eval demo_unicode_def demo_migration_def string_eval)
qed

lemma gate_service:
  "api_service demo_unicode (Some D) (Some F) [with_table_name basic_table] =
     Inr (new_service (get_migrations demo_unicode F) demo_unicode D gate_ref \<lparr>pg_lock_timeout = 5000000000, pg_lock_id = default_lock_id\<rparr>,
       gate_config, demo_lock)"
  using gate_defaults
  by (simp add: api_service_def new_custom_executor_def new_postgres_from_db_def postgres_config_of_def demo_lock_def)
    (simp add: gate_config_def zero_config_def default_lock_timeout_def)

lemmas gate_eval = deploy_gate_def opened_def Plan_def Reconcile_def gate_service gate_source_loads run_options_of_def
  gate_config_def zero_config_def gate_verdict_def to_analysis_def migration_ids_def

lemma gate_program_fields [simp]: "pe_unicode gate_program = demo_unicode" "pe_getenv gate_program k = ''d''"
  "pe_open gate_program d = Inr (ref_db (\<lambda>_. False) gate_ref)" "pe_set_max gate_program D n w = w" "pe_close gate_program D w = w"
  by (simp_all add: gate_program_def)

lemma gate_ready: "api_ready demo_unicode (ref_tidy gate_ref) (dir_fs gate_os basic_migrations) (ref_view (demo_world None [] False))"
  using demo_ref_tidy by (simp add: api_ready_def demo_view gate_source_loads tidy_rows_def tidy_migrations_def unstranded_def)

theorem deploy_gate_predicts_witness:
  "\<exists>w1 out w3 x. deploy_gate gate_program gate_os (demo_world None [] False) = (w1, out, None)
     \<and> Reconcile demo_unicode Caller (Some (ref_db (\<lambda>_. False) gate_ref)) (Some (dir_fs gate_os basic_migrations))
         [with_table_name basic_table] (demo_world None [] False) = (w3, x, None)
     \<and> v_ran (ref_view w3) = [''A'']"
proof -
  let ?w = "demo_world None [] False"
  obtain w1 out where gate: "deploy_gate gate_program gate_os ?w = (w1, out, None)"
    by (simp add: gate_eval run_eval demo_eval build_plan_eq cong: run_congs)
  obtain w3 x where run: "Reconcile demo_unicode Caller (Some (ref_db (\<lambda>_. False) gate_ref)) (Some (dir_fs gate_os basic_migrations))
      [with_table_name basic_table] ?w = (w3, x, None)"
    by (simp add: gate_eval run_eval demo_eval build_plan_eq cong: run_congs)
  have same: "rows_of (ref_view ?w) = rows_of (ref_view w1)"
    by (rule deploy_gate_passes [where view = ref_view, OF ref_db_laws _ _ _ gate]) (simp_all add: gate_program_def)
  have "v_ran (ref_view w3) = [''A'']"
    using deploy_gate_predicts [where view = ref_view, where E = gate_program, OF ref_db_laws _ _ _ gate same _ run [folded gate_program_fields(1)]] gate_ready
    by (auto simp: gate_source_loads demo_view demo_steps pending_def rows_of_def)
  with gate run show ?thesis by blast
qed

text \<open>
  what the gate does not see. Where the one migration of the directory is recorded as failed the gate says
  that the plan is safe, and the Reconcile it looked ahead to refuses with \<open>ErrFailedMigrations\<close>.
\<close>

theorem gate_overlooks_failed_rows:
  "(\<exists>w' out. gate_main gate_program gate_os (demo_world (Some [demo_row ''1'' (Some ''boom'')]) [] False) = (w', out, None))
   \<and> (\<exists>w' x e. Reconcile demo_unicode Caller (Some (ref_db (\<lambda>_. False) gate_ref)) (Some (dir_fs gate_os basic_migrations))
         [with_table_name basic_table] (demo_world (Some [demo_row ''1'' (Some ''boom'')]) [] False) = (w', x, Some e)
       \<and> error_is e ErrFailedMigrations)"
  by (rule conjI; simp add: gate_main_def gate_eval run_eval demo_eval build_plan_eq failed_migrations_def cong: run_congs)

end
