(* ===== verification/Histories.thy ===== *)
theory Histories
  imports Api_Props
begin

text \<open>
  Sequences of calls. A history is a list of calls of the public package, by one process or by several one after
  another, each with a context, options and files of its own; between two calls time may pass. Every call may
  fail at any point. The theory shows what holds along every history.
\<close>

section \<open>Calls and histories\<close>

datatype api_call =
    Reconcile_Call fsys "api_option list"
  | Up_Call fsys "api_option list"
  | Down_Call int "api_option list"
  | Down_All_Call "api_option list"
  | Plan_Call fsys "api_option list"
  | Forget_Call string "api_option list"
  | Baseline_Call fsys string "api_option list"
  | Status_Call "api_option list"

fun perform :: "unicode \<Rightarrow> ctx \<Rightarrow> 'w sql_db \<Rightarrow> api_call \<Rightarrow> 'w \<Rightarrow> 'w \<times> goerr option" where
  "perform U c D (Reconcile_Call F opts) w = (case Reconcile U c (Some D) (Some F) opts w of (w', _, err) \<Rightarrow> (w', err))"
| "perform U c D (Up_Call F opts) w = (case Up U c (Some D) (Some F) opts w of (w', _, err) \<Rightarrow> (w', err))"
| "perform U c D (Down_Call count opts) w = (case Down U c (Some D) count opts w of (w', _, err) \<Rightarrow> (w', err))"
| "perform U c D (Down_All_Call opts) w = (case DownAll U c (Some D) opts w of (w', _, err) \<Rightarrow> (w', err))"
| "perform U c D (Plan_Call F opts) w = (case Plan U c (Some D) (Some F) opts w of (w', _, err) \<Rightarrow> (w', err))"
| "perform U c D (Forget_Call i opts) w = Forget U c (Some D) i opts w"
| "perform U c D (Baseline_Call F i opts) w = (case Baseline U c (Some D) (Some F) i opts w of (w', _, err) \<Rightarrow> (w', err))"
| "perform U c D (Status_Call opts) w = (case Status U c (Some D) opts w of (w', _, err) \<Rightarrow> (w', err))"

fun call_options :: "api_call \<Rightarrow> api_option list" where
  "call_options (Reconcile_Call F opts) = opts"
| "call_options (Up_Call F opts) = opts"
| "call_options (Down_Call count opts) = opts"
| "call_options (Down_All_Call opts) = opts"
| "call_options (Plan_Call F opts) = opts"
| "call_options (Forget_Call i opts) = opts"
| "call_options (Baseline_Call F i opts) = opts"
| "call_options (Status_Call opts) = opts"

fun call_source :: "api_call \<Rightarrow> fsys" where
  "call_source (Reconcile_Call F opts) = F"
| "call_source (Up_Call F opts) = F"
| "call_source (Plan_Call F opts) = F"
| "call_source (Baseline_Call F i opts) = F"
| "call_source k = empty_fs"

definition call_files :: "unicode \<Rightarrow> api_call \<Rightarrow> migration list" where
  "call_files U k = (case get_migrations U (call_source k) of Inl _ \<Rightarrow> [] | Inr ms \<Rightarrow> ms)"

inductive history :: "unicode \<Rightarrow> 'w sql_db \<Rightarrow> ('w \<Rightarrow> db_view) \<Rightarrow> 'w \<Rightarrow> (ctx \<times> api_call) list \<Rightarrow> 'w \<Rightarrow> bool"
  for U D view w where
  history_none: "view w' = view w \<Longrightarrow> history U D view w [] w'"
| history_call: "history U D view w ks w1 \<Longrightarrow> perform U c D k w1 = (w2, err) \<Longrightarrow> view w3 = view w2
    \<Longrightarrow> history U D view w (ks @ [(c, k)]) w3"

inductive_cases history_NoneE: "history U D view w [] w'"

text \<open>The calls are about one table, and their scripts, in both directions, leave the bookkeeping alone.\<close>

definition proper_call :: "unicode \<Rightarrow> (string \<Rightarrow> bool) \<Rightarrow> table_ref \<Rightarrow> api_call \<Rightarrow> bool" where
  "proper_call U tidy ref k \<longleftrightarrow>
     (\<forall>cfg r. resolve_options (call_options k) = Inr cfg \<longrightarrow> resolve (cf_table cfg) = Inr r \<longrightarrow> r = ref)
     \<and> (\<forall>m \<in> set (call_files U k). tidy_script U tidy (mig_up_script m) \<and> tidy_script U tidy (mig_down_script m))"

section \<open>Where rows come from\<close>

text \<open>A row stores an ID and scripts that a row before stored, or that one of the migrations has.\<close>

definition comes_from :: "row list \<Rightarrow> migration set \<Rightarrow> row \<Rightarrow> bool" where
  "comes_from rs ms r' \<longleftrightarrow>
     (\<exists>r \<in> set rs. row_id r' = row_id r \<and> row_up r' = row_up r \<and> row_down r' = row_down r)
     \<or> (\<exists>m \<in> ms. row_id r' = mig_id m \<and> row_up r' = mig_up_script m \<and> row_down r' = mig_down_script m)"

definition derived :: "migration set \<Rightarrow> db_view \<Rightarrow> db_view \<Rightarrow> bool" where
  "derived ms v v' \<longleftrightarrow> (\<forall>r \<in> set (rows_of v'). comes_from (rows_of v) ms r)"

lemma derived_subset: "set (rows_of v') \<subseteq> set (rows_of v) \<Longrightarrow> derived ms v v'"
  by (auto simp: derived_def comes_from_def)

lemma derived_same: "rows_of v' = rows_of v \<Longrightarrow> derived ms v v'"
  by (rule derived_subset) simp

lemma derived_trans: "derived ms v v1 \<Longrightarrow> derived ms v1 v2 \<Longrightarrow> derived ms v v2"
  unfolding derived_def comes_from_def by metis

lemma derived_mono: "derived ms v v' \<Longrightarrow> ms \<subseteq> ns \<Longrightarrow> derived ns v v'"
  unfolding derived_def comes_from_def by blast

lemma derived_recorded: "recorded m err v v' \<Longrightarrow> m \<in> ms \<Longrightarrow> derived ms v v'"
  unfolding derived_def comes_from_def inserted_def by (elim exE conjE) (auto simp: rows_of_def intro!: bexI [of _ m])

lemma derived_marked: "derived ms v (marked i x v)"
  by (auto simp: derived_def comes_from_def rows_of_marked)

lemma derived_ran [simp]: "derived ms (ran ss v) v' = derived ms v v'" "derived ms v (ran ss v') = derived ms v v'"
  "derived ms (table_created v) v' = derived ms v v'" "derived ms v (table_created v') = derived ms v v'"
  by (simp_all add: derived_def)

lemma derived_deleted: "derived ms v (deleted i v)"
  by (rule derived_subset) auto

lemma derived_steps:
  "did_rollback U i v v' \<Longrightarrow> derived ms v v'"
  "did_apply U m v v' \<Longrightarrow> m \<in> ms \<Longrightarrow> derived ms v v'"
proof -
  show "did_rollback U i v v' \<Longrightarrow> derived ms v v'"
    by (auto simp: did_rollback_def intro: derived_subset)
  show "did_apply U m v v' \<Longrightarrow> m \<in> ms \<Longrightarrow> derived ms v v'"
    using derived_recorded unfolding did_apply_def by (metis derived_ran(1))
qed

lemma derived_rolled_back: "rolled_back U is v v' \<Longrightarrow> derived ms v v'"
  by (induction rule: rolled_back.induct) (auto intro: derived_same derived_trans derived_steps)

lemma derived_applied: "applied U as v v' \<Longrightarrow> set as \<subseteq> ms \<Longrightarrow> derived ms v v'"
  by (induction rule: applied.induct) (auto intro: derived_same derived_trans derived_steps)

lemma derived_baselined: "baselined bs v v' \<Longrightarrow> set bs \<subseteq> ms \<Longrightarrow> derived ms v v'"
  by (induction rule: baselined.induct) (auto intro: derived_same derived_trans derived_recorded)

lemma derived_failed:
  "apply_failed U m e v v' \<Longrightarrow> m \<in> ms \<Longrightarrow> derived ms v v'"
  "rollback_failed U i e v v' \<Longrightarrow> derived ms v v'"
proof -
  assume f: "apply_failed U m e v v'" and m: "m \<in> ms"
  have rec: "derived ms v v'" if "recorded m err (ran ss v) v'" for err ss
    using derived_recorded [OF that m] by simp
  from f show "derived ms v v'"
    unfolding apply_failed_def did_apply_def Let_def by (elim disjE conjE exE) (auto intro: rec derived_same)
next
  assume f: "rollback_failed U i e v v'"
  have "derived ms v (marked i x (ran ss v))" "derived ms v (deleted i (ran ss v))" for x ss
    using derived_marked [of ms "ran ss v"] derived_deleted [of ms "ran ss v"] by simp_all
  with f show "derived ms v v'"
    unfolding rollback_failed_def Let_def by (auto intro: derived_same derived_steps split: if_splits)
qed

lemma derived_plan_done: "plan_done U plan v v' \<Longrightarrow> set (to_apply plan) \<subseteq> ms \<Longrightarrow> derived ms v v'"
  unfolding plan_done_def using derived_rolled_back derived_applied derived_trans by metis

lemma derived_run_failed:
  assumes "run_failed U plan v v' r e" "set (to_apply plan) \<subseteq> ms"
  shows "derived ms v v'"
  using assms(1)
proof (cases rule: run_failed_cases)
  case unchanged
  then show ?thesis by (intro derived_same) auto
next
  case (partly cause vr va)
  have "derived ms va v'" using partly(5) assms(2) derived_failed unfolding step_failed_def by (metis in_set_conv_decomp subsetD)
  moreover have "set (res_applied r) \<subseteq> ms" using partly(5) assms(2) by (auto simp: step_failed_def)
  ultimately show ?thesis
    using derived_rolled_back [OF partly(3), of ms] derived_applied [OF partly(4)] derived_trans by (metis derived_ran(3))
qed

section \<open>What one call does\<close>

text \<open>
  A call leaves the sessions as they were and makes no row from nothing; and beside a failed row it runs no script,
  and leaves this row as it is unless it is the one to forget.
\<close>

definition effect :: "migration set \<Rightarrow> string option \<Rightarrow> db_view \<Rightarrow> db_view \<Rightarrow> bool" where
  "effect ms forgotten v v' \<longleftrightarrow>
     same_sessions v v' \<and> derived ms v v'
     \<and> (\<not> healthy (rows_of v) \<longrightarrow> v_ran v' = v_ran v
          \<and> (\<forall>r \<in> set (rows_of v). row_error r \<noteq> None \<longrightarrow> forgotten \<noteq> Some (row_id r) \<longrightarrow> r \<in> set (rows_of v')))"

lemma effect_same_view: "v' = v \<Longrightarrow> effect ms i v v'"
  by (auto simp: effect_def intro: derived_same)

lemma effect_run:
  assumes "same_sessions (view w) (view w')" "derived ms (view w) (view w')"
    "\<not> healthy (rows_of (view w)) \<Longrightarrow> refused view w ((w', l'), r, err)"
  shows "effect ms i (view w) (view w')"
  using assms by (auto simp: effect_def refused_def)

abbreviation files_of :: "unicode \<Rightarrow> fsys \<Rightarrow> migration set" where
  "files_of U F \<equiv> {m. \<exists>ms. get_migrations U F = Inr ms \<and> m \<in> set ms}"

lemma derived_planned:
  assumes "case err of
      None \<Rightarrow> \<exists>files. get_migrations U F = Inr files \<and> plan_done U (P files) (table_created v) v'
    | Some e \<Rightarrow> unchanged v v' r \<or> (\<exists>files. get_migrations U F = Inr files \<and> run_failed U (P files) v v' r e)"
    and "\<And>files. set (to_apply (P files)) \<subseteq> set files"
  shows "derived (files_of U F) v v'"
proof (cases err)
  case None
  with assms(1) obtain files where f: "get_migrations U F = Inr files" "plan_done U (P files) (table_created v) v'" by auto
  have "derived (files_of U F) (table_created v) v'"
    by (rule derived_plan_done [OF f(2)]) (use assms(2) [of files] f(1) in auto)
  then show ?thesis by simp
next
  case (Some e)
  with assms(1) consider "unchanged v v' r" | files where "get_migrations U F = Inr files" "run_failed U (P files) v v' r e" by auto
  then show ?thesis
  proof cases
    case 2
    then show ?thesis by (intro derived_run_failed [OF 2(2)]) (use assms(2) [of files] in auto)
  qed (auto dest: unchanged_rows intro: derived_same)
qed

lemma up_effect:
  assumes "sql_database D ref view tx_view tx_session tidy" "ready U tidy F (view w) l"
    "up (fs_service U F D ref p) c (w, l) = ((w', l'), r, err)"
  shows "effect (files_of U F) i (view w) (view w')"
proof (rule effect_run [where view = view and w = w and w' = w' and l' = l' and r = r and err = err])
  show "derived (files_of U F) (view w) (view w')"
    by (rule derived_planned [where P = "\<lambda>files. up_plan files (rows_of (view w))" and err = err and r = r])
      (use up_outcome [OF assms] in \<open>auto simp: up_done_def up_failed_def up_plan_def split: option.splits\<close>)
  show "refused view w ((w', l'), r, err)" if "\<not> healthy (rows_of (view w))"
    using up_refused [OF assms(1,2) that, of p c] assms(3) by simp
qed (use up_outcome [OF assms] in simp)

lemma reconcile_effect:
  assumes "sql_database D ref view tx_view tx_session tidy" "ready U tidy F (view w) l"
    "reconcile (fs_service U F D ref p) c opts (w, l) = ((w', l'), r, err)"
  shows "effect (files_of U F) i (view w) (view w')"
proof (rule effect_run [where view = view and w = w and w' = w' and l' = l' and r = r and err = err])
  show "derived (files_of U F) (view w) (view w')"
    by (rule derived_planned [where P = "\<lambda>files. reconcile_plan files (rows_of (view w))" and err = err and r = r])
      (use reconcile_outcome [OF assms] in \<open>auto simp: reconcile_done_def reconcile_failed_def reconcile_plan_def split: option.splits\<close>)
  show "refused view w ((w', l'), r, err)" if "\<not> healthy (rows_of (view w))"
    using reconcile_refused [OF assms(1,2), of opts p c] that assms(3) by simp
qed (use reconcile_outcome [OF assms] in simp)

lemma rollback_effect:
  assumes "sql_database D ref view tx_view tx_session tidy" "ready U tidy F (view w) l"
    "rollback (fs_service U F D ref p) c count (w, l) = ((w', l'), r, err)"
  shows "effect ms i (view w) (view w')"
proof (rule effect_run [where view = view and w = w and w' = w' and l' = l' and r = r and err = err])
  note out = rollback_outcome [OF assms]
  show "derived ms (view w) (view w')"
  proof (cases err)
    case None
    with out have "plan_done U (rollback_plan count (rows_of (view w))) (table_created (view w)) (view w')"
      by (simp add: rollback_done_def)
    then show ?thesis using derived_plan_done by (fastforce simp: rollback_plan_def)
  next
    case (Some e)
    with out have "run_failed U (rollback_plan count (rows_of (view w))) (view w) (view w') r e" by simp
    then show ?thesis by (rule derived_run_failed) (simp add: rollback_plan_def)
  qed
  show "refused view w ((w', l'), r, err)" if "\<not> healthy (rows_of (view w))"
    using rollback_refused [OF assms(1,2), of count p c] that assms(3) by simp
qed (use rollback_outcome [OF assms] in simp)

lemma baseline_effect:
  assumes "sql_database D ref view tx_view tx_session tidy" "ready U tidy F (view w) l"
    "baseline (fs_service U F D ref p) c j (w, l) = ((w', l'), r, err)"
  shows "effect (files_of U F) i (view w) (view w')"
proof -
  let ?ms = "files_of U F"
  have same: "same_sessions (view w) (view w')"
    and out: "view w' \<in> {view w, table_created (view w)} \<or> (\<exists>ms. baseline_written (get_migrations U F) j (view w) (view w') ms)"
    using sql_database.serve_baseline [OF assms(1) _ _ assms(3)] assms(2) by (auto simp: ready_def split: option.splits)
  from out show ?thesis
  proof
    assume "view w' \<in> {view w, table_created (view w)}"
    then have "rows_of (view w') = rows_of (view w)" "v_ran (view w') = v_ran (view w)" by auto
    then show ?thesis using same by (auto simp: effect_def intro: derived_same)
  next
    assume "\<exists>ms. baseline_written (get_migrations U F) j (view w) (view w') ms"
    then obtain files ms where b: "rows_of (view w) = []" "get_migrations U F = Inr files" "migrations_through files j = Inr ms"
      "baselined ms (table_created (view w)) (view w')" unfolding baseline_written_def by blast
    have "set ms \<subseteq> ?ms" using migrations_through_Inr [OF b(3)] b(2) by (auto dest: set_mono_prefix)
    then have "derived ?ms (view w) (view w')" using derived_baselined [OF b(4)] by simp
    then show ?thesis using same b(1) by (simp add: effect_def healthy_def)
  qed
qed

lemma forget_effect:
  assumes "sql_database D ref view tx_view tx_session tidy" "ready U tidy F (view w) l"
    "forget (fs_service U F D ref p) c i (w, l) = ((w', l'), err)"
  shows "effect ms (Some i) (view w) (view w')"
proof -
  have "same_sessions (view w) (view w')" "view w' \<in> {view w, deleted i (view w)}"
    using sql_database.serve_forget [OF assms(1) _ _ assms(3)] assms(2) by (auto simp: ready_def split: option.splits)
  then show ?thesis by (auto simp: effect_def intro: derived_same derived_deleted)
qed

section \<open>Calls of the package\<close>

text \<open>A call whose arguments are refused does nothing; an accepted one runs the service on the table \<open>ref\<close>.\<close>

lemma api_service_cases:
  assumes "proper_call U tidy ref k" "opts = call_options k"
  obtains (refused_call) e where "\<And>F. api_service U (Some D) (Some F) opts = Inl e"
    | (accepted) cfg where "resolve_options opts = Inr cfg" "resolve (cf_table cfg) = Inr ref"
proof (cases "resolve_options opts")
  case (Inl e)
  then show thesis by (intro refused_call [of e]) (simp add: api_service_def)
next
  case (Inr cfg)
  show thesis
  proof (cases "resolve (cf_table cfg)")
    case (Inl e)
    then show thesis using Inr by (intro refused_call [of e]) (simp add: api_service_def new_custom_executor_def)
  next
    case (Inr r)
    then have "r = ref" using assms \<open>resolve_options opts = Inr cfg\<close> by (simp add: proper_call_def)
    then show thesis using accepted Inr \<open>resolve_options opts = Inr cfg\<close> by simp
  qed
qed

lemma files_of_empty: "files_of U empty_fs = {}"
  using empty_fs_source(2) [of U] by auto

lemma call_files_of: "set (call_files U k) = files_of U (call_source k)"
  by (cases "get_migrations U (call_source k)") (simp_all add: call_files_def)

lemma no_files: "(case get_migrations U empty_fs of Inl e \<Rightarrow> [] | Inr ms \<Rightarrow> ms) = []"
  using empty_fs_source(2) [of U] by (cases "get_migrations U empty_fs") simp_all

fun forgotten :: "api_call \<Rightarrow> string option" where
  "forgotten (Forget_Call i opts) = Some i"
| "forgotten k = None"

lemmas entry_points = Reconcile_def Up_def Down_def DownAll_def api_rollback_def Forget_def Baseline_def

lemma perform_effect:
  assumes "sql_database D ref view tx_view tx_session tidy" "proper_call U tidy ref k" "unstranded (view w)" "tidy_rows U tidy (view w)"
    "perform U c D k w = (w', err)"
  shows "effect (set (call_files U k)) (forgotten k) (view w) (view w')"
  using assms(2) refl
proof (cases rule: api_service_cases [where k = k and opts = "call_options k" and D = D])
  case (refused_call e)
  then have "w' = w"
    using assms(5) by (cases k) (auto simp: entry_points Plan_def Status_def split: if_splits)
  then show ?thesis by (simp add: effect_same_view)
next
  case (accepted cfg)
  let ?F = "call_source k"
  obtain p l where s: "api_service U (Some D) (Some ?F) (call_options k) = Inr (fs_service U ?F D ref p, cfg, l)" "held_conn l = None"
    by (rule api_service_Inr [OF accepted])
  have "api_ready U tidy ?F (view w)"
    using assms(2-4) by (auto simp: api_ready_def proper_call_def call_files_def tidy_migrations_def)
  then have ready: "ready U tidy ?F (view w) l" by (rule api_ready_service [OF _ s(2)])
  show ?thesis
  proof (cases k)
    case (Reconcile_Call F opts)
    then obtain l' r where "reconcile (fs_service U F D ref p) c (run_options_of cfg) (w, l) = ((w', l'), r, err)"
      using s(1) assms(5) by (auto simp: Reconcile_def split: prod.splits)
    from reconcile_effect [OF assms(1) _ this] ready Reconcile_Call show ?thesis unfolding call_files_of by simp
  next
    case (Up_Call F opts)
    then obtain l' r where "up (fs_service U F D ref p) c (w, l) = ((w', l'), r, err)"
      using s(1) assms(5) by (auto simp: Up_def split: prod.splits)
    from up_effect [OF assms(1) _ this] ready Up_Call show ?thesis unfolding call_files_of by simp
  next
    case (Down_Call count opts)
    show ?thesis
    proof (cases "count \<le> 0")
      case False
      then obtain l' r where "rollback (fs_service U empty_fs D ref p) c count (w, l) = ((w', l'), r, err)"
        using s(1) assms(5) Down_Call by (auto simp: Down_def api_rollback_def split: prod.splits)
      from rollback_effect [OF assms(1) _ this] ready Down_Call show ?thesis by simp
    qed (use assms(5) Down_Call in \<open>simp add: Down_def effect_same_view\<close>)
  next
    case (Down_All_Call opts)
    then obtain l' r where "rollback (fs_service U empty_fs D ref p) c all_migrations (w, l) = ((w', l'), r, err)"
      using s(1) assms(5) by (auto simp: DownAll_def api_rollback_def split: prod.splits)
    from rollback_effect [OF assms(1) _ this] ready Down_All_Call show ?thesis by simp
  next
    case (Plan_Call F opts)
    then have "view w' = view w"
      using assms(5) accepted plan_call [OF assms(1) accepted, of U c F w] by (auto split: prod.splits)
    then show ?thesis by (rule effect_same_view)
  next
    case (Forget_Call i opts)
    then obtain l' where "forget (fs_service U empty_fs D ref p) c i (w, l) = ((w', l'), err)"
      using s(1) assms(5) by (auto simp: Forget_def split: prod.splits)
    from forget_effect [OF assms(1) _ this] ready Forget_Call show ?thesis by simp
  next
    case (Baseline_Call F i opts)
    show ?thesis
    proof (cases "i = []")
      case False
      then obtain l' r where "baseline (fs_service U F D ref p) c i (w, l) = ((w', l'), r, err)"
        using s(1) assms(5) Baseline_Call by (auto simp: Baseline_def split: prod.splits)
      from baseline_effect [OF assms(1) _ this] ready Baseline_Call show ?thesis unfolding call_files_of by simp
    qed (use assms(5) Baseline_Call in \<open>simp add: Baseline_def effect_same_view\<close>)
  next
    case (Status_Call opts)
    then have "view w' = view w"
      using assms(5) accepted status_shows_ledger [OF assms(1) accepted, of U c w] by (auto split: prod.splits)
    then show ?thesis by (rule effect_same_view)
  qed
qed

section \<open>What holds along every history\<close>

definition history_files :: "unicode \<Rightarrow> (ctx \<times> api_call) list \<Rightarrow> migration set" where
  "history_files U ks = (\<Union>(c, k) \<in> set ks. set (call_files U k))"

definition proper_history :: "unicode \<Rightarrow> (string \<Rightarrow> bool) \<Rightarrow> table_ref \<Rightarrow> (ctx \<times> api_call) list \<Rightarrow> bool" where
  "proper_history U tidy ref ks \<longleftrightarrow> (\<forall>(c, k) \<in> set ks. proper_call U tidy ref k)"

lemma proper_history_snoc [simp]:
  "proper_history U tidy ref (ks @ [(c, k)]) \<longleftrightarrow> proper_history U tidy ref ks \<and> proper_call U tidy ref k"
  by (auto simp: proper_history_def)

lemma history_files_simps [simp]:
  "history_files U [] = {}" "history_files U (ks @ [(c, k)]) = history_files U ks \<union> set (call_files U k)"
  by (auto simp: history_files_def)

lemma derived_tidy:
  assumes "derived ms v v'" "tidy_rows U tidy v" "\<forall>m \<in> ms. tidy_script U tidy (mig_down_script m)"
  shows "tidy_rows U tidy v'"
proof -
  have "tidy_script U tidy (row_down r)" if "r \<in> set (rows_of v)" for r
    using assms(2) that by (cases "v_rows v") (auto simp: tidy_rows_def rows_of_def)
  then have "\<forall>r \<in> set (rows_of v'). tidy_script U tidy (row_down r)"
    using assms(1,3) unfolding derived_def comes_from_def by metis
  then show ?thesis by (simp add: tidy_rows_def rows_of_def)
qed

lemma history_sound:
  assumes "sql_database D ref view tx_view tx_session tidy" "history U D view w ks w'" "proper_history U tidy ref ks"
    "unstranded (view w)" "tidy_rows U tidy (view w)"
  shows "same_sessions (view w) (view w') \<and> tidy_rows U tidy (view w') \<and> derived (history_files U ks) (view w) (view w')"
  using assms(2,3)
proof (induction rule: history.induct)
  case (history_none w')
  then show ?case using assms(5) by (simp add: derived_same)
next
  case (history_call ks w1 c k w2 err w3)
  then have ih: "same_sessions (view w) (view w1)" "tidy_rows U tidy (view w1)" "derived (history_files U ks) (view w) (view w1)"
    and k: "proper_call U tidy ref k" by simp_all
  have "effect (set (call_files U k)) (forgotten k) (view w1) (view w3)"
    using perform_effect [OF assms(1) k _ ih(2) history_call(2)] assms(4) same_sessions_unstranded [OF ih(1)] history_call(3) by simp
  then have e: "same_sessions (view w1) (view w3)" "derived (set (call_files U k)) (view w1) (view w3)"
    by (simp_all add: effect_def)
  have "\<forall>m \<in> set (call_files U k). tidy_script U tidy (mig_down_script m)" using k by (simp add: proper_call_def)
  from same_sessions_trans [OF ih(1) e(1)] derived_tidy [OF e(2) ih(2) this]
    derived_trans [OF derived_mono [OF ih(3)] derived_mono [OF e(2)]]
  show ?case by simp
qed

text \<open>
  C13: every history is sound. However its calls end, no session is left behind and none is taken away, no two rows
  share an ID, every row stores an ID and scripts that were stored at the start or loaded by one of the calls,
  and the database is again one that every further call may start from.
\<close>

theorem history_is_sound:
  assumes "sql_database D ref view tx_view tx_session tidy" "history U D view w ks w'" "proper_history U tidy ref ks"
    and "unstranded (view w)" "tidy_rows U tidy (view w)"
  shows "same_sessions (view w) (view w') \<and> distinct (row_ids (rows_of (view w')))
    \<and> (\<forall>r \<in> set (rows_of (view w')). comes_from (rows_of (view w)) (history_files U ks) r)
    \<and> (\<forall>k. proper_call U tidy ref k \<longrightarrow> api_ready U tidy (call_source k) (view w'))"
  using history_sound [OF assms] keyed_rows [OF assms(1), of w'] assms(4) same_sessions_unstranded [of "view w" "view w'"]
  by (auto simp: derived_def api_ready_def proper_call_def call_files_def tidy_migrations_def)

lemma history_exists:
  obtains w' where "history U D view w ks w'"
proof (induction ks arbitrary: thesis rule: rev_induct)
  case Nil
  show ?case by (rule Nil) (rule history_none [OF refl])
next
  case (snoc k ks)
  obtain w1 where w1: "history U D view w ks w1" by (rule snoc.IH)
  obtain w2 err where "perform U (fst k) D (snd k) w1 = (w2, err)" by force
  from snoc.prems [of w2] history_call [OF w1 this refl] show ?case by simp
qed

lemma demo_proper:
  "proper_call demo_unicode (ref_tidy demo_ref) demo_ref (Up_Call demo_files [])"
  "proper_call demo_unicode (ref_tidy demo_ref) demo_ref (Reconcile_Call demo_files [with_rollback])"
  "proper_call demo_unicode (ref_tidy demo_ref) demo_ref (Down_All_Call [])"
  using demo_ref_tidy demo_defaults
  by (simp_all add: proper_call_def call_files_def demo_source no_files resolve_options_def with_rollback_def zero_config_def Let_def)

lemma demo_state: "unstranded (ref_view (demo_world (Some [demo_row ''0'' e]) fs b))"
  "tidy_rows demo_unicode (ref_tidy demo_ref) (ref_view (demo_world (Some [demo_row ''0'' e]) fs b))"
  using demo_api_ready(1) [of demo_ref e fs b] by (simp_all add: api_ready_def)

abbreviation demo_calls :: "(ctx \<times> api_call) list" where
  "demo_calls \<equiv> [(Caller, Up_Call demo_files []), (Caller, Reconcile_Call demo_files [with_rollback]), (Caller, Down_All_Call [])]"

theorem history_is_sound_witness:
  "\<exists>w'. history demo_unicode (ref_db (\<lambda>_. True) demo_ref) ref_view
       (demo_world (Some [demo_row ''0'' None]) [Some (Refused ''no'')] False) demo_calls w'
     \<and> (\<forall>r \<in> set (rows_of (ref_view w')). row_id r \<in> {''0'', ''1''})"
proof -
  let ?w = "demo_world (Some [demo_row ''0'' None]) [Some (Refused ''no'')] False"
  obtain w' where h: "history demo_unicode (ref_db (\<lambda>_. True) demo_ref) ref_view ?w demo_calls w'" by (rule history_exists)
  have "proper_history demo_unicode (ref_tidy demo_ref) demo_ref demo_calls"
    using demo_proper by (simp add: proper_history_def)
  from history_is_sound [OF ref_db_laws h this demo_state]
  have "\<forall>r \<in> set (rows_of (ref_view w')). comes_from [demo_row ''0'' None] (history_files demo_unicode demo_calls) r"
    by (simp add: demo_rows)
  moreover have "history_files demo_unicode demo_calls = {demo_migration}"
    by (simp add: history_files_def call_files_of) (simp add: demo_source files_of_empty)
  ultimately show ?thesis using h by (auto simp: comes_from_def)
qed

text \<open>
  C7: a failed row waits for \<open>Forget\<close>. As long as no call forgets it, a row that carries an error stays as it is
  whatever is called and however it ends, and not one script, up or down, runs.
\<close>

theorem failed_row_needs_forget:
  assumes "sql_database D ref view tx_view tx_session tidy" "history U D view w ks w'" "proper_history U tidy ref ks"
    and "unstranded (view w)" "tidy_rows U tidy (view w)"
    and "r \<in> set (rows_of (view w))" "row_error r \<noteq> None" "\<forall>(c, k) \<in> set ks. forgotten k \<noteq> Some (row_id r)"
  shows "r \<in> set (rows_of (view w')) \<and> v_ran (view w') = v_ran (view w)"
  using assms(2,3,8)
proof (induction rule: history.induct)
  case (history_none w')
  then show ?case using assms(6) by simp
next
  case (history_call ks w1 c k w2 err w3)
  then have ih: "r \<in> set (rows_of (view w1))" "v_ran (view w1) = v_ran (view w)" and k: "proper_call U tidy ref k"
    and s: "same_sessions (view w) (view w1)" "tidy_rows U tidy (view w1)"
    using history_sound [OF assms(1) history_call(1) _ assms(4,5)] by auto
  have "effect (set (call_files U k)) (forgotten k) (view w1) (view w3)"
    using perform_effect [OF assms(1) k _ s(2) history_call(2)] assms(4) same_sessions_unstranded [OF s(1)] history_call(3) by simp
  moreover have "\<not> healthy (rows_of (view w1))" using ih(1) assms(7) by (auto simp: healthy_def)
  ultimately show ?case using ih assms(7) history_call(6) by (auto simp: effect_def)
qed

theorem failed_row_needs_forget_witness:
  "\<exists>w'. history demo_unicode (ref_db (\<lambda>_. True) demo_ref) ref_view
       (demo_world (Some [demo_row ''0'' (Some ''boom'')]) [Some (Refused ''no'')] False) demo_calls w'
     \<and> demo_row ''0'' (Some ''boom'') \<in> set (rows_of (ref_view w')) \<and> v_ran (ref_view w') = []"
proof -
  let ?w = "demo_world (Some [demo_row ''0'' (Some ''boom'')]) [Some (Refused ''no'')] False"
  obtain w' where h: "history demo_unicode (ref_db (\<lambda>_. True) demo_ref) ref_view ?w demo_calls w'" by (rule history_exists)
  have "proper_history demo_unicode (ref_tidy demo_ref) demo_ref demo_calls"
    using demo_proper by (simp add: proper_history_def)
  from failed_row_needs_forget [OF ref_db_laws h this demo_state, of "demo_row ''0'' (Some ''boom'')"] h
  show ?thesis by (auto simp: demo_rows)
qed

section \<open>Adopting a database\<close>

lemma baseline_call:
  assumes "sql_database D ref view tx_view tx_session tidy" "resolve_options opts = Inr cfg" "resolve (cf_table cfg) = Inr ref"
    "api_ready U tidy F (view w)" "Baseline U c (Some D) (Some F) i opts w = (w', x, None)"
  obtains files through where "get_migrations U F = Inr files" "migrations_through files i = Inr through" "rows_of (view w) = []"
    "baselined through (table_created (view w)) (view w')" "map_option ar_applied x = Some (ids through)"
    "same_sessions (view w) (view w')"
proof -
  obtain p l where s: "api_service U (Some D) (Some F) opts = Inr (fs_service U F D ref p, cfg, l)" "held_conn l = None"
    by (rule api_service_Inr [OF assms(2,3)])
  obtain l' r where run: "baseline (fs_service U F D ref p) c i (w, l) = ((w', l'), r, None)" "x = Some (to_result r)"
    using assms(5) s(1) by (auto simp: Baseline_def split: prod.splits if_splits)
  have "same_sessions (view w) (view w')" "baseline_written (get_migrations U F) i (view w) (view w') (res_applied r)"
    using sql_database.serve_baseline [OF assms(1) s(2) _ run(1)] assms(4) by (simp_all add: api_ready_def)
  then show thesis using that run(2) unfolding baseline_written_def by (auto simp: to_result_def migration_ids_def)
qed

text \<open>
  C22: adopting an existing schema. Where a Baseline through an ID and then an Up of the same files succeed, the
  Baseline has run nothing and recorded the files up to this ID, the Up has run exactly the up scripts of the
  files after it, in order, and the table holds all files in their order.
\<close>

theorem baseline_then_up:
  assumes "sql_database D ref view tx_view tx_session tidy" "resolve_options opts = Inr cfg" "resolve (cf_table cfg) = Inr ref"
    and "api_ready U tidy F (view w)" "get_migrations U F = Inr files" "\<forall>m \<in> set files. tidy_script U tidy (mig_down_script m)"
    and "Baseline U c (Some D) (Some F) i opts w = (w1, x1, None)" "Up U c' (Some D) (Some F) opts w1 = (w2, x2, None)"
  shows "\<exists>through rest. files = through @ rest \<and> through \<noteq> [] \<and> mig_id (last through) = i
    \<and> map_option ar_applied x1 = Some (ids through) \<and> map_option ar_applied x2 = Some (ids rest)
    \<and> v_ran (view w2) = v_ran (view w) @ concat (map (\<lambda>m. script_steps U (mig_up_script m)) rest)
    \<and> row_ids (rows_of (view w2)) = ids files \<and> healthy (rows_of (view w2))"
proof -
  obtain through where b: "migrations_through files i = Inr through" "rows_of (view w) = []"
    "baselined through (table_created (view w)) (view w1)" "map_option ar_applied x1 = Some (ids through)" "same_sessions (view w) (view w1)"
    using baseline_call [OF assms(1-4,7)] assms(5) by (metis Inr_inject)
  from migrations_through_Inr [OF b(1)] obtain rest where t: "files = through @ rest" "through \<noteq> []" "mig_id (last through) = i"
    by (auto simp: prefix_def)
  from baselined_rows [OF b(3) rows_created] b(2) obtain old where
    old: "v_rows (view w1) = Some old" "list_all2 stores through old" "v_ran (view w1) = v_ran (view w)" by auto
  have "derived (set files) (view w) (view w1)" using derived_baselined [OF b(3), of "set files"] t(1) by simp
  then have "tidy_rows U tidy (view w1)" using derived_tidy assms(4,6) by (auto simp: api_ready_def)
  then have ready: "api_ready U tidy F (view w1)"
    using assms(4) same_sessions_unstranded [OF b(5)] by (simp add: api_ready_def)
  obtain r where x2: "x2 = Some (to_result r)" and up: "up_done U (get_migrations U F) (view w1) (view w2) r"
    by (rule up_call [OF assms(1-3) ready assms(8)])
  have "distinct (ids files)" using get_migrations_well_formed [OF assms(5)] by (simp add: well_formed_source_def)
  then have d: "set (ids through) \<inter> set (ids rest) = {}" using t(1) by simp
  have "pending files (rows_of (view w1)) = rest"
  proof -
    have "filter (\<lambda>m. mig_id m \<notin> set (ids through)) through = []" by (simp add: filter_empty_conv)
    moreover have "filter (\<lambda>m. mig_id m \<notin> set (ids through)) rest = rest" using d by (auto simp: filter_id_conv)
    ultimately show ?thesis using stores_ids [OF old(2)] by (simp add: pending_def rows_of_Some [OF old(1)] t(1))
  qed
  then have plan: "up_plan files (rows_of (view w1)) = \<lparr>to_rollback = [], to_apply = rest, plan_interleaved = []\<rparr>"
    by (simp add: up_plan_def pending_def)
  then have ok: "plan_done U (up_plan files (rows_of (view w1))) (table_created (view w1)) (view w2)" and a: "res_applied r = rest"
    using up assms(5) by (auto simp: up_done_def)
  obtain new where new: "v_rows (view w2) = Some (old @ new)" "list_all2 stores rest new"
    "v_ran (view w2) = v_ran (view w1) @ concat (map (\<lambda>m. script_steps U (mig_up_script m)) rest)"
    by (rule plan_done_rows [OF ok [unfolded plan] keyed_rows [OF assms(1)]]) (auto simp: rows_of_Some [OF old(1)])
  have "healthy (old @ new)" using stores_healthy [OF old(2)] stores_healthy [OF new(2)] by (auto simp: healthy_def)
  moreover have "row_ids (rows_of (view w2)) = ids files"
    using stores_ids [OF old(2)] stores_ids [OF new(2)] t(1) by (simp add: rows_of_Some [OF new(1)])
  ultimately show ?thesis
    using t b(4) x2 a old(3) new(3) by (auto simp: to_result_def migration_ids_def rows_of_Some [OF new(1)])
qed

theorem baseline_then_up_witness:
  "\<exists>w1 x1 w2 x2. Baseline demo_unicode Caller (Some (ref_db (\<lambda>_. False) demo_ref)) (Some demo_files) ''1'' [] (demo_world None [] False)
       = (w1, x1, None)
     \<and> Up demo_unicode Caller (Some (ref_db (\<lambda>_. False) demo_ref)) (Some demo_files) [] w1 = (w2, x2, None)
     \<and> row_ids (rows_of (ref_view w2)) = [''1''] \<and> v_ran (ref_view w2) = []"
proof -
  obtain w1 x1 w2 x2 where run:
    "Baseline demo_unicode Caller (Some (ref_db (\<lambda>_. False) demo_ref)) (Some demo_files) ''1'' [] (demo_world None [] False) = (w1, x1, None)"
    "Up demo_unicode Caller (Some (ref_db (\<lambda>_. False) demo_ref)) (Some demo_files) [] w1 = (w2, x2, None)"
    by (simp add: Baseline_def api_eval run_eval demo_eval build_plan_eq cong: run_congs)
  have "\<forall>m \<in> set [demo_migration]. tidy_script demo_unicode (ref_tidy demo_ref) (mig_down_script m)" by (simp add: demo_ref_tidy)
  from baseline_then_up [OF ref_db_laws demo_defaults demo_api_ready(2) demo_source this run]
  have end_state: "row_ids (rows_of (ref_view w2)) = [''1'']" "v_ran (ref_view w2) = []"
    by (auto simp: demo_view Cons_eq_append_conv)
  show ?thesis by (intro exI conjI) (rule run end_state)+
qed

end
