(* ===== verification/Spec2Isabelle.thy ===== *)
theory Spec2Isabelle
  imports Script_Props Ledger_Props Lock_Props Executor_Props New_Props Program_Props Histories
begin

text \<open>
  Verification of pg-migrate, a Postgres migration tool written in Go. The paths below are relative to the root of
  the repository.

  The program. A migration is a pair of SQL files, \<open><id>.up.sql\<close> and \<open><id>.down.sql\<close>, in one directory. The tool keeps
  one row per applied migration, with both scripts, in a bookkeeping table of the database it migrates, and brings
  table and files together. \<open>internal/source\<close> loads and validates the files; \<open>internal/migrator\<close> holds the directive
  lines at the head of a script, the statement splitter for scripts that run outside a transaction, the planner (a
  set difference of files and rows), the executor, which runs scripts and keeps the rows, and the service, which
  takes the advisory lock of \<open>internal/db\<close>, plans, refuses what is unsafe and executes. \<open>migrate.go\<close> is the public
  package: options and one function per operation. \<open>cmd/pg-migrate\<close> is the command line over it, with two commands
  of its own, \<open>new\<close> (scaffold a pair) and \<open>validate\<close> (load a directory without a database).

  Values. A Go string is its bytes, an Isabelle \<open>string\<close>; a loop over its runes goes over \<open>runes\<close>. Errors are
  the datatype \<open>goerr\<close>, with the sentinels as constructors, so that \<open>errors.Is\<close> and the error text are functions. A
  Go \<open>int\<close> that only counts is an \<open>int\<close> or \<open>nat\<close>; a \<open>time.Duration\<close> is its nanoseconds, and where 64 bits matter (the
  sums of \<open>time.ParseDuration\<close>) the remainder is written out. A Go map is a partial map or, where it is iterated, an
  association list. An operation with effects is a function of the state to the state after it and an error or a
  value (\<open>Go_IO\<close>), with \<open>go_try\<close>, \<open>go_bind\<close> and \<open>go_defer\<close> for the three ways Go code continues; \<open>wp\<close> is its weakest
  precondition, for values and for errors.

  Parameters. Code that is not in the repository is an argument of the definitions that use it. \<open>database/sql\<close>, the
  driver and the server are the record \<open>sql_db\<close>; the locale \<open>sql_database\<close> (theory \<open>Sql_Database\<close>) states what is
  documented of them, statement by statement, on a view of the server: rows, scripts that took effect, sessions in use
  and the advisory locks, each as its session and its key. A statement outside a transaction that fails may have been executed all the same, and so may a commit;
  scripts are \<open>tidy\<close>: they leave the bookkeeping, the lock and their transaction alone. \<open>Reference_Database\<close> builds a
  server that keeps the laws, interprets the locale on it, and can refuse or lose any answer; the witnesses run
  on it. Further parameters are the tables of package \<open>unicode\<close> beyond ASCII, of which \<open>lower_table\<close> states that no
  rune there is lower-cased to an ASCII capital or digit; the float64 product in \<open>time.ParseDuration\<close>; pgx's reading
  of a connection string; the JSON encoder; the rendering of times; and the faults of the operating system (\<open>os_fault\<close> says which
  call fails, \<open>os_short\<close> how much a failed write has written).

  The theories, with the code they translate.
  \<^item> \<open>Prelude\<close>, \<open>Go_Strings\<close>, \<open>Go_Errors\<close>, \<open>Go_IO\<close>: the parts of Go and of its standard library in use; the sentinels
    of \<open>internal/migrator/errors.go\<close> and \<open>internal/db/errors.go\<close>.
  \<^item> \<open>Directives\<close>: \<open>internal/migrator/directives.go\<close>. \<open>Table_Ref\<close>: \<open>table.go\<close>. \<open>Planner\<close>: \<open>types.go\<close> and \<open>planner.go\<close>.
    \<open>Splitter\<close>, \<open>Splitter_Props\<close>: the splitter of \<open>custom_executor.go\<close>, byte by byte and line by line. \<open>Script_Parser\<close>,
    \<open>Source_FS\<close>: \<open>internal/source/parser.go\<close> and \<open>fs.go\<close>.
  \<^item> \<open>Sql_Database\<close>: the interface to the server and the statements the code sends. \<open>Executor\<close>: \<open>CustomExecutor\<close> of
    \<open>custom_executor.go\<close> with \<open>internal/sqlconn\<close>. \<open>Service\<close>: \<open>service.go\<close>. \<open>Lock\<close>: the lock of \<open>internal/db/postgres.go\<close>,
    \<open>Dsn\<close>: its connection string.
  \<^item> \<open>Ledger\<close>: the abstract specification, which rows and scripts are there after a step, a failed step, a plan.
    \<open>Executor_Correct\<close> and \<open>Plan_Execution\<close> prove that the executor refines it. \<open>Service_Correct\<close> states the contracts of
    the service's interfaces as locales (\<open>executor_contract\<close>, \<open>locker_contract\<close>, and \<open>service_contract\<close>, which joins
    them); \<open>Service_Ops\<close> and \<open>Service_Spec\<close> prove the service from the contracts alone; \<open>Providers\<close> shows by
    \<open>sublocale\<close> that the code's executor and lock keep them over every \<open>sql_database\<close>.
  \<^item> \<open>Api\<close>: \<open>migrate.go\<close>. \<open>Config\<close>: \<open>cmd/pg-migrate/config.go\<close> and the flags of \<open>main.go\<close>. \<open>Commands\<close>: the commands of \<open>main.go\<close>,
    \<open>validate.go\<close>, \<open>version.go\<close> and \<open>internal/dbconn\<close>. \<open>Timestamps\<close>, \<open>New_Command\<close>: \<open>new.go\<close>, with the calendar of package
    \<open>time\<close> and a file system of data. \<open>Programs\<close>: the programs under \<open>examples\<close>.
  \<^item> \<open>No_Sql\<close>: what a text without SQL is, and that the splitter's own test finds these but for lines that are too long.
    \<open>Ascii_Text\<close>, \<open>Slug_Correct\<close>, \<open>Scaffold_Correct\<close>, \<open>New_Files\<close>, \<open>New_Loads\<close>: lemmas on slugs, templates, paths and
    directories. \<open>Demo\<close>, \<open>New_Demo\<close>: concrete inputs.

  What is shown. \<open>Service_Props\<close> and \<open>Run_Props\<close>: what Reconcile, Up and Rollback leave on the server and report, on
  success and after every failure; what they refuse, and that a refusal changes nothing. \<open>Ledger_Props\<close>: Baseline, Forget
  and the plan, and runs that follow one another. \<open>Executor_Props\<close>: one migration at a time, atomic in a transaction,
  recorded outside one. \<open>Lock_Props\<close>: the lock is exclusive on its key, and the key that was taken is the key that is given back. \<open>Script_Props\<close>: directives,
  splitter, table reference, planner and file source. \<open>Dsn\<close>: libpq reads the connection string back, where no white space but the space is in it. \<open>Api_Props\<close>: the
  public functions. \<open>Histories\<close>: sequences of them, by one process or several in turn, as an inductive relation, and what
  holds along every one: which rows there can be, that a failed row stops everything until it is forgotten, and that
  every call starts from a database the other properties ask for. \<open>New_Props\<close>: \<open>new\<close> makes both files, or
  none unless a write or a removal fails, its IDs sort, and what it wrote loads.
  \<open>Command_Props\<close>: what reaches the database from the command line and what status 0 promises. \<open>Program_Props\<close>: the
  deploy gate. Beside correctness the lemmas \<open>long_line_is_dropped\<close>, \<open>short_timeout_waits_forever\<close>, \<open>dsn_tab_breaks\<close>,
  \<open>failed_write_leaves_half\<close> and \<open>gate_overlooks_failed_rows\<close> show inputs on which the code does not do what it means to.

  Bounds. Every loop of the code is a total function here. The search for a free stamp (\<open>next_free\<close>) ends because a
  year of five digits makes a stamp that no taken one equals; the properties on stamps ask that the clock, moved on by
  the number of files, stays below \<open>year_10000\<close>, the first second of that year. \<open>read_dsn\<close>, the reader in the
  round trip of the connection string, has fuel for the number of pairs, and any fuel from 6 on is enough, as there are
  six fields. The splitter's limit of 65,536 bytes per line is that of \<open>bufio.Scanner\<close>.

  Not modelled: log lines; cobra's parsing of the command line, so a command starts from its flags and arguments;
  pgx, the JSON encoder and \<open>debug.ReadBuildInfo\<close>, whose answers are arguments; the ten seconds that a detached
  bookkeeping write may take, and cancellation other than as the answer of a statement; the mutex of \<open>Postgres\<close>, which
  makes each of its operations one step; other processes between two calls of one run, which the
  advisory lock keeps away; \<open>test/dbtest\<close>, which creates databases for the tests.
\<close>

end
